theory Spec2Isabelle
  imports Main "HOL-Library.AList" "HOL-Library.Sublist"
begin

section \<open>Port allocator: \<open>ensure_user_settings\<close> (firewall\_bash.py)\<close>

text \<open>
  The three configuration constants the allocator reads from \<open>core/system/config.py\<close>
  (each can be overridden by an environment variable, so they are fields of a record
  rather than fixed numbers), and the default storage quota written into a new row.
\<close>

record config =
  USER_PORT_POOL_START :: int
  USER_PORT_POOL_END :: int
  USER_PORT_BLOCK_SIZE :: int
  USER_DEFAULT_STORAGE_QUOTA_BYTES :: int

text \<open>The values \<open>config.py\<close> uses when no environment variable is set.\<close>

definition default_config :: config where
  "default_config =
     \<lparr>USER_PORT_POOL_START = 20001, USER_PORT_POOL_END = 40000,
      USER_PORT_BLOCK_SIZE = 10, USER_DEFAULT_STORAGE_QUOTA_BYTES = 1024 * 1024 * 1024\<rparr>"

text \<open>
  A row of the table \<open>user_set\<close> (\<open>core/db/init_db.py\<close>): \<open>user_id TEXT NOT NULL UNIQUE\<close>,
  \<open>port_start INT NOT NULL\<close>, \<open>port_end INT NOT NULL\<close>, \<open>storage_quota_bytes\<close>. The
  surrogate key, the JSON settings and the two timestamps play no part in the allocation
  and are left out. The table is the list of its rows in insertion order.
\<close>

record user_set_row =
  user_id :: string
  port_start :: int
  port_end :: int
  storage_quota_bytes :: int

type_synonym user_set = "user_set_row list"

text \<open>\<open>SELECT port_start, port_end FROM user_set WHERE user_id = %s\<close>, then \<open>fetchone()\<close>.\<close>

definition select_user_row :: "user_set \<Rightarrow> string \<Rightarrow> user_set_row option" where
  "select_user_row tbl uid = find (\<lambda>r. user_id r = uid) tbl"

text \<open>\<open>SELECT MAX(port_end) FROM user_set\<close>: SQL's \<open>NULL\<close> on the empty table is \<open>None\<close>.\<close>

fun max_port_end :: "user_set \<Rightarrow> int option" where
  "max_port_end [] = None"
| "max_port_end (r # rs) =
     (case max_port_end rs of None \<Rightarrow> Some (port_end r) | Some m \<Rightarrow> Some (max (port_end r) m))"

text \<open>\<open>COALESCE(x, d)\<close>.\<close>

definition coalesce :: "int option \<Rightarrow> int \<Rightarrow> int" where
  "coalesce x d = (case x of None \<Rightarrow> d | Some v \<Rightarrow> v)"

text \<open>\<open>raise RuntimeError("...")\<close>: the port pool is used up.\<close>

datatype alloc_error = PoolExhausted

text \<open>
  The block a first call computes: \<open>port_start = max(int(max_end) + 1, POOL_START)\<close> and
  \<open>port_end = port_start + BLOCK_SIZE - 1\<close>.
\<close>

definition new_port_start :: "config \<Rightarrow> user_set \<Rightarrow> int" where
  "new_port_start cfg tbl =
     max (coalesce (max_port_end tbl) (USER_PORT_POOL_START cfg - 1) + 1) (USER_PORT_POOL_START cfg)"

definition new_port_end :: "config \<Rightarrow> user_set \<Rightarrow> int" where
  "new_port_end cfg tbl = new_port_start cfg tbl + USER_PORT_BLOCK_SIZE cfg - 1"

text \<open>
  \<open>ensure_user_settings(user_id)\<close>. The result pairs what the call returns (the tuple
  \<open>(port_start, port_end)\<close>, or the exception) with the table as the call leaves it:
  \<open>conn.commit()\<close> after the \<open>INSERT\<close>, \<open>conn.rollback()\<close> on the exception, and no
  write at all on the early return.
\<close>

definition ensure_user_settings ::
    "config \<Rightarrow> user_set \<Rightarrow> string \<Rightarrow> (alloc_error + int \<times> int) \<times> user_set" where
  "ensure_user_settings cfg tbl uid =
     (case select_user_row tbl uid of
        Some row \<Rightarrow> (Inr (port_start row, port_end row), tbl)
      | None \<Rightarrow>
          (let ps = new_port_start cfg tbl;
               pe = new_port_end cfg tbl
           in if pe > USER_PORT_POOL_END cfg then (Inl PoolExhausted, tbl)
              else (Inr (ps, pe),
                    tbl @ [\<lparr>user_id = uid, port_start = ps, port_end = pe,
                            storage_quota_bytes = USER_DEFAULT_STORAGE_QUOTA_BYTES cfg\<rparr>])))"

text \<open>
  A sequence of calls, one per user id of the list, each on the table the previous one
  left. Every caller in the repository catches the exception and carries on, so a failed
  call does not end the sequence.
\<close>

fun ensure_user_settings_seq :: "config \<Rightarrow> user_set \<Rightarrow> string list \<Rightarrow> user_set" where
  "ensure_user_settings_seq cfg tbl [] = tbl"
| "ensure_user_settings_seq cfg tbl (uid # uids) =
     ensure_user_settings_seq cfg (snd (ensure_user_settings cfg tbl uid)) uids"

text \<open>The ports of a block, both ends included (the firewall rule is \<open>port_start-port_end\<close>).\<close>

definition block_ports :: "user_set_row \<Rightarrow> int set" where
  "block_ports r = {port_start r .. port_end r}"

text \<open>
  The invariant of the table: user ids are unique, and every row starts above the ends
  of all rows inserted before it.
\<close>

fun monotone_blocks :: "user_set \<Rightarrow> bool" where
  "monotone_blocks [] = True"
| "monotone_blocks (r # rs) =
     ((\<forall>q \<in> set rs. port_end r < port_start q \<and> user_id q \<noteq> user_id r) \<and> monotone_blocks rs)"

section \<open>Session registry: \<open>AgentManager\<close> (agent\_manager.py)\<close>

text \<open>
  The execution client (\<open>ClaudeSDKClient\<close>) is an object of the external agent runtime.
  The registry only calls its methods, so a client is modelled by what those calls will
  do: return, or raise an exception whose \<open>str(e)\<close> is the string given.
\<close>

datatype outcome = Returns | Raises string

text \<open>
  The operating-system subprocess behind a client's transport (\<open>transport._process\<close>):
  its \<open>returncode\<close> (\<open>None\<close> while it runs) and what \<open>terminate()\<close> and \<open>wait()\<close> do.
\<close>

record cli_process =
  returncode :: "int option"
  terminate :: outcome
  wait :: outcome

text \<open>
  A message of the response stream, as far as \<open>_process_ai_response\<close> looks at it: the
  \<open>session_id\<close> attribute, and either the content blocks of an \<open>AssistantMessage\<close>, the
  \<open>subtype\<close> and \<open>result\<close> of a \<open>ResultMessage\<close>, or a message of another class.
\<close>

datatype block =
    ThinkingBlock string
  | ToolUseBlock string string
  | ToolResultBlock "string option" "string option"
  | TextBlock string
  | OtherBlock

datatype sdk_message =
    AssistantMessage "string option" "block list"
  | ResultMessage "string option" "string option" "string option"
  | OtherMessage "string option"

text \<open>
  \<open>close\<close> is \<open>None\<close> when the object has no such attribute (\<open>hasattr(client, 'close')\<close>).
  \<open>receive_response\<close> is the list of messages the stream yields and how the iteration
  ends after them.
\<close>

record sdk_client =
  connect :: outcome
  disconnect :: outcome
  close :: "outcome option"
  process :: "cli_process option"
  query :: outcome
  receive_response :: "sdk_message list \<times> outcome"

text \<open>The two fields of \<open>ClaudeAgentOptions\<close> that the registry's callers read back.\<close>

record agent_options =
  resume :: "string option"
  cwd :: string

text \<open>The calls made on the clients of the registry, as a log of the external effects.\<close>

datatype sdk_call =
    CallConnect | CallDisconnect | CallClose | CallTerminate | CallWait | CallQuery string

text \<open>
  The four dictionaries of \<open>AgentManager\<close>, each an association list in insertion order
  (the order in which Python iterates a \<open>dict\<close>), keyed by the agent id. A \<open>datetime\<close> is
  its number of microseconds, the resolution of \<open>datetime\<close> and \<open>timedelta\<close>. The field
  \<open>calls\<close> is the log of the calls made on clients, oldest first; the code has no such
  field, it is what the outside world has seen.
\<close>

record agent_manager =
  clients :: "(string \<times> sdk_client) list"
  client_options :: "(string \<times> agent_options) list"
  client_connected :: "(string \<times> bool) list"
  agent_last_active :: "(string \<times> int) list"
  calls :: "(string \<times> sdk_call) list"

definition log_call :: "string \<Rightarrow> sdk_call \<Rightarrow> agent_manager \<Rightarrow> agent_manager" where
  "log_call agent_id c m = m\<lparr>calls := calls m @ [(agent_id, c)]\<rparr>"

text \<open>\<open>self._client_connected.get(agent_id, False)\<close>.\<close>

definition is_connected :: "agent_manager \<Rightarrow> string \<Rightarrow> bool" where
  "is_connected m agent_id =
     (case map_of (client_connected m) agent_id of None \<Rightarrow> False | Some b \<Rightarrow> b)"

text \<open>
  \<open>AgentManager.ensure_client_connected(agent_id)\<close>, with the reading of \<open>datetime.now()\<close>
  as the first argument. An exception of \<open>client.connect()\<close> is caught and answered by
  \<open>return False\<close>, before the line that updates the last-active time.
\<close>

definition ensure_client_connected :: "int \<Rightarrow> agent_manager \<Rightarrow> string \<Rightarrow> bool \<times> agent_manager" where
  "ensure_client_connected now m agent_id =
     (case map_of (clients m) agent_id of
        None \<Rightarrow> (False, m)
      | Some client \<Rightarrow>
          if \<not> is_connected m agent_id then
            (case connect client of
               Raises e \<Rightarrow> (False, log_call agent_id CallConnect m)
             | Returns \<Rightarrow>
                 (True, (log_call agent_id CallConnect m)
                    \<lparr>client_connected := AList.update agent_id True (client_connected m),
                     agent_last_active := AList.update agent_id now (agent_last_active m)\<rparr>))
          else (True, m\<lparr>agent_last_active := AList.update agent_id now (agent_last_active m)\<rparr>))"

text \<open>
  \<open>AgentManager._force_kill_cli_process(client, agent_id)\<close>: nothing when there is no
  process or it has exited; otherwise \<open>terminate()\<close> (exceptions suppressed), then
  \<open>wait()\<close>, and \<open>terminate()\<close> once more when \<open>wait()\<close> raises. No exception leaves it.
\<close>

definition force_kill_cli_process :: "sdk_client \<Rightarrow> string \<Rightarrow> agent_manager \<Rightarrow> agent_manager" where
  "force_kill_cli_process client agent_id m =
     (case process client of
        None \<Rightarrow> m
      | Some p \<Rightarrow>
          if returncode p \<noteq> None then m
          else
            (let m1 = log_call agent_id CallWait (log_call agent_id CallTerminate m)
             in case wait p of
                  Returns \<Rightarrow> m1
                | Raises e \<Rightarrow> log_call agent_id CallTerminate m1))"

text \<open>
  \<open>AgentManager.close_agent_client(agent_id)\<close>: \<open>disconnect()\<close> and, when the client has
  one, \<open>close()\<close>, each inside its own \<open>try/except Exception: pass\<close>; the forced kill; then
  the four \<open>del\<close>. The result is \<open>True\<close> when the agent was registered.
\<close>

definition close_agent_client :: "agent_manager \<Rightarrow> string \<Rightarrow> bool \<times> agent_manager" where
  "close_agent_client m agent_id =
     (case map_of (clients m) agent_id of
        None \<Rightarrow> (False, m)
      | Some client \<Rightarrow>
          (let m1 = log_call agent_id CallDisconnect m;
               m2 = (case close client of None \<Rightarrow> m1 | Some r \<Rightarrow> log_call agent_id CallClose m1);
               m3 = force_kill_cli_process client agent_id m2
           in (True, m3\<lparr>clients := AList.delete agent_id (clients m3),
                         client_options := AList.delete agent_id (client_options m3),
                         client_connected := AList.delete agent_id (client_connected m3),
                         agent_last_active := AList.delete agent_id (agent_last_active m3)\<rparr>)))"

section \<open>Idle reaper: \<open>_idle_agent_cleanup_task\<close> (background\_tasks.py)\<close>

text \<open>\<open>timedelta(seconds=timeout_seconds)\<close> in microseconds.\<close>

definition timedelta_seconds :: "int \<Rightarrow> int" where
  "timedelta_seconds s = s * 1000000"

text \<open>
  The \<open>for agent_id in agent_ids\<close> loop of one tick: the manager and \<open>closed_count\<close> are
  threaded through. An agent without a last-active time is skipped (\<open>continue\<close>); one
  whose idle time \<open>now - last_active\<close> is greater than the threshold is closed. The
  \<open>try/except Exception\<close> around the call has nothing to catch, since
  \<open>close_agent_client\<close> returns \<open>False\<close> instead of raising.
\<close>

fun idle_sweep :: "int \<Rightarrow> int \<Rightarrow> string list \<Rightarrow> agent_manager \<times> nat \<Rightarrow> agent_manager \<times> nat" where
  "idle_sweep now timeout_threshold [] (m, closed_count) = (m, closed_count)"
| "idle_sweep now timeout_threshold (agent_id # agent_ids) (m, closed_count) =
     (case map_of (agent_last_active m) agent_id of
        None \<Rightarrow> idle_sweep now timeout_threshold agent_ids (m, closed_count)
      | Some last_active \<Rightarrow>
          if now - last_active > timeout_threshold
          then idle_sweep now timeout_threshold agent_ids
                 (snd (close_agent_client m agent_id), closed_count + 1)
          else idle_sweep now timeout_threshold agent_ids (m, closed_count))"

text \<open>
  One tick of the \<open>while True\<close> loop after its sleep: \<open>IDLE_TIMEOUT_SECONDS\<close> and the
  reading of the clock are arguments, \<open>agent_ids = list(agent_manager._clients.keys())\<close>
  is the snapshot the loop runs over.
\<close>

definition idle_cleanup_tick :: "int \<Rightarrow> int \<Rightarrow> agent_manager \<Rightarrow> agent_manager \<times> nat" where
  "idle_cleanup_tick timeout_seconds now m =
     idle_sweep now (timedelta_seconds timeout_seconds) (map fst (clients m)) (m, 0)"

text \<open>What the registry holds for an agent id: its entry in each of the four dictionaries.\<close>

definition registry_entry ::
    "agent_manager \<Rightarrow> string \<Rightarrow> sdk_client option \<times> agent_options option \<times> bool option \<times> int option" where
  "registry_entry m a =
     (map_of (clients m) a, map_of (client_options m) a, map_of (client_connected m) a,
      map_of (agent_last_active m) a)"

text \<open>The calls logged for one agent.\<close>

definition calls_on :: "agent_manager \<Rightarrow> string \<Rightarrow> sdk_call list" where
  "calls_on m a = map snd (filter (\<lambda>e. fst e = a) (calls m))"

section \<open>Strings of the standard library\<close>

text \<open>
  A Python \<open>str\<close> is modelled by \<open>string\<close>, a list of characters with code points below
  256. On these, \<open>str.lower\<close> changes the ASCII capitals and the Latin-1 capitals
  (192 to 222 but 215), and \<open>str.isalnum\<close> holds for the ASCII letters and digits and
  for the Latin-1 letters and numeric signs listed.
\<close>

definition py_lower_char :: "char \<Rightarrow> char" where
  "py_lower_char c =
     (let n = (of_char c :: nat)
      in if (65 \<le> n \<and> n \<le> 90) \<or> (192 \<le> n \<and> n \<le> 214) \<or> (216 \<le> n \<and> n \<le> 222)
         then char_of (n + 32) else c)"

definition py_lower :: "string \<Rightarrow> string" where
  "py_lower s = map py_lower_char s"

definition py_isalnum :: "char \<Rightarrow> bool" where
  "py_isalnum c =
     (let n = (of_char c :: nat)
      in (48 \<le> n \<and> n \<le> 57) \<or> (65 \<le> n \<and> n \<le> 90) \<or> (97 \<le> n \<and> n \<le> 122) \<or>
         n \<in> {170, 178, 179, 181, 185, 186, 188, 189, 190} \<or>
         (192 \<le> n \<and> n \<le> 214) \<or> (216 \<le> n \<and> n \<le> 246) \<or> (248 \<le> n \<and> n \<le> 255))"

text \<open>\<open>needle in haystack\<close> on strings.\<close>

fun contains :: "string \<Rightarrow> string \<Rightarrow> bool" where
  "contains needle [] = (needle = [])"
| "contains needle (c # cs) = (prefix needle (c # cs) \<or> contains needle cs)"

text \<open>\<open>s.split(sep)\<close> for a separator of one character, and \<open>sep.join(parts)\<close>.\<close>

fun split_sep :: "char \<Rightarrow> string \<Rightarrow> string list" where
  "split_sep sep [] = [[]]"
| "split_sep sep (c # cs) =
     (if c = sep then [] # split_sep sep cs
      else (case split_sep sep cs of
              [] \<Rightarrow> [[c]]
            | w # ws \<Rightarrow> (c # w) # ws))"

fun join_sep :: "char \<Rightarrow> string list \<Rightarrow> string" where
  "join_sep sep [] = []"
| "join_sep sep [w] = w"
| "join_sep sep (w # v # ws) = w @ sep # join_sep sep (v # ws)"

text \<open>The decimal digits of a number, as an f-string prints an \<open>int\<close>.\<close>

fun show_nat :: "nat \<Rightarrow> string" where
  "show_nat n =
     (if n < 10 then [''0123456789'' ! n]
      else show_nat (n div 10) @ [''0123456789'' ! (n mod 10)])"

declare show_nat.simps [simp del]

definition show_int :: "int \<Rightarrow> string" where
  "show_int i = (if i < 0 then CHR ''-'' # show_nat (nat (- i)) else show_nat (nat i))"

section \<open>\<open>shlex\<close>\<close>

text \<open>
  \<open>shlex.quote\<close>: the empty string becomes two single quotes; a string of safe characters
  only (ASCII letters, digits and \<open>_@%+=:,./-\<close>) is returned as it is; any other string is
  put between single quotes, each single quote in it replaced by the five characters
  quote, double quote, quote, double quote, quote.
\<close>

definition shlex_safe :: "char \<Rightarrow> bool" where
  "shlex_safe c =
     (let n = (of_char c :: nat)
      in (48 \<le> n \<and> n \<le> 57) \<or> (65 \<le> n \<and> n \<le> 90) \<or> (97 \<le> n \<and> n \<le> 122) \<or>
         c \<in> set ''_@%+=:,./-'')"

definition quote_body :: "string \<Rightarrow> string" where
  "quote_body s =
     concat (map (\<lambda>c. if c = CHR 0x27 then [CHR 0x27, CHR 0x22, CHR 0x27, CHR 0x22, CHR 0x27]
                        else [c]) s)"

definition shlex_quote :: "string \<Rightarrow> string" where
  "shlex_quote s =
     (if s = [] then [CHR 0x27, CHR 0x27]
      else if list_all shlex_safe s then s
      else CHR 0x27 # quote_body s @ [CHR 0x27])"

text \<open>
  \<open>shlex.split(s)\<close>, that is the lexer of \<open>shlex\<close> in POSIX mode with \<open>whitespace_split\<close> set
  and no comment characters. The lexer's \<open>state\<close> is a blank (between tokens), \<open>'a'\<close> (in
  a word), a quote character, or the escape character; \<open>escapedstate\<close> is the state to
  return to after an escape. \<open>None\<close> is the \<open>ValueError\<close> for a quotation or an escape
  that the end of the input leaves open.
\<close>

datatype lex_state = InSpace | InWord | InQuote char | InEscape

definition shlex_whitespace :: "char \<Rightarrow> bool" where
  "shlex_whitespace c = (c \<in> {CHR '' '', CHR 0x09, CHR 0x0D, CHR 0x0A})"

definition shlex_quotes :: "char \<Rightarrow> bool" where
  "shlex_quotes c = (c = CHR 0x27 \<or> c = CHR 0x22)"

text \<open>
  What \<open>read_token\<close> returns at a break: the token, unless it is empty and nothing was
  quoted (then \<open>None\<close>, which only happens at the end of the input and ends the iteration).
\<close>

definition emit :: "string \<Rightarrow> bool \<Rightarrow> string list option \<Rightarrow> string list option" where
  "emit token quoted rest = map_option (Cons token) rest"

fun lex :: "lex_state \<Rightarrow> lex_state \<Rightarrow> string \<Rightarrow> bool \<Rightarrow> string \<Rightarrow> string list option" where
  "lex InSpace esc token quoted [] = (if token \<noteq> [] \<or> quoted then Some [token] else Some [])"
| "lex InWord esc token quoted [] = (if token \<noteq> [] \<or> quoted then Some [token] else Some [])"
| "lex (InQuote q) esc token quoted [] = None"
| "lex InEscape esc token quoted [] = None"
| "lex InSpace esc token quoted (c # cs) =
     (if shlex_whitespace c then
        (if token \<noteq> [] \<or> quoted then emit token quoted (lex InSpace InSpace [] False cs)
         else lex InSpace esc token quoted cs)
      else if c = CHR 0x5C then lex InEscape InWord token quoted cs
      else if shlex_quotes c then lex (InQuote c) esc token quoted cs
      else lex InWord esc [c] quoted cs)"
| "lex (InQuote q) esc token quoted (c # cs) =
     (if c = q then lex InWord esc token True cs
      else if c = CHR 0x5C \<and> q = CHR 0x22 then lex InEscape (InQuote q) token True cs
      else lex (InQuote q) esc (token @ [c]) True cs)"
| "lex InEscape esc token quoted (c # cs) =
     (case esc of
        InQuote q \<Rightarrow>
          lex (InQuote q) esc
            ((if c \<noteq> CHR 0x5C \<and> c \<noteq> q then token @ [CHR 0x5C] else token) @ [c]) quoted cs
      | other \<Rightarrow> lex other esc (token @ [c]) quoted cs)"
| "lex InWord esc token quoted (c # cs) =
     (if shlex_whitespace c then
        (if token \<noteq> [] \<or> quoted then emit token quoted (lex InSpace InSpace [] False cs)
         else lex InSpace esc token quoted cs)
      else if shlex_quotes c then lex (InQuote c) esc token quoted cs
      else if c = CHR 0x5C then lex InEscape InWord token quoted cs
      else lex InWord esc (token @ [c]) quoted cs)"

definition shlex_split :: "string \<Rightarrow> string list option" where
  "shlex_split s = lex InSpace InSpace [] False s"

section \<open>\<open>posixpath\<close>\<close>

text \<open>\<open>posixpath.join(a, b)\<close>.\<close>

definition path_join :: "string \<Rightarrow> string \<Rightarrow> string" where
  "path_join a b =
     (if prefix ''/'' b then b
      else if a = [] \<or> suffix ''/'' a then a @ b
      else a @ ''/'' @ b)"

text \<open>
  \<open>posixpath.normpath\<close>. One leading slash, or exactly two, is kept; three or more count
  as one. The loop over the components drops empty ones and \<open>.\<close>, and lets \<open>..\<close> remove the
  component before it where there is one to remove.
\<close>

definition initial_slashes :: "string \<Rightarrow> nat" where
  "initial_slashes path =
     (if \<not> prefix ''/'' path then 0
      else if prefix ''//'' path \<and> \<not> prefix ''///'' path then 2 else 1)"

definition norm_step :: "nat \<Rightarrow> string list \<Rightarrow> string \<Rightarrow> string list" where
  "norm_step slashes new_comps part =
     (if part = [] \<or> part = ''.'' then new_comps
      else if part \<noteq> ''..'' \<or> (slashes = 0 \<and> new_comps = []) \<or>
              (new_comps \<noteq> [] \<and> last new_comps = ''..'')
           then new_comps @ [part]
      else if new_comps \<noteq> [] then butlast new_comps
      else new_comps)"

definition normpath :: "string \<Rightarrow> string" where
  "normpath path =
     (if path = [] then ''.''
      else
        (let slashes = initial_slashes path;
             comps = foldl (norm_step slashes) [] (split_sep CHR ''/'' path);
             joined = replicate slashes CHR ''/'' @ join_sep CHR ''/'' comps
         in if joined = [] then ''.'' else joined))"

text \<open>\<open>os.path.abspath(path)\<close>, with the value of \<open>os.getcwd()\<close> as the first argument.\<close>

definition abspath :: "string \<Rightarrow> string \<Rightarrow> string" where
  "abspath getcwd path =
     normpath (if prefix ''/'' path then path else path_join getcwd path)"

text \<open>
  The components \<open>commonpath\<close> compares: those of \<open>path.split('/')\<close> that are neither
  empty nor \<open>.\<close>.
\<close>

definition path_components :: "string \<Rightarrow> string list" where
  "path_components path = filter (\<lambda>c. c \<noteq> [] \<and> c \<noteq> ''.'') (split_sep CHR ''/'' path)"

fun common_prefix :: "string list \<Rightarrow> string list \<Rightarrow> string list" where
  "common_prefix (x # xs) (y # ys) = (if x = y then x # common_prefix xs ys else [])"
| "common_prefix xs ys = []"

text \<open>
  \<open>os.path.commonpath([p1, p2])\<close>: \<open>None\<close> is the \<open>ValueError\<close> raised when one path is
  absolute and the other is not. (The library takes the common leading components of the
  least and the greatest of the split paths; for two paths these are their common leading
  components.)
\<close>

definition commonpath :: "string \<Rightarrow> string \<Rightarrow> string option" where
  "commonpath p1 p2 =
     (if prefix ''/'' p1 \<noteq> prefix ''/'' p2 then None
      else Some ((if prefix ''/'' p1 then ''/'' else [])
                 @ join_sep CHR ''/'' (common_prefix (path_components p1) (path_components p2))))"

section \<open>Command isolation wrapper and permission handler (firewall\_bash.py)\<close>

text \<open>
  The tool input is a dictionary of strings, an association list in insertion order.
\<close>

type_synonym tool_input = "(string \<times> string) list"

text \<open>
  The class \<open>PermissionResultAllow\<close> of the agent SDK, which is not part of this
  repository, as far as \<open>_allow_permission_result\<close> uses it: the parameter names that
  \<open>inspect.signature\<close> reports (\<open>None\<close> when it raises), and whether a call of the class
  returns an instance or raises. The calls the code makes are
  \<open>allow_cls(updatedInput=updated_input)\<close>, \<open>allow_cls(updated_input)\<close> and \<open>allow_cls()\<close>.
  A module of the SDK either has the class as its attribute or has not.
\<close>

datatype construction = ByUpdatedInput tool_input | ByPosition tool_input | NoArguments

record allow_class =
  signature_parameters :: "string list option"
  constructs :: "construction \<Rightarrow> bool"

record sdk_module =
  PermissionResultAllow :: "allow_class option"

text \<open>
  What the module reads from its surroundings: the firewall switch and the user-name
  prefix of \<open>config.py\<close>, \<open>os.name\<close>, the string of \<open>config.get_work_base_dir()\<close>, the
  current directory of the server process (\<open>os.getcwd()\<close>), and what
  \<open>importlib.import_module\<close> gives for a module name (\<open>None\<close> when it raises). The path
  functions above are those of a POSIX host.
\<close>

record host =
  FIREWALL_ENABLED :: bool
  LINUX_USER_PREFIX :: string
  os_name :: string
  work_base_dir :: string
  getcwd :: string
  import_module :: "string \<Rightarrow> sdk_module option"

text \<open>
  \<open>_to_linux_user\<close>: the prefix, then the first sixteen alphanumeric characters of the
  lower-cased user id.
\<close>

definition to_linux_user :: "host \<Rightarrow> string \<Rightarrow> string" where
  "to_linux_user h uid = LINUX_USER_PREFIX h @ take 16 (filter py_isalnum (py_lower uid))"

text \<open>
  \<open>_extract_user_id\<close>: \<open>re.search\<close> of \<open>userid_([^/\\]+)\<close>, that is the leftmost place where
  \<open>userid_\<close> is followed by at least one character other than slash and backslash; the
  group is the longest run of such characters there.
\<close>

definition id_char :: "char \<Rightarrow> bool" where
  "id_char c = (c \<noteq> CHR ''/'' \<and> c \<noteq> CHR 0x5C)"

fun extract_user_id :: "string \<Rightarrow> string option" where
  "extract_user_id [] = None"
| "extract_user_id (c # cs) =
     (if prefix ''userid_'' (c # cs) \<and> takeWhile id_char (drop 7 (c # cs)) \<noteq> []
      then Some (takeWhile id_char (drop 7 (c # cs)))
      else extract_user_id cs)"

text \<open>
  \<open>str(base_dir / name)\<close> for a name without a slash: the base, a slash unless the base is
  a root, and the name; the empty path prints as \<open>.\<close> and contributes nothing.
\<close>

definition path_child :: "string \<Rightarrow> string \<Rightarrow> string" where
  "path_child base name =
     (if base = ''.'' then name
      else if suffix ''/'' base then base @ name
      else base @ ''/'' @ name)"

text \<open>\<open>_resolve_user_workspace\<close>.\<close>

definition resolve_user_workspace :: "host \<Rightarrow> string \<Rightarrow> string option \<Rightarrow> string" where
  "resolve_user_workspace h work_dir uid =
     (case uid of
        None \<Rightarrow> work_dir
      | Some u \<Rightarrow> if u = [] then work_dir else path_child (work_base_dir h) (''userid_'' @ u))"

text \<open>
  \<open>_wrap_bash_command\<close>. The two readings it takes from outside, \<open>int(time.time() * 1000)\<close>
  and \<open>uuid.uuid4().hex\<close>, are its first two arguments; it has no effect but its result.
\<close>

definition job_unit :: "int \<Rightarrow> string \<Rightarrow> string \<Rightarrow> string" where
  "job_unit now_ms uuid_hex linux_user =
     ''job-'' @ linux_user @ ''-'' @ show_int now_ms @ ''-'' @ take 6 uuid_hex"

definition wrap_bash_command :: "int \<Rightarrow> string \<Rightarrow> string \<Rightarrow> string \<Rightarrow> string \<Rightarrow> string" where
  "wrap_bash_command now_ms uuid_hex command linux_user work_dir =
     ''sudo chown -R '' @ shlex_quote linux_user @ '':'' @ shlex_quote linux_user @ '' ''
       @ shlex_quote work_dir @ '' && ''
     @ ''sudo systemd-run --scope --slice=user-'' @ shlex_quote linux_user @ ''.slice ''
     @ ''--unit='' @ shlex_quote (job_unit now_ms uuid_hex linux_user) @ '' ''
     @ ''--working-directory='' @ shlex_quote work_dir @ '' ''
     @ ''--uid='' @ shlex_quote linux_user @ '' --gid='' @ shlex_quote linux_user @ '' --quiet ''
     @ ''bash -lc '' @ shlex_quote command"

text \<open>
  \<open>_is_allowed_wrapped_command\<close>, with its two inner functions. A \<open>ValueError\<close> of
  \<open>shlex.split\<close> gives the empty token list.
\<close>

definition has_required_workdir :: "string \<Rightarrow> string \<Rightarrow> bool" where
  "has_required_workdir work_dir cmd =
     (if work_dir = [] then True
      else contains ''bash -lc'' cmd \<and> contains (''cd '' @ shlex_quote work_dir) cmd)"

definition has_systemd_run :: "string \<Rightarrow> string list \<Rightarrow> nat \<Rightarrow> bool" where
  "has_systemd_run linux_user tokens start_idx =
     (if start_idx + 1 \<ge> length tokens then False
      else if tokens ! start_idx \<noteq> ''sudo'' \<or> tokens ! (start_idx + 1) \<noteq> ''systemd-run'' then False
      else ''--scope'' \<in> set (drop (start_idx + 2) tokens) \<and>
           (''--slice=user-'' @ linux_user @ ''.slice'') \<in> set (drop (start_idx + 2) tokens))"

definition is_allowed_wrapped_command :: "string \<Rightarrow> string \<Rightarrow> string \<Rightarrow> bool" where
  "is_allowed_wrapped_command command linux_user work_dir =
     (let parts0 = (case shlex_split command of None \<Rightarrow> [] | Some ts \<Rightarrow> ts);
          parts = (if parts0 \<noteq> [] \<and> hd parts0 = ''time'' then tl parts0 else parts0)
      in if has_systemd_run linux_user parts 0 then has_required_workdir work_dir command
         else if \<exists>idx \<in> set [0 ..< length parts - 1].
                   parts ! idx = ''sudo'' \<and> parts ! (idx + 1) = ''systemd-run'' \<and>
                   has_systemd_run linux_user parts idx
              then has_required_workdir work_dir command
         else False)"

text \<open>
  \<open>_is_path_allowed\<close>. The \<open>except Exception: return False\<close> catches the \<open>ValueError\<close> of
  \<open>commonpath\<close>.
\<close>

definition is_path_allowed :: "host \<Rightarrow> string \<Rightarrow> string \<Rightarrow> bool" where
  "is_path_allowed h path allowed_dir =
     (if path = [] then True
      else (case commonpath (abspath (getcwd h) path) (abspath (getcwd h) allowed_dir) of
              None \<Rightarrow> False
            | Some common \<Rightarrow> common = abspath (getcwd h) allowed_dir))"

text \<open>
  \<open>d.get(k)\<close> in a condition or an \<open>or\<close> chain counts only when it is a non-empty string.
\<close>

definition truthy :: "string option \<Rightarrow> string option" where
  "truthy v = (case v of None \<Rightarrow> None | Some s \<Rightarrow> if s = [] then None else Some s)"

text \<open>
  \<open>input.get("file_path") or input.get("path") or input.get("pattern")\<close>, as far as the
  \<open>if file_path:\<close> that follows can tell.
\<close>

definition requested_path :: "tool_input \<Rightarrow> string option" where
  "requested_path d =
     (case truthy (map_of d ''file_path'') of
        Some p \<Rightarrow> Some p
      | None \<Rightarrow>
          (case truthy (map_of d ''path'') of
             Some p \<Rightarrow> Some p
           | None \<Rightarrow> truthy (map_of d ''pattern'')))"

text \<open>
  What the handler returns: the instance of \<open>PermissionResultAllow\<close> that the class found
  in the named module gives for a call, the dictionary
  \<open>{"behavior": "allow", "updatedInput": ...}\<close>, or the dictionary
  \<open>{"behavior": "deny", "systemMessage": ...}\<close>, whose message tells the user that only
  files inside the workspace named in it can be accessed.
\<close>

datatype denial = OutsideWorkspace string

datatype permission_result =
    AllowInstance string construction
  | AllowDict tool_input
  | Deny denial

text \<open>
  The body of the loop of \<open>_allow_permission_result\<close> for a class that was found: the call
  chosen by the signature, when the signature can be read, has one of the two parameter
  names and the call returns; otherwise the call without arguments, when that returns.
  \<open>None\<close> when every attempt raised, and the loop goes on.
\<close>

definition try_allow_class :: "allow_class \<Rightarrow> tool_input \<Rightarrow> construction option" where
  "try_allow_class allow_cls updated_input =
     (let by_signature =
            (case signature_parameters allow_cls of
               None \<Rightarrow> None
             | Some parameters \<Rightarrow>
                 if ''updatedInput'' \<in> set parameters
                 then (if constructs allow_cls (ByUpdatedInput updated_input)
                       then Some (ByUpdatedInput updated_input) else None)
                 else if ''input_data'' \<in> set parameters
                 then (if constructs allow_cls (ByPosition updated_input)
                       then Some (ByPosition updated_input) else None)
                 else None)
      in case by_signature of
           Some made \<Rightarrow> Some made
         | None \<Rightarrow> if constructs allow_cls NoArguments then Some NoArguments else None)"

text \<open>
  \<open>_allow_permission_result\<close>: the loop over the module names, and the dictionary when no
  module gave an instance.
\<close>

fun allow_from_modules :: "host \<Rightarrow> string list \<Rightarrow> tool_input \<Rightarrow> permission_result" where
  "allow_from_modules h [] updated_input = AllowDict updated_input"
| "allow_from_modules h (module_name # names) updated_input =
     (case import_module h module_name of
        None \<Rightarrow> allow_from_modules h names updated_input
      | Some sdk \<Rightarrow>
          (case PermissionResultAllow sdk of
             None \<Rightarrow> allow_from_modules h names updated_input
           | Some allow_cls \<Rightarrow>
               (case try_allow_class allow_cls updated_input of
                  Some made \<Rightarrow> AllowInstance module_name made
                | None \<Rightarrow> allow_from_modules h names updated_input)))"

definition allow_permission_result :: "host \<Rightarrow> tool_input \<Rightarrow> permission_result" where
  "allow_permission_result h updated_input =
     allow_from_modules h [''claude_agent_sdk.permissions'', ''claude_agent_sdk''] updated_input"

text \<open>
  \<open>build_tool_permission_handler(work_dir)\<close> applied to a call \<open>(tool_name, input_data)\<close>.
  The clock and the uuid that the wrapper reads during the call are arguments. With the
  firewall off the handler is \<open>_passthrough\<close>; otherwise it is \<open>_handler\<close>, closed over
  \<open>user_id\<close>, \<open>linux_user\<close> and \<open>user_workspace\<close>.
\<close>

definition build_tool_permission_handler ::
    "host \<Rightarrow> string \<Rightarrow> int \<Rightarrow> string \<Rightarrow> string \<Rightarrow> tool_input \<Rightarrow> permission_result" where
  "build_tool_permission_handler h work_dir now_ms uuid_hex tool_name input_data =
     (if \<not> FIREWALL_ENABLED h then allow_permission_result h input_data
      else
        (let uid = extract_user_id work_dir;
             linux_user = truthy (map_option (to_linux_user h) uid);
             user_workspace = resolve_user_workspace h work_dir uid;
             bash_work_dir = work_dir;
             updated_input = input_data;
             resolved_tool = (if tool_name \<noteq> [] then Some tool_name
                              else truthy (map_of updated_input ''tool_name''))
         in if linux_user \<noteq> None \<and> resolved_tool \<in> {Some ''Read'', Some ''Grep'', Some ''Glob''} \<and>
               (case requested_path updated_input of
                  None \<Rightarrow> False
                | Some file_path \<Rightarrow> \<not> is_path_allowed h file_path user_workspace)
            then Deny (OutsideWorkspace user_workspace)
            else if os_name h \<noteq> ''nt'' \<and> resolved_tool = Some ''Bash'' \<and> linux_user \<noteq> None \<and>
                    truthy (map_of updated_input ''command'') \<noteq> None
                 then allow_permission_result h
                        (AList.update ''command''
                           (wrap_bash_command now_ms uuid_hex (the (map_of updated_input ''command''))
                              (the linux_user) bash_work_dir) updated_input)
                 else allow_permission_result h updated_input))"

text \<open>
  The tool input that an answer of the handler hands on to the runtime, if it hands on
  one: the argument of the call that made the instance, or the entry of the dictionary.
\<close>

fun updated_input_of :: "permission_result \<Rightarrow> tool_input option" where
  "updated_input_of (AllowInstance module_name (ByUpdatedInput d)) = Some d"
| "updated_input_of (AllowInstance module_name (ByPosition d)) = Some d"
| "updated_input_of (AllowInstance module_name NoArguments) = None"
| "updated_input_of (AllowDict d) = Some d"
| "updated_input_of (Deny reason) = None"

fun is_allow :: "permission_result \<Rightarrow> bool" where
  "is_allow (Deny reason) = False"
| "is_allow answer = True"

section \<open>Command exchange and fatal-error recovery: \<open>_process_ai_response\<close> (chat\_api.py)\<close>

text \<open>
  The persistent state the exchange works on: the two columns of \<open>chat_sessions\<close> it
  reads and writes, and the rows of \<open>chat_messages\<close> it inserts, in order. The relational
  store is taken to answer every query; its own exceptions are not modelled.
\<close>

record chat_session =
  session_user_id :: string
  session_claude_id :: "string option"

text \<open>
  The content of a saved message. The texts are fixed sentences (in Chinese) with the
  values below interpolated: the notice that the agent is thinking, a thinking note
  (its first 200 characters), the notice that a tool is used (its name, \<open>None\<close> for the
  default label, and the file name it works on), the notice that a tool is done (name
  and the first 200 characters of its output), a text of the agent, the notice that the
  task failed with its result text, and the apology shown when processing failed.
\<close>

datatype content =
    DeepThinking
  | ThinkingNote string
  | UsingTool "string option" "string option"
  | ToolDone "string option" "string option"
  | Text string
  | TaskFailed "string option"
  | Apology

text \<open>The metadata column: \<open>json.dumps({"subtype": subtype})\<close> or \<open>json.dumps({"error": True})\<close>.\<close>

datatype metadata = Subtype string | ErrorFlag

record chat_message =
  message_session :: string
  sender_id :: string
  sender_type :: string
  message_content :: content
  message_type :: string
  message_metadata :: "metadata option"

text \<open>
  The world of an exchange: the registry, the two tables, and what the constructor of the
  execution client will give on its next calls (\<open>None\<close> where building the client or its
  options raises), first call first.
\<close>

record world =
  manager :: agent_manager
  chat_sessions :: "(string \<times> chat_session) list"
  chat_messages :: "chat_message list"
  client_factory :: "sdk_client option list"

text \<open>
  What the exchange reads from its surroundings and does not change: the knowledge-base
  lookup of \<open>_build_kb_context\<close> (\<open>None\<close> when the knowledge base is disabled or finds
  nothing), the fixed text that the code puts between the message and the fragments, the
  \<open>work_dir\<close> of the agent's settings, the default working directory of
  \<open>config.get_agent_work_dir\<close>, and the clock.
\<close>

record chat_env =
  kb_context :: "string \<Rightarrow> string \<Rightarrow> string option"
  kb_header :: string
  agent_settings_work_dir :: "string \<Rightarrow> string option"
  default_agent_work_dir :: "string \<Rightarrow> string \<Rightarrow> string"
  clock :: int

text \<open>\<open>save_message\<close> and \<open>update_session_claude_id\<close>.\<close>

definition save_message ::
    "world \<Rightarrow> string \<Rightarrow> string \<Rightarrow> string \<Rightarrow> content \<Rightarrow> string \<Rightarrow> metadata option \<Rightarrow> world" where
  "save_message w session_id sender sender_kind body kind meta =
     w\<lparr>chat_messages := chat_messages w @
        [\<lparr>message_session = session_id, sender_id = sender, sender_type = sender_kind,
          message_content = body, message_type = kind, message_metadata = meta\<rparr>]\<rparr>"

definition update_session_claude_id :: "world \<Rightarrow> string \<Rightarrow> string option \<Rightarrow> world" where
  "update_session_claude_id w session_id token =
     w\<lparr>chat_sessions :=
         map (\<lambda>(k, s). if k = session_id then (k, s\<lparr>session_claude_id := token\<rparr>) else (k, s))
           (chat_sessions w)\<rparr>"

text \<open>
  \<open>AgentManager.create_agent_client\<close>: an existing client of the agent is closed first;
  then the options and the client are built, which may raise (the function then returns
  \<open>False\<close>); then the client is registered, not connected, with the current time. The
  agent's settings override the working directory.
\<close>

definition create_agent_client ::
    "chat_env \<Rightarrow> world \<Rightarrow> string \<Rightarrow> string \<Rightarrow> string option \<Rightarrow> bool \<times> world" where
  "create_agent_client env w agent_id work_dir session_id =
     (let m1 = (if map_of (clients (manager w)) agent_id \<noteq> None
                then snd (close_agent_client (manager w) agent_id) else manager w)
      in case client_factory w of
           [] \<Rightarrow> (False, w\<lparr>manager := m1\<rparr>)
         | None # later \<Rightarrow> (False, w\<lparr>manager := m1, client_factory := later\<rparr>)
         | Some client # later \<Rightarrow>
             (True,
              w\<lparr>manager := m1
                  \<lparr>clients := AList.update agent_id client (clients m1),
                   client_options := AList.update agent_id
                      \<lparr>resume = session_id,
                       cwd = (case truthy (agent_settings_work_dir env agent_id) of
                                Some custom \<Rightarrow> custom | None \<Rightarrow> work_dir)\<rparr>
                      (client_options m1),
                   client_connected := AList.update agent_id False (client_connected m1),
                   agent_last_active := AList.update agent_id (clock env) (agent_last_active m1)\<rparr>,
                client_factory := later\<rparr>))"

text \<open>
  \<open>_ensure_agent_client\<close>: the registered client is kept unless the settings ask for
  another working directory or the session's resume token differs from a token the client
  already has; a client without a token takes the session's token. Without a client, or
  after closing it for a rebuild, a new one is created for the session's token.
\<close>

definition ensure_agent_client ::
    "chat_env \<Rightarrow> world \<Rightarrow> string \<Rightarrow> string \<Rightarrow> string option \<Rightarrow> sdk_client option \<times> world" where
  "ensure_agent_client env w agent_id user session_token =
     (let options = map_of (client_options (manager w)) agent_id;
          current_resume = (case options of None \<Rightarrow> None | Some opts \<Rightarrow> resume opts);
          desired_work_dir = truthy (agent_settings_work_dir env agent_id);
          work_dir_mismatch = (desired_work_dir \<noteq> None \<and> desired_work_dir \<noteq> map_option cwd options);
          token_differs = (truthy session_token \<noteq> None \<and> session_token \<noteq> current_resume);
          adopt = (token_differs \<and> truthy current_resume = None \<and> options \<noteq> None);
          need_rebuild = (work_dir_mismatch \<or> (token_differs \<and> \<not> adopt));
          w1 = (if adopt
                then w\<lparr>manager := (manager w)\<lparr>client_options :=
                        AList.update agent_id ((the options)\<lparr>resume := session_token\<rparr>)
                          (client_options (manager w))\<rparr>\<rparr>
                else w)
      in case map_of (clients (manager w)) agent_id of
           Some client \<Rightarrow>
             if need_rebuild
             then (let w2 = w1\<lparr>manager := snd (close_agent_client (manager w1) agent_id)\<rparr>;
                       work_dir = (case truthy (agent_settings_work_dir env agent_id) of
                                     Some custom \<Rightarrow> custom
                                   | None \<Rightarrow> default_agent_work_dir env user agent_id);
                       created = create_agent_client env w2 agent_id work_dir session_token
                   in if fst created then (map_of (clients (manager (snd created))) agent_id, snd created)
                      else (None, snd created))
             else (Some client, w1)
         | None \<Rightarrow>
             (let work_dir = (case truthy (agent_settings_work_dir env agent_id) of
                                Some custom \<Rightarrow> custom
                              | None \<Rightarrow> default_agent_work_dir env user agent_id);
                  created = create_agent_client env w agent_id work_dir session_token
              in if fst created then (map_of (clients (manager (snd created))) agent_id, snd created)
                 else (None, snd created)))"

text \<open>\<open>str.isspace\<close> on a character, for \<open>chunk.strip()\<close>.\<close>

definition py_isspace :: "char \<Rightarrow> bool" where
  "py_isspace c =
     (let n = (of_char c :: nat) in (9 \<le> n \<and> n \<le> 13) \<or> (28 \<le> n \<and> n \<le> 32) \<or> n = 133 \<or> n = 160)"

text \<open>\<open>log_progress(content, subtype)\<close>, the inner function of \<open>_process_ai_response\<close>.\<close>

definition log_progress :: "world \<Rightarrow> string \<Rightarrow> string \<Rightarrow> content \<Rightarrow> string \<Rightarrow> world" where
  "log_progress w session_id agent_id body subtype =
     save_message w session_id agent_id ''ai'' body ''text'' (Some (Subtype subtype))"

text \<open>
  The loop over the content blocks of an \<open>AssistantMessage\<close>. The state is the world, the
  text collected in \<open>ai_response\<close>, and \<open>text_logged\<close>.
\<close>

fun handle_blocks ::
    "string \<Rightarrow> string \<Rightarrow> block list \<Rightarrow> world \<times> string \<times> bool \<Rightarrow> world \<times> string \<times> bool" where
  "handle_blocks session_id agent_id [] st = st"
| "handle_blocks session_id agent_id (b # bs) (w, ai_response, text_logged) =
     handle_blocks session_id agent_id bs
       (case b of
          ThinkingBlock thinking \<Rightarrow>
            (if thinking \<noteq> [] \<and> length thinking < 500
             then log_progress w session_id agent_id (ThinkingNote (take 200 thinking)) ''thinking''
             else w, ai_response, text_logged)
        | ToolUseBlock name path \<Rightarrow>
            (log_progress w session_id agent_id
               (UsingTool (truthy (Some name))
                  (if path \<noteq> [] then Some (last (split_sep CHR ''/'' path)) else None))
               ''tool_use'',
             ai_response, text_logged)
        | ToolResultBlock name output \<Rightarrow>
            (log_progress w session_id agent_id
               (ToolDone (truthy name) (map_option (take 200) (truthy output))) ''tool_result'',
             ai_response, text_logged)
        | TextBlock chunk \<Rightarrow>
            (if \<exists>c \<in> set chunk. \<not> py_isspace c
             then log_progress w session_id agent_id (Text chunk) ''text_block'' else w,
             ai_response @ chunk,
             text_logged \<or> (\<exists>c \<in> set chunk. \<not> py_isspace c))
        | OtherBlock \<Rightarrow> (w, ai_response, text_logged))"

text \<open>The \<open>session_id\<close> attribute of a message.\<close>

fun message_session_id :: "sdk_message \<Rightarrow> string option" where
  "message_session_id (AssistantMessage sid blocks) = sid"
| "message_session_id (ResultMessage sid subtype result) = sid"
| "message_session_id (OtherMessage sid) = sid"

text \<open>
  The \<open>async for msg in client.receive_response()\<close> loop over the messages the stream
  yields. The state also carries the local \<open>session_claude_id\<close>. The first component of the
  result tells whether a \<open>ResultMessage\<close> ended the loop (\<open>break\<close>).
\<close>

fun receive_loop ::
    "string \<Rightarrow> string \<Rightarrow> sdk_message list \<Rightarrow> world \<times> string option \<times> string \<times> bool \<Rightarrow>
     bool \<times> world \<times> string option \<times> string \<times> bool" where
  "receive_loop session_id agent_id [] st = (False, st)"
| "receive_loop session_id agent_id (msg # msgs) (w, token, ai_response, text_logged) =
     (let reported = truthy (message_session_id msg);
          changed = (reported \<noteq> None \<and> reported \<noteq> token);
          w1 = (if changed then update_session_claude_id w session_id reported else w);
          token1 = (if changed then reported else token)
      in case msg of
           AssistantMessage sid blocks \<Rightarrow>
             (case handle_blocks session_id agent_id blocks (w1, ai_response, text_logged) of
                (w2, ai2, logged2) \<Rightarrow> receive_loop session_id agent_id msgs (w2, token1, ai2, logged2))
         | ResultMessage sid subtype result \<Rightarrow>
             (True,
              if (case truthy subtype of None \<Rightarrow> ''success'' | Some s \<Rightarrow> s) = ''error''
              then log_progress w1 session_id agent_id (TaskFailed result) ''error'' else w1,
              token1, ai_response, text_logged)
         | OtherMessage sid \<Rightarrow> receive_loop session_id agent_id msgs (w1, token1, ai_response, text_logged))"

text \<open>
  The body of \<open>async with lock\<close> and the summary save after it: connect if needed (its
  exception is passed over), \<open>client.query(message)\<close>, the thinking notice, the response
  loop, and the collected text when none of it was logged. The first component is
  \<open>Returns\<close>, or the exception that leaves the \<open>try\<close> block.
\<close>

definition exchange ::
    "chat_env \<Rightarrow> world \<Rightarrow> string \<Rightarrow> string \<Rightarrow> sdk_client \<Rightarrow> string \<Rightarrow> string option \<Rightarrow> outcome \<times> world" where
  "exchange env w session_id agent_id client message token =
     (let w1 = w\<lparr>manager := snd (ensure_client_connected (clock env) (manager w) agent_id)\<rparr>;
          w2 = w1\<lparr>manager := log_call agent_id (CallQuery message) (manager w1)\<rparr>
      in case query client of
           Raises e \<Rightarrow> (Raises e, w2)
         | Returns \<Rightarrow>
             (let w3 = log_progress w2 session_id agent_id DeepThinking ''thinking''
              in case receive_loop session_id agent_id (fst (receive_response client))
                        (w3, token, [], False) of
                   (broke, w4, token', ai_response, text_logged) \<Rightarrow>
                     if \<not> broke \<and> snd (receive_response client) \<noteq> Returns
                     then (snd (receive_response client), w4)
                     else (Returns,
                           if ai_response \<noteq> [] \<and> \<not> text_logged
                           then save_message w4 session_id agent_id ''ai'' (Text ai_response) ''text'' None
                           else w4)))"

text \<open>The test of the exception text in the \<open>except\<close> branch.\<close>

definition is_fatal_cli_error :: "string \<Rightarrow> bool" where
  "is_fatal_cli_error err_msg =
     (contains ''terminated process'' (py_lower err_msg) \<or>
      contains ''message reader'' (py_lower err_msg) \<or>
      contains ''exit code'' (py_lower err_msg) \<or>
      contains ''cannot write to terminated process'' (py_lower err_msg))"

text \<open>The message with the knowledge-base fragments appended, when there are any.\<close>

definition with_kb_context :: "chat_env \<Rightarrow> string \<Rightarrow> string \<Rightarrow> string" where
  "with_kb_context env user message =
     (case truthy (kb_context env user message) of
        None \<Rightarrow> message
      | Some fragments \<Rightarrow> message @ kb_header env @ fragments)"

text \<open>
  The three statements of the recovery that precede the retry: close the client, clear
  the persisted resume token, create the client anew without a token.
\<close>

definition reinitialize_agent :: "chat_env \<Rightarrow> world \<Rightarrow> string \<Rightarrow> string \<Rightarrow> string \<Rightarrow> world" where
  "reinitialize_agent env w session_id agent_id user =
     (let w1 = w\<lparr>manager := snd (close_agent_client (manager w) agent_id)\<rparr>;
          w2 = update_session_claude_id w1 session_id None
      in snd (ensure_agent_client env w2 agent_id user None))"

text \<open>
  \<open>_process_ai_response(session_id, agent_id, message, _retry)\<close>. It returns without a
  trace when the session is unknown or no client can be had. An exception of the exchange
  is caught: when this is not yet the retry and the text is one of a dead CLI process,
  the agent is reinitialized and the function calls itself once more with \<open>_retry=True\<close>
  and the message as it then is; otherwise the apology is saved as an error message.
\<close>

function process_ai_response ::
    "chat_env \<Rightarrow> world \<Rightarrow> string \<Rightarrow> string \<Rightarrow> string \<Rightarrow> bool \<Rightarrow> world" where
  "process_ai_response env w session_id agent_id message retry =
     (case map_of (chat_sessions w) session_id of
        None \<Rightarrow> w
      | Some session_info \<Rightarrow>
          (let user = session_user_id session_info;
               token = session_claude_id session_info;
               message1 = with_kb_context env user message;
               found = ensure_agent_client env w agent_id user token
           in case fst found of
                None \<Rightarrow> snd found
              | Some client \<Rightarrow>
                  (let result = exchange env (snd found) session_id agent_id client message1 token
                   in case fst result of
                        Returns \<Rightarrow> snd result
                      | Raises err_msg \<Rightarrow>
                          if \<not> retry \<and> is_fatal_cli_error err_msg
                          then process_ai_response env
                                 (reinitialize_agent env (snd result) session_id agent_id user)
                                 session_id agent_id message1 True
                          else save_message (snd result) session_id agent_id ''ai'' Apology ''text''
                                 (Some ErrorFlag))))"
  by pat_completeness auto
termination
  by (relation "measure (\<lambda>(env, w, session_id, agent_id, message, retry). if retry then 0 else 1)") auto

declare process_ai_response.simps [simp del]

text \<open>The messages given to \<open>client.query\<close> for an agent, oldest first.\<close>

fun query_texts :: "sdk_call list \<Rightarrow> string list" where
  "query_texts [] = []"
| "query_texts (CallQuery text # cs) = text # query_texts cs"
| "query_texts (c # cs) = query_texts cs"

definition queries_sent :: "world \<Rightarrow> string \<Rightarrow> string list" where
  "queries_sent w agent_id = query_texts (calls_on (manager w) agent_id)"

text \<open>The saved error messages: those with the apology and the error flag.\<close>

definition error_messages :: "world \<Rightarrow> chat_message list" where
  "error_messages w =
     filter (\<lambda>m. message_content m = Apology \<and> message_metadata m = Some ErrorFlag) (chat_messages w)"

section \<open>The port allocator: lemmas and theorems\<close>

subsection \<open>Lemmas on the table\<close>

lemma max_port_end_None: "max_port_end tbl = None \<longleftrightarrow> tbl = []"
  by (cases tbl) (auto split: option.splits)

lemma max_port_end_upper:
  "max_port_end tbl = Some m \<Longrightarrow> r \<in> set tbl \<Longrightarrow> port_end r \<le> m"
  by (induction tbl arbitrary: m) (auto simp: max_port_end_None split: option.splits)

lemma new_port_start_above:
  assumes "r \<in> set tbl"
  shows "port_end r < new_port_start cfg tbl"
proof -
  from assms have "tbl \<noteq> []" by auto
  then obtain m where m: "max_port_end tbl = Some m"
    using max_port_end_None [of tbl] by (cases "max_port_end tbl") auto
  with assms have "port_end r \<le> m" using max_port_end_upper by blast
  with m show ?thesis by (simp add: new_port_start_def coalesce_def)
qed

lemma new_port_start_floor: "USER_PORT_POOL_START cfg \<le> new_port_start cfg tbl"
  by (simp add: new_port_start_def)

lemma select_user_row_None: "select_user_row tbl uid = None \<longleftrightarrow> (\<forall>r \<in> set tbl. user_id r \<noteq> uid)"
  by (auto simp: select_user_row_def find_None_iff)

lemma select_user_row_Some:
  "select_user_row tbl uid = Some r \<Longrightarrow> r \<in> set tbl \<and> user_id r = uid"
  by (auto simp: select_user_row_def find_Some_iff)

lemma monotone_blocks_append:
  "monotone_blocks (tbl @ [n]) \<longleftrightarrow>
     monotone_blocks tbl \<and> (\<forall>r \<in> set tbl. port_end r < port_start n \<and> user_id n \<noteq> user_id r)"
  by (induction tbl) auto

lemma ensure_user_settings_cases:
  "snd (ensure_user_settings cfg tbl uid) = tbl \<or>
   (select_user_row tbl uid = None \<and>
    snd (ensure_user_settings cfg tbl uid) =
      tbl @ [\<lparr>user_id = uid, port_start = new_port_start cfg tbl, port_end = new_port_end cfg tbl,
              storage_quota_bytes = USER_DEFAULT_STORAGE_QUOTA_BYTES cfg\<rparr>])"
  by (simp add: ensure_user_settings_def Let_def split: option.splits)

lemma ensure_user_settings_monotone:
  assumes "monotone_blocks tbl"
  shows "monotone_blocks (snd (ensure_user_settings cfg tbl uid))"
proof -
  let ?n = "\<lparr>user_id = uid, port_start = new_port_start cfg tbl, port_end = new_port_end cfg tbl,
             storage_quota_bytes = USER_DEFAULT_STORAGE_QUOTA_BYTES cfg\<rparr>"
  from ensure_user_settings_cases [of cfg tbl uid]
  consider "snd (ensure_user_settings cfg tbl uid) = tbl"
    | "select_user_row tbl uid = None" "snd (ensure_user_settings cfg tbl uid) = tbl @ [?n]"
    by auto
  then show ?thesis
  proof cases
    case 1
    with assms show ?thesis by simp
  next
    case 2
    have "\<forall>r \<in> set tbl. port_end r < port_start ?n \<and> user_id ?n \<noteq> user_id r"
      using 2(1) new_port_start_above [of _ tbl cfg] by (auto simp: select_user_row_None)
    with assms 2(2) show ?thesis by (simp only: monotone_blocks_append)
  qed
qed

lemma ensure_user_settings_seq_monotone:
  "monotone_blocks tbl \<Longrightarrow> monotone_blocks (ensure_user_settings_seq cfg tbl uids)"
  by (induction uids arbitrary: tbl) (simp_all add: ensure_user_settings_monotone)

lemma ensure_user_settings_prefix: "prefix tbl (snd (ensure_user_settings cfg tbl uid))"
  using ensure_user_settings_cases [of cfg tbl uid] by auto

lemma ensure_user_settings_seq_prefix: "prefix tbl (ensure_user_settings_seq cfg tbl uids)"
proof (induction uids arbitrary: tbl)
  case Nil
  show ?case by simp
next
  case (Cons uid uids)
  have "prefix tbl (snd (ensure_user_settings cfg tbl uid))"
    by (rule ensure_user_settings_prefix)
  also have "prefix \<dots> (ensure_user_settings_seq cfg (snd (ensure_user_settings cfg tbl uid)) uids)"
    by (rule Cons.IH)
  finally show ?case by simp
qed

lemma monotone_blocks_disjoint:
  "monotone_blocks tbl \<Longrightarrow> r1 \<in> set tbl \<Longrightarrow> r2 \<in> set tbl \<Longrightarrow> user_id r1 \<noteq> user_id r2 \<Longrightarrow>
     block_ports r1 \<inter> block_ports r2 = {}"
proof (induction tbl)
  case Nil
  then show ?case by simp
next
  case (Cons r rs)
  then show ?case by (fastforce simp: block_ports_def)
qed

lemma monotone_blocks_unique_user:
  "monotone_blocks tbl \<Longrightarrow> r1 \<in> set tbl \<Longrightarrow> r2 \<in> set tbl \<Longrightarrow> user_id r1 = user_id r2 \<Longrightarrow> r1 = r2"
  by (induction tbl) auto

lemma select_user_row_prefix:
  "select_user_row tbl uid = Some r \<Longrightarrow> prefix tbl tbl' \<Longrightarrow> select_user_row tbl' uid = Some r"
proof -
  assume r: "select_user_row tbl uid = Some r" and p: "prefix tbl tbl'"
  from p obtain ext where ext: "tbl' = tbl @ ext" by (auto simp: prefix_def)
  have "find P (xs @ ys) = Some x" if "find P xs = Some x" for P and xs ys :: "user_set_row list" and x
    using that by (induction xs) (auto split: if_splits)
  with r show ?thesis unfolding select_user_row_def ext by blast
qed

lemma ensure_user_settings_seq_append:
  "ensure_user_settings_seq cfg tbl (xs @ ys) =
     ensure_user_settings_seq cfg (ensure_user_settings_seq cfg tbl xs) ys"
  by (induction xs arbitrary: tbl) simp_all

lemma select_user_row_own:
  assumes "monotone_blocks tbl" and "r \<in> set tbl"
  shows "select_user_row tbl (user_id r) = Some r"
proof (cases "select_user_row tbl (user_id r)")
  case None
  with assms(2) show ?thesis by (auto simp: select_user_row_None)
next
  case (Some q)
  then have "q \<in> set tbl" and "user_id q = user_id r"
    using select_user_row_Some by blast+
  with assms have "q = r" using monotone_blocks_unique_user by blast
  with Some show ?thesis by simp
qed

lemma ensure_user_settings_existing:
  "select_user_row tbl uid = Some r \<Longrightarrow>
     ensure_user_settings cfg tbl uid = (Inr (port_start r, port_end r), tbl)"
  by (simp add: ensure_user_settings_def)

lemma ensure_user_settings_fresh:
  "select_user_row tbl uid = None \<Longrightarrow>
     ensure_user_settings cfg tbl uid =
       (if new_port_end cfg tbl > USER_PORT_POOL_END cfg then (Inl PoolExhausted, tbl)
        else (Inr (new_port_start cfg tbl, new_port_end cfg tbl),
              tbl @ [\<lparr>user_id = uid, port_start = new_port_start cfg tbl,
                      port_end = new_port_end cfg tbl,
                      storage_quota_bytes = USER_DEFAULT_STORAGE_QUOTA_BYTES cfg\<rparr>]))"
  by (simp add: ensure_user_settings_def Let_def)

lemma select_user_row_snoc:
  "select_user_row tbl uid = None \<Longrightarrow> user_id n = uid \<Longrightarrow> select_user_row (tbl @ [n]) uid = Some n"
  unfolding select_user_row_def by (induction tbl) (auto split: if_splits)

subsection \<open>Claims on the port allocator\<close>

text \<open>
  Claim C1. Allocation is monotonic and collision-free. (1) Whenever a call of
  \<open>ensure_user_settings\<close> changes the table, it appends exactly one row for the calling
  tenant, the call returns that row's block, the block starts strictly above the end of
  every block allocated before and at or above the pool floor. (2) After any sequence of
  calls from the empty table, the blocks of two distinct tenants share no port. (3) A
  block is never reassigned: whatever calls follow, every tenant's row is still the one
  it was given, and (by 2) no later block overlaps it. (4) With the default pool floor
  20001 and block size 10 the first tenant receives (20001, 20010) and the second
  (20011, 20020).
\<close>

theorem C1_port_blocks_monotonic_disjoint:
  "(snd (ensure_user_settings cfg tbl uid) \<noteq> tbl \<longrightarrow>
      (\<exists>n. snd (ensure_user_settings cfg tbl uid) = tbl @ [n] \<and> user_id n = uid \<and>
           fst (ensure_user_settings cfg tbl uid) = Inr (port_start n, port_end n) \<and>
           (\<forall>r \<in> set tbl. port_end r < port_start n) \<and>
           USER_PORT_POOL_START cfg \<le> port_start n))
   \<and> (\<forall>r1 \<in> set (ensure_user_settings_seq cfg [] uids).
       \<forall>r2 \<in> set (ensure_user_settings_seq cfg [] uids).
         user_id r1 \<noteq> user_id r2 \<longrightarrow> block_ports r1 \<inter> block_ports r2 = {})
   \<and> (\<forall>r \<in> set (ensure_user_settings_seq cfg [] uids).
         select_user_row (ensure_user_settings_seq cfg (ensure_user_settings_seq cfg [] uids) later)
           (user_id r) = Some r)
   \<and> fst (ensure_user_settings default_config [] ''u1'') = Inr (20001, 20010)
   \<and> fst (ensure_user_settings default_config
             (snd (ensure_user_settings default_config [] ''u1'')) ''u2'') = Inr (20011, 20020)"
proof -
  let ?T = "ensure_user_settings_seq cfg [] uids"
  have inv: "monotone_blocks ?T"
    by (rule ensure_user_settings_seq_monotone) simp
  have step: "snd (ensure_user_settings cfg tbl uid) \<noteq> tbl \<longrightarrow>
      (\<exists>n. snd (ensure_user_settings cfg tbl uid) = tbl @ [n] \<and> user_id n = uid \<and>
           fst (ensure_user_settings cfg tbl uid) = Inr (port_start n, port_end n) \<and>
           (\<forall>r \<in> set tbl. port_end r < port_start n) \<and>
           USER_PORT_POOL_START cfg \<le> port_start n)"
  proof
    assume changed: "snd (ensure_user_settings cfg tbl uid) \<noteq> tbl"
    then have none: "select_user_row tbl uid = None"
      using ensure_user_settings_cases [of cfg tbl uid] by blast
    from changed none have ok: "\<not> new_port_end cfg tbl > USER_PORT_POOL_END cfg"
      by (auto simp: ensure_user_settings_fresh)
    let ?n = "\<lparr>user_id = uid, port_start = new_port_start cfg tbl, port_end = new_port_end cfg tbl,
               storage_quota_bytes = USER_DEFAULT_STORAGE_QUOTA_BYTES cfg\<rparr>"
    from none ok have "ensure_user_settings cfg tbl uid =
        (Inr (new_port_start cfg tbl, new_port_end cfg tbl), tbl @ [?n])"
      by (simp add: ensure_user_settings_fresh)
    moreover have "\<forall>r \<in> set tbl. port_end r < port_start ?n"
      by (simp add: new_port_start_above)
    moreover have "USER_PORT_POOL_START cfg \<le> port_start ?n"
      by (simp add: new_port_start_floor)
    ultimately show "\<exists>n. snd (ensure_user_settings cfg tbl uid) = tbl @ [n] \<and> user_id n = uid \<and>
           fst (ensure_user_settings cfg tbl uid) = Inr (port_start n, port_end n) \<and>
           (\<forall>r \<in> set tbl. port_end r < port_start n) \<and>
           USER_PORT_POOL_START cfg \<le> port_start n"
      by (intro exI [of _ ?n]) simp
  qed
  have disj: "\<forall>r1 \<in> set ?T. \<forall>r2 \<in> set ?T.
      user_id r1 \<noteq> user_id r2 \<longrightarrow> block_ports r1 \<inter> block_ports r2 = {}"
    using inv monotone_blocks_disjoint by blast
  have keep: "\<forall>r \<in> set ?T. select_user_row (ensure_user_settings_seq cfg ?T later) (user_id r) = Some r"
  proof
    fix r assume "r \<in> set ?T"
    with inv have "select_user_row ?T (user_id r) = Some r" by (rule select_user_row_own)
    then show "select_user_row (ensure_user_settings_seq cfg ?T later) (user_id r) = Some r"
      using ensure_user_settings_seq_prefix by (rule select_user_row_prefix)
  qed
  have u1: "fst (ensure_user_settings default_config [] ''u1'') = Inr (20001, 20010)"
    by (simp add: ensure_user_settings_def select_user_row_def new_port_start_def new_port_end_def
        coalesce_def default_config_def)
  have u2: "fst (ensure_user_settings default_config
             (snd (ensure_user_settings default_config [] ''u1'')) ''u2'') = Inr (20011, 20020)"
    by (simp add: ensure_user_settings_def select_user_row_def new_port_start_def new_port_end_def
        coalesce_def default_config_def)
  from step disj keep u1 u2 show ?thesis by blast
qed

text \<open>
  The theorem at the default configuration: two logins from the empty table, then a
  repeated login of the first tenant and a third tenant.
\<close>

theorem C1_port_blocks_witness:
  "ensure_user_settings_seq default_config [] [''u1'', ''u2''] =
     [\<lparr>user_id = ''u1'', port_start = 20001, port_end = 20010, storage_quota_bytes = 1073741824\<rparr>,
      \<lparr>user_id = ''u2'', port_start = 20011, port_end = 20020, storage_quota_bytes = 1073741824\<rparr>]
   \<and> block_ports \<lparr>user_id = ''u1'', port_start = 20001, port_end = 20010, storage_quota_bytes = 1073741824\<rparr>
       \<inter> block_ports \<lparr>user_id = ''u2'', port_start = 20011, port_end = 20020, storage_quota_bytes = 1073741824\<rparr> = {}
   \<and> select_user_row
        (ensure_user_settings_seq default_config
           (ensure_user_settings_seq default_config [] [''u1'', ''u2'']) [''u1'', ''u3''])
        ''u1''
       = Some \<lparr>user_id = ''u1'', port_start = 20001, port_end = 20010, storage_quota_bytes = 1073741824\<rparr>
   \<and> snd (ensure_user_settings default_config [] ''u1'') \<noteq> []"
proof -
  have seq: "ensure_user_settings_seq default_config [] [''u1'', ''u2''] =
     [\<lparr>user_id = ''u1'', port_start = 20001, port_end = 20010, storage_quota_bytes = 1073741824\<rparr>,
      \<lparr>user_id = ''u2'', port_start = 20011, port_end = 20020, storage_quota_bytes = 1073741824\<rparr>]"
    by (simp add: ensure_user_settings_def select_user_row_def new_port_start_def new_port_end_def
        coalesce_def default_config_def)
  have changed: "snd (ensure_user_settings default_config [] ''u1'') \<noteq> []"
    by (simp add: ensure_user_settings_def select_user_row_def new_port_start_def new_port_end_def
        coalesce_def default_config_def)
  show ?thesis
    using C1_port_blocks_monotonic_disjoint
      [of default_config "[]" "''u1''" "[''u1'', ''u2'']" "[''u1'', ''u3'']"] changed
    unfolding seq by simp
qed

text \<open>
  Claim C5. The call fails with the pool-exhausted error exactly when the tenant has no
  row yet and the end of the newly computed block lies above the pool ceiling. On that
  failure the table is unchanged (the transaction is rolled back), and the failure
  touches nobody else: every tenant that has a row is still served afterwards.
\<close>

theorem C5_pool_exhausted_iff:
  "(fst (ensure_user_settings cfg tbl uid) = Inl PoolExhausted \<longleftrightarrow>
      select_user_row tbl uid = None \<and> new_port_end cfg tbl > USER_PORT_POOL_END cfg)
   \<and> (fst (ensure_user_settings cfg tbl uid) = Inl PoolExhausted \<longrightarrow>
        snd (ensure_user_settings cfg tbl uid) = tbl \<and>
        (\<forall>r \<in> set tbl.
           \<exists>b. fst (ensure_user_settings cfg (snd (ensure_user_settings cfg tbl uid)) (user_id r)) = Inr b))"
proof -
  have iff: "fst (ensure_user_settings cfg tbl uid) = Inl PoolExhausted \<longleftrightarrow>
      select_user_row tbl uid = None \<and> new_port_end cfg tbl > USER_PORT_POOL_END cfg"
    by (cases "select_user_row tbl uid")
       (simp_all add: ensure_user_settings_fresh ensure_user_settings_existing)
  have served: "\<exists>b. fst (ensure_user_settings cfg tbl (user_id r)) = Inr b" if "r \<in> set tbl" for r
  proof (cases "select_user_row tbl (user_id r)")
    case None
    with that show ?thesis by (auto simp: select_user_row_None)
  next
    case (Some q)
    then show ?thesis by (simp add: ensure_user_settings_existing)
  qed
  have unchanged: "snd (ensure_user_settings cfg tbl uid) = tbl"
    if "fst (ensure_user_settings cfg tbl uid) = Inl PoolExhausted"
    using that iff by (simp add: ensure_user_settings_fresh)
  from iff served unchanged show ?thesis by auto
qed

text \<open>
  The theorem on a pool of fifteen ports and blocks of ten: the first tenant gets
  (20001, 20010), the second exhausts the pool, and the first is still served.
\<close>

theorem C5_pool_exhausted_witness:
  "ensure_user_settings
     \<lparr>USER_PORT_POOL_START = 20001, USER_PORT_POOL_END = 20015, USER_PORT_BLOCK_SIZE = 10,
      USER_DEFAULT_STORAGE_QUOTA_BYTES = 0\<rparr>
     [\<lparr>user_id = ''u1'', port_start = 20001, port_end = 20010, storage_quota_bytes = 0\<rparr>] ''u2''
    = (Inl PoolExhausted,
       [\<lparr>user_id = ''u1'', port_start = 20001, port_end = 20010, storage_quota_bytes = 0\<rparr>])
   \<and> (\<exists>b. fst (ensure_user_settings
       \<lparr>USER_PORT_POOL_START = 20001, USER_PORT_POOL_END = 20015, USER_PORT_BLOCK_SIZE = 10,
        USER_DEFAULT_STORAGE_QUOTA_BYTES = 0\<rparr>
       [\<lparr>user_id = ''u1'', port_start = 20001, port_end = 20010, storage_quota_bytes = 0\<rparr>] ''u1'')
      = Inr b)"
proof -
  let ?cfg = "\<lparr>USER_PORT_POOL_START = 20001, USER_PORT_POOL_END = 20015, USER_PORT_BLOCK_SIZE = 10,
      USER_DEFAULT_STORAGE_QUOTA_BYTES = 0\<rparr>"
  let ?tbl = "[\<lparr>user_id = ''u1'', port_start = 20001, port_end = 20010, storage_quota_bytes = 0\<rparr>]"
  have none: "select_user_row ?tbl ''u2'' = None"
    by (simp add: select_user_row_def)
  have over: "new_port_end ?cfg ?tbl > USER_PORT_POOL_END ?cfg"
    by (simp add: new_port_end_def new_port_start_def coalesce_def)
  from C5_pool_exhausted_iff [of ?cfg ?tbl "''u2''"] none over
  have fails: "fst (ensure_user_settings ?cfg ?tbl ''u2'') = Inl PoolExhausted"
    and rest: "snd (ensure_user_settings ?cfg ?tbl ''u2'') = ?tbl \<and>
        (\<forall>r \<in> set ?tbl.
           \<exists>b. fst (ensure_user_settings ?cfg (snd (ensure_user_settings ?cfg ?tbl ''u2'')) (user_id r)) = Inr b)"
    by blast+
  from fails rest have "ensure_user_settings ?cfg ?tbl ''u2'' = (Inl PoolExhausted, ?tbl)"
    by (simp add: prod_eq_iff)
  moreover have "\<exists>b. fst (ensure_user_settings ?cfg ?tbl ''u1'') = Inr b"
  proof -
    from rest have s: "snd (ensure_user_settings ?cfg ?tbl ''u2'') = ?tbl"
      by (rule conjunct1)
    from rest have "\<forall>r \<in> set ?tbl.
        \<exists>b. fst (ensure_user_settings ?cfg (snd (ensure_user_settings ?cfg ?tbl ''u2'')) (user_id r)) = Inr b"
      by (rule conjunct2)
    then have "\<forall>r \<in> set ?tbl. \<exists>b. fst (ensure_user_settings ?cfg ?tbl (user_id r)) = Inr b"
      by (simp only: s)
    then show ?thesis by simp
  qed
  ultimately show ?thesis by blast
qed

text \<open>
  Claim C6. \<open>ensure_user_settings\<close> is idempotent per tenant. For a tenant that has a row,
  the call returns exactly that row's \<open>(port_start, port_end)\<close> and leaves the table as it
  was, so any number of repeated calls leaves it as it was; and a call that has just
  allocated a block is followed by calls that return the same block and insert nothing.
\<close>

theorem C6_ensure_user_settings_idempotent:
  "(select_user_row tbl uid = Some r \<longrightarrow>
      ensure_user_settings cfg tbl uid = (Inr (port_start r, port_end r), tbl) \<and>
      ensure_user_settings_seq cfg tbl (replicate k uid) = tbl)
   \<and> (fst (ensure_user_settings cfg tbl uid) = Inr b \<longrightarrow>
        ensure_user_settings cfg (snd (ensure_user_settings cfg tbl uid)) uid =
          (Inr b, snd (ensure_user_settings cfg tbl uid)))"
proof -
  have one: "ensure_user_settings cfg tbl uid = (Inr (port_start r, port_end r), tbl)"
    if "select_user_row tbl uid = Some r"
    using that by (rule ensure_user_settings_existing)
  have many: "ensure_user_settings_seq cfg tbl (replicate k uid) = tbl"
    if "select_user_row tbl uid = Some r"
    using that by (induction k) (simp_all add: ensure_user_settings_existing)
  have again: "ensure_user_settings cfg (snd (ensure_user_settings cfg tbl uid)) uid =
          (Inr b, snd (ensure_user_settings cfg tbl uid))"
    if ok: "fst (ensure_user_settings cfg tbl uid) = Inr b"
  proof (cases "select_user_row tbl uid")
    case (Some q)
    with ok show ?thesis by (simp add: ensure_user_settings_existing)
  next
    case None
    let ?n = "\<lparr>user_id = uid, port_start = new_port_start cfg tbl, port_end = new_port_end cfg tbl,
               storage_quota_bytes = USER_DEFAULT_STORAGE_QUOTA_BYTES cfg\<rparr>"
    from None ok have fits: "\<not> new_port_end cfg tbl > USER_PORT_POOL_END cfg"
      by (auto simp: ensure_user_settings_fresh)
    with None have first: "ensure_user_settings cfg tbl uid =
        (Inr (new_port_start cfg tbl, new_port_end cfg tbl), tbl @ [?n])"
      by (simp add: ensure_user_settings_fresh)
    from None have "select_user_row (tbl @ [?n]) uid = Some ?n"
      by (rule select_user_row_snoc) simp
    then have "ensure_user_settings cfg (tbl @ [?n]) uid =
        (Inr (port_start ?n, port_end ?n), tbl @ [?n])"
      by (rule ensure_user_settings_existing)
    with first ok show ?thesis by simp
  qed
  from one many again show ?thesis by blast
qed

text \<open>
  The theorem on a table of two tenants: three more logins of the first change nothing,
  and a tenant that has just been given (20021, 20030) is given it again.
\<close>

theorem C6_ensure_user_settings_idempotent_witness:
  "ensure_user_settings default_config
     [\<lparr>user_id = ''u1'', port_start = 20001, port_end = 20010, storage_quota_bytes = 0\<rparr>,
      \<lparr>user_id = ''u2'', port_start = 20011, port_end = 20020, storage_quota_bytes = 0\<rparr>] ''u1''
    = (Inr (20001, 20010),
       [\<lparr>user_id = ''u1'', port_start = 20001, port_end = 20010, storage_quota_bytes = 0\<rparr>,
        \<lparr>user_id = ''u2'', port_start = 20011, port_end = 20020, storage_quota_bytes = 0\<rparr>])
   \<and> ensure_user_settings_seq default_config
       [\<lparr>user_id = ''u1'', port_start = 20001, port_end = 20010, storage_quota_bytes = 0\<rparr>,
        \<lparr>user_id = ''u2'', port_start = 20011, port_end = 20020, storage_quota_bytes = 0\<rparr>]
       (replicate 3 ''u1'')
     = [\<lparr>user_id = ''u1'', port_start = 20001, port_end = 20010, storage_quota_bytes = 0\<rparr>,
        \<lparr>user_id = ''u2'', port_start = 20011, port_end = 20020, storage_quota_bytes = 0\<rparr>]
   \<and> fst (ensure_user_settings default_config
        (snd (ensure_user_settings default_config
          [\<lparr>user_id = ''u1'', port_start = 20001, port_end = 20010, storage_quota_bytes = 0\<rparr>,
           \<lparr>user_id = ''u2'', port_start = 20011, port_end = 20020, storage_quota_bytes = 0\<rparr>] ''u3''))
        ''u3'') = Inr (20021, 20030)"
proof -
  let ?r1 = "\<lparr>user_id = ''u1'', port_start = 20001, port_end = 20010, storage_quota_bytes = 0\<rparr>"
  let ?tbl = "[?r1, \<lparr>user_id = ''u2'', port_start = 20011, port_end = 20020, storage_quota_bytes = 0\<rparr>]"
  have sel: "select_user_row ?tbl ''u1'' = Some ?r1"
    by (simp add: select_user_row_def)
  have new: "fst (ensure_user_settings default_config ?tbl ''u3'') = Inr (20021, 20030)"
    by (simp add: ensure_user_settings_def select_user_row_def new_port_start_def new_port_end_def
        coalesce_def default_config_def)
  from C6_ensure_user_settings_idempotent [of ?tbl "''u1''" ?r1 default_config 3 "(20001, 20010)"] sel
  have a: "ensure_user_settings default_config ?tbl ''u1'' = (Inr (20001, 20010), ?tbl)"
    and b: "ensure_user_settings_seq default_config ?tbl (replicate 3 ''u1'') = ?tbl"
    by simp_all
  from C6_ensure_user_settings_idempotent [of ?tbl "''u3''" ?r1 default_config 0 "(20021, 20030)"] new
  have c: "fst (ensure_user_settings default_config
        (snd (ensure_user_settings default_config ?tbl ''u3'')) ''u3'') = Inr (20021, 20030)"
    by simp
  from a b c show ?thesis by blast
qed

section \<open>The session registry and the idle reaper: lemmas and theorems\<close>

lemma registry_entry_log_call [simp]: "registry_entry (log_call a c m) x = registry_entry m x"
  by (simp add: registry_entry_def log_call_def)

lemma registry_entry_force_kill [simp]:
  "registry_entry (force_kill_cli_process client a m) x = registry_entry m x"
  by (simp add: force_kill_cli_process_def Let_def split: option.splits outcome.splits)

lemma calls_on_log_call:
  "calls_on (log_call a c m) x = (if x = a then calls_on m x @ [c] else calls_on m x)"
  by (simp add: calls_on_def log_call_def)

lemma calls_on_force_kill_other:
  "x \<noteq> a \<Longrightarrow> calls_on (force_kill_cli_process client a m) x = calls_on m x"
  by (simp add: force_kill_cli_process_def Let_def calls_on_log_call
      split: option.splits outcome.splits)

lemma calls_on_force_kill_same:
  "\<exists>new. calls_on (force_kill_cli_process client a m) a = calls_on m a @ new"
  by (simp add: force_kill_cli_process_def Let_def calls_on_log_call
      split: option.splits outcome.splits)

lemma close_agent_client_unregistered:
  "map_of (clients m) a = None \<Longrightarrow> close_agent_client m a = (False, m)"
  by (simp add: close_agent_client_def)

lemma dicts_log_call [simp]:
  "clients (log_call a c m) = clients m"
  "client_options (log_call a c m) = client_options m"
  "client_connected (log_call a c m) = client_connected m"
  "agent_last_active (log_call a c m) = agent_last_active m"
  by (simp_all add: log_call_def)

lemma dicts_force_kill [simp]:
  "clients (force_kill_cli_process client a m) = clients m"
  "client_options (force_kill_cli_process client a m) = client_options m"
  "client_connected (force_kill_cli_process client a m) = client_connected m"
  "agent_last_active (force_kill_cli_process client a m) = agent_last_active m"
  by (simp_all add: force_kill_cli_process_def Let_def split: option.splits outcome.splits)

lemma calls_on_cong: "calls m' = calls m \<Longrightarrow> calls_on m' x = calls_on m x"
  by (simp add: calls_on_def)

lemma close_agent_client_registered:
  "map_of (clients m) a = Some client \<Longrightarrow>
   close_agent_client m a =
     (True, (force_kill_cli_process client a
        (case close client of None \<Rightarrow> log_call a CallDisconnect m
         | Some r \<Rightarrow> log_call a CallClose (log_call a CallDisconnect m)))
       \<lparr>clients := AList.delete a (clients m),
        client_options := AList.delete a (client_options m),
        client_connected := AList.delete a (client_connected m),
        agent_last_active := AList.delete a (agent_last_active m)\<rparr>)"
  by (cases "close client") (simp_all add: close_agent_client_def Let_def)

lemma close_agent_client_entry:
  "registry_entry (snd (close_agent_client m a)) x =
     (if x = a \<and> map_of (clients m) a \<noteq> None then (None, None, None, None)
      else registry_entry m x)"
proof (cases "map_of (clients m) a")
  case None
  then show ?thesis by (simp add: close_agent_client_unregistered)
next
  case (Some client)
  show ?thesis
    using Some by (simp add: close_agent_client_registered [OF Some] registry_entry_def delete_conv')
qed

lemma close_agent_client_calls_other:
  assumes "x \<noteq> a"
  shows "calls_on (snd (close_agent_client m a)) x = calls_on m x"
proof (cases "map_of (clients m) a")
  case None
  then show ?thesis by (simp add: close_agent_client_unregistered)
next
  case (Some client)
  let ?m2 = "case close client of None \<Rightarrow> log_call a CallDisconnect m
       | Some r \<Rightarrow> log_call a CallClose (log_call a CallDisconnect m)"
  have "calls_on (snd (close_agent_client m a)) x = calls_on (force_kill_cli_process client a ?m2) x"
    unfolding close_agent_client_registered [OF Some] by (rule calls_on_cong) simp
  also have "\<dots> = calls_on ?m2 x"
    using assms by (rule calls_on_force_kill_other)
  also have "\<dots> = calls_on m x"
    using assms by (cases "close client") (simp_all add: calls_on_log_call)
  finally show ?thesis .
qed

lemma close_agent_client_calls_same:
  assumes "map_of (clients m) a \<noteq> None"
  shows "\<exists>new. calls_on (snd (close_agent_client m a)) a = calls_on m a @ CallDisconnect # new"
proof -
  from assms obtain client where c: "map_of (clients m) a = Some client" by blast
  let ?m2 = "case close client of None \<Rightarrow> log_call a CallDisconnect m
       | Some r \<Rightarrow> log_call a CallClose (log_call a CallDisconnect m)"
  have two: "\<exists>new. calls_on ?m2 a = calls_on m a @ CallDisconnect # new"
    by (cases "close client") (simp_all add: calls_on_log_call)
  obtain new3 where three: "calls_on (force_kill_cli_process client a ?m2) a = calls_on ?m2 a @ new3"
    using calls_on_force_kill_same by blast
  have "calls_on (snd (close_agent_client m a)) a = calls_on (force_kill_cli_process client a ?m2) a"
    unfolding close_agent_client_registered [OF c] by (rule calls_on_cong) simp
  with two three show ?thesis by auto
qed

text \<open>An agent whose idle time is above the threshold, as the sweep tests it.\<close>

lemma idle_sweep_entry:
  "registry_entry (fst (idle_sweep now thr as (m, n))) x =
     (if x \<in> set as \<and> map_of (clients m) x \<noteq> None \<and>
         (\<exists>la. map_of (agent_last_active m) x = Some la \<and> now - la > thr)
      then (None, None, None, None) else registry_entry m x)"
proof (induction as arbitrary: m n)
  case Nil
  show ?case by simp
next
  case (Cons a as)
  show ?case
  proof (cases "map_of (agent_last_active m) a")
    case None
    then show ?thesis by (auto simp: Cons.IH)
  next
    case (Some la)
    show ?thesis
    proof (cases "now - la > thr")
      case False
      with Some show ?thesis by (auto simp: Cons.IH)
    next
      case True
      let ?m1 = "snd (close_agent_client m a)"
      have step: "idle_sweep now thr (a # as) (m, n) = idle_sweep now thr as (?m1, n + 1)"
        using Some True by simp
      have e1: "registry_entry ?m1 y =
          (if y = a \<and> map_of (clients m) a \<noteq> None then (None, None, None, None)
           else registry_entry m y)" for y
        by (rule close_agent_client_entry)
      show ?thesis
      proof (cases "map_of (clients m) a")
        case None
        then have "?m1 = m" by (simp add: close_agent_client_unregistered)
        with None show ?thesis unfolding step by (auto simp: Cons.IH)
      next
        case (Some client)
        have other: "map_of (clients ?m1) y = map_of (clients m) y \<and>
            map_of (agent_last_active ?m1) y = map_of (agent_last_active m) y" if "y \<noteq> a" for y
          using e1 [of y] that by (simp add: registry_entry_def)
        have gone: "map_of (clients ?m1) a = None \<and> map_of (agent_last_active ?m1) a = None"
          using e1 [of a] Some by (simp add: registry_entry_def)
        show ?thesis
        proof (cases "x = a")
          case True
          with gone Some \<open>map_of (agent_last_active m) a = Some la\<close> \<open>now - la > thr\<close> e1 [of a]
            Cons.IH [of ?m1 "n + 1"]
          show ?thesis unfolding step by simp
        next
          case False
          with other [of x] e1 [of x] Cons.IH [of ?m1 "n + 1"]
          show ?thesis unfolding step by (cases "map_of (clients m) x") auto
        qed
      qed
    qed
  qed
qed

lemma idle_sweep_calls_untouched:
  "\<not> (x \<in> set as \<and> map_of (clients m) x \<noteq> None \<and>
       (\<exists>la. map_of (agent_last_active m) x = Some la \<and> now - la > thr)) \<Longrightarrow>
   calls_on (fst (idle_sweep now thr as (m, n))) x = calls_on m x"
proof (induction as arbitrary: m n)
  case Nil
  show ?case by simp
next
  case (Cons a as)
  show ?case
  proof (cases "\<exists>la. map_of (agent_last_active m) a = Some la \<and> now - la > thr")
    case False
    then have "idle_sweep now thr (a # as) (m, n) = idle_sweep now thr as (m, n)"
      by (auto split: option.splits)
    with Cons show ?thesis by auto
  next
    case True
    then obtain la where la: "map_of (agent_last_active m) a = Some la" "now - la > thr" by blast
    let ?m1 = "snd (close_agent_client m a)"
    have step: "idle_sweep now thr (a # as) (m, n) = idle_sweep now thr as (?m1, n + 1)"
      using la by simp
    have e1: "registry_entry ?m1 y =
        (if y = a \<and> map_of (clients m) a \<noteq> None then (None, None, None, None)
         else registry_entry m y)" for y
      by (rule close_agent_client_entry)
    show ?thesis
    proof (cases "x = a")
      case True
      with Cons.prems la have unreg: "map_of (clients m) a = None" by auto
      then have "?m1 = m" by (simp add: close_agent_client_unregistered)
      with Cons.IH [of m "n + 1"] True unreg show ?thesis unfolding step by simp
    next
      case False
      then have same: "map_of (clients ?m1) x = map_of (clients m) x"
          "map_of (agent_last_active ?m1) x = map_of (agent_last_active m) x"
        using e1 [of x] by (simp_all add: registry_entry_def)
      from False have c: "calls_on ?m1 x = calls_on m x"
        by (rule close_agent_client_calls_other)
      from Cons.prems False same
      have "\<not> (x \<in> set as \<and> map_of (clients ?m1) x \<noteq> None \<and>
           (\<exists>la. map_of (agent_last_active ?m1) x = Some la \<and> now - la > thr))"
        by auto
      then have "calls_on (fst (idle_sweep now thr as (?m1, n + 1))) x = calls_on ?m1 x"
        by (rule Cons.IH)
      with c show ?thesis unfolding step by simp
    qed
  qed
qed

lemma idle_sweep_calls_closed:
  "x \<in> set as \<Longrightarrow> map_of (clients m) x \<noteq> None \<Longrightarrow>
   map_of (agent_last_active m) x = Some la \<Longrightarrow> now - la > thr \<Longrightarrow>
   \<exists>new. calls_on (fst (idle_sweep now thr as (m, n))) x = calls_on m x @ CallDisconnect # new"
proof (induction as arbitrary: m n)
  case Nil
  then show ?case by simp
next
  case (Cons a as)
  have e1: "registry_entry (snd (close_agent_client m a)) y =
      (if y = a \<and> map_of (clients m) a \<noteq> None then (None, None, None, None)
       else registry_entry m y)" for y
    by (rule close_agent_client_entry)
  show ?case
  proof (cases "x = a")
    case True
    let ?m1 = "snd (close_agent_client m a)"
    have step: "idle_sweep now thr (a # as) (m, n) = idle_sweep now thr as (?m1, n + 1)"
      using Cons.prems True by simp
    from Cons.prems True obtain new where
      new: "calls_on ?m1 x = calls_on m x @ CallDisconnect # new"
      using close_agent_client_calls_same [of m a] by auto
    from e1 [of a] Cons.prems True have "map_of (clients ?m1) x = None"
      by (simp add: registry_entry_def)
    then have "calls_on (fst (idle_sweep now thr as (?m1, n + 1))) x = calls_on ?m1 x"
      by (intro idle_sweep_calls_untouched) simp
    with new show ?thesis unfolding step by simp
  next
    case False
    with Cons.prems have x: "x \<in> set as" by simp
    show ?thesis
    proof (cases "\<exists>l. map_of (agent_last_active m) a = Some l \<and> now - l > thr")
      case False
      then have "idle_sweep now thr (a # as) (m, n) = idle_sweep now thr as (m, n)"
        by (auto split: option.splits)
      with Cons.IH [OF x Cons.prems(2-4)] show ?thesis by simp
    next
      case True
      let ?m1 = "snd (close_agent_client m a)"
      have step: "idle_sweep now thr (a # as) (m, n) = idle_sweep now thr as (?m1, n + 1)"
        using True by auto
      from \<open>x \<noteq> a\<close> e1 [of x] Cons.prems
      have same: "map_of (clients ?m1) x \<noteq> None" "map_of (agent_last_active ?m1) x = Some la"
        by (simp_all add: registry_entry_def)
      from \<open>x \<noteq> a\<close> have c: "calls_on ?m1 x = calls_on m x"
        by (rule close_agent_client_calls_other)
      from Cons.IH [OF x same Cons.prems(4), of "n + 1"] c show ?thesis unfolding step by simp
    qed
  qed
qed

lemma idle_cleanup_tick_expired:
  assumes "map_of (clients m) a \<noteq> None" and "map_of (agent_last_active m) a = Some la"
    and "now - la > timedelta_seconds timeout_seconds"
  shows "registry_entry (fst (idle_cleanup_tick timeout_seconds now m)) a = (None, None, None, None)"
    and "\<exists>new. calls_on (fst (idle_cleanup_tick timeout_seconds now m)) a =
           calls_on m a @ CallDisconnect # new"
proof -
  from assms(1) have key: "a \<in> set (map fst (clients m))"
    by (simp add: map_of_eq_None_iff)
  from key assms show "registry_entry (fst (idle_cleanup_tick timeout_seconds now m)) a =
      (None, None, None, None)"
    unfolding idle_cleanup_tick_def by (simp only: idle_sweep_entry) auto
  from key assms show "\<exists>new. calls_on (fst (idle_cleanup_tick timeout_seconds now m)) a =
      calls_on m a @ CallDisconnect # new"
    unfolding idle_cleanup_tick_def by (rule idle_sweep_calls_closed)
qed

lemma idle_cleanup_tick_active:
  assumes "map_of (agent_last_active m) b = Some lb"
    and "now - lb \<le> timedelta_seconds timeout_seconds"
  shows "registry_entry (fst (idle_cleanup_tick timeout_seconds now m)) b = registry_entry m b"
    and "calls_on (fst (idle_cleanup_tick timeout_seconds now m)) b = calls_on m b"
proof -
  from assms have no: "\<not> (\<exists>la. map_of (agent_last_active m) b = Some la \<and>
      now - la > timedelta_seconds timeout_seconds)"
    by auto
  then show "registry_entry (fst (idle_cleanup_tick timeout_seconds now m)) b = registry_entry m b"
    unfolding idle_cleanup_tick_def by (simp only: idle_sweep_entry) auto
  from no show "calls_on (fst (idle_cleanup_tick timeout_seconds now m)) b = calls_on m b"
    unfolding idle_cleanup_tick_def by (intro idle_sweep_calls_untouched) blast
qed

subsection \<open>Claims on the registry and the reaper\<close>

text \<open>
  Claim C7. On a reaper tick, every registered session whose idle time \<open>now - last_active\<close>
  is greater than the configured timeout is closed: it is gone from all four dictionaries
  of the registry, and its teardown was started (\<open>disconnect()\<close> was called on its client).
  A session whose idle time is within the timeout is not closed: its registry entries are
  what they were and no call was made on its client. Nothing is assumed about what
  \<open>disconnect()\<close>, \<open>close()\<close>, \<open>terminate()\<close> or \<open>wait()\<close> do on any client, so a failure while
  closing one session does not keep the sweep from the others.
\<close>

theorem C7_idle_reaper_tick:
  "(map_of (clients m) a \<noteq> None \<and> map_of (agent_last_active m) a = Some la \<and>
      now - la > timedelta_seconds timeout_seconds \<longrightarrow>
        registry_entry (fst (idle_cleanup_tick timeout_seconds now m)) a = (None, None, None, None) \<and>
        (\<exists>new. calls_on (fst (idle_cleanup_tick timeout_seconds now m)) a =
           calls_on m a @ CallDisconnect # new))
   \<and> (map_of (agent_last_active m) b = Some lb \<and> now - lb \<le> timedelta_seconds timeout_seconds \<longrightarrow>
        registry_entry (fst (idle_cleanup_tick timeout_seconds now m)) b = registry_entry m b \<and>
        calls_on (fst (idle_cleanup_tick timeout_seconds now m)) b = calls_on m b)"
  using idle_cleanup_tick_expired [where m = m and a = a and la = la and now = now]
    idle_cleanup_tick_active [where m = m and b = b and lb = lb and now = now]
  by blast

text \<open>
  The theorem on a registry of three sessions, at time 2000 s with a timeout of 1200 s:
  \<open>a1\<close> (idle 2000 s) has a client on which \<open>disconnect()\<close>, \<open>close()\<close> and \<open>wait()\<close> all raise,
  \<open>a2\<close> was active 500 s ago, \<open>a3\<close> is idle since 100 s. Both \<open>a1\<close> and \<open>a3\<close> are closed,
  \<open>a2\<close> is untouched.
\<close>

theorem C7_idle_reaper_tick_witness:
  "registry_entry (fst (idle_cleanup_tick 1200 2000000000
      \<lparr>clients =
         [(''a1'', \<lparr>connect = Returns, disconnect = Raises ''boom'', close = Some (Raises ''boom''),
                    process = Some \<lparr>returncode = None, terminate = Raises ''boom'', wait = Raises ''boom''\<rparr>,
                    query = Returns, receive_response = ([], Returns)\<rparr>),
          (''a2'', \<lparr>connect = Returns, disconnect = Returns, close = None, process = None,
                    query = Returns, receive_response = ([], Returns)\<rparr>),
          (''a3'', \<lparr>connect = Returns, disconnect = Returns, close = None, process = None,
                    query = Returns, receive_response = ([], Returns)\<rparr>)],
       client_options = [], client_connected = [(''a1'', True), (''a2'', True), (''a3'', False)],
       agent_last_active = [(''a1'', 0), (''a2'', 1500000000), (''a3'', 100000000)],
       calls = []\<rparr>)) ''a1'' = (None, None, None, None)
   \<and> registry_entry (fst (idle_cleanup_tick 1200 2000000000
      \<lparr>clients =
         [(''a1'', \<lparr>connect = Returns, disconnect = Raises ''boom'', close = Some (Raises ''boom''),
                    process = Some \<lparr>returncode = None, terminate = Raises ''boom'', wait = Raises ''boom''\<rparr>,
                    query = Returns, receive_response = ([], Returns)\<rparr>),
          (''a2'', \<lparr>connect = Returns, disconnect = Returns, close = None, process = None,
                    query = Returns, receive_response = ([], Returns)\<rparr>),
          (''a3'', \<lparr>connect = Returns, disconnect = Returns, close = None, process = None,
                    query = Returns, receive_response = ([], Returns)\<rparr>)],
       client_options = [], client_connected = [(''a1'', True), (''a2'', True), (''a3'', False)],
       agent_last_active = [(''a1'', 0), (''a2'', 1500000000), (''a3'', 100000000)],
       calls = []\<rparr>)) ''a3'' = (None, None, None, None)
   \<and> registry_entry (fst (idle_cleanup_tick 1200 2000000000
      \<lparr>clients =
         [(''a1'', \<lparr>connect = Returns, disconnect = Raises ''boom'', close = Some (Raises ''boom''),
                    process = Some \<lparr>returncode = None, terminate = Raises ''boom'', wait = Raises ''boom''\<rparr>,
                    query = Returns, receive_response = ([], Returns)\<rparr>),
          (''a2'', \<lparr>connect = Returns, disconnect = Returns, close = None, process = None,
                    query = Returns, receive_response = ([], Returns)\<rparr>),
          (''a3'', \<lparr>connect = Returns, disconnect = Returns, close = None, process = None,
                    query = Returns, receive_response = ([], Returns)\<rparr>)],
       client_options = [], client_connected = [(''a1'', True), (''a2'', True), (''a3'', False)],
       agent_last_active = [(''a1'', 0), (''a2'', 1500000000), (''a3'', 100000000)],
       calls = []\<rparr>)) ''a2''
      = (Some \<lparr>connect = Returns, disconnect = Returns, close = None, process = None,
                query = Returns, receive_response = ([], Returns)\<rparr>, None, Some True, Some 1500000000)"
proof -
  let ?c = "\<lparr>connect = Returns, disconnect = Returns, close = None, process = None,
             query = Returns, receive_response = ([], Returns)\<rparr>"
  let ?m = "\<lparr>clients =
         [(''a1'', \<lparr>connect = Returns, disconnect = Raises ''boom'', close = Some (Raises ''boom''),
                    process = Some \<lparr>returncode = None, terminate = Raises ''boom'', wait = Raises ''boom''\<rparr>,
                    query = Returns, receive_response = ([], Returns)\<rparr>),
          (''a2'', ?c), (''a3'', ?c)],
       client_options = [], client_connected = [(''a1'', True), (''a2'', True), (''a3'', False)],
       agent_last_active = [(''a1'', 0), (''a2'', 1500000000), (''a3'', 100000000)],
       calls = []\<rparr>"
  have a1: "registry_entry (fst (idle_cleanup_tick 1200 2000000000 ?m)) ''a1'' = (None, None, None, None)"
    using C7_idle_reaper_tick [where m = ?m and a = "''a1''" and la = 0 and now = 2000000000
        and timeout_seconds = 1200 and b = "''a2''" and lb = 1500000000]
    by (simp add: timedelta_seconds_def)
  have a3: "registry_entry (fst (idle_cleanup_tick 1200 2000000000 ?m)) ''a3'' = (None, None, None, None)"
    using C7_idle_reaper_tick [where m = ?m and a = "''a3''" and la = 100000000 and now = 2000000000
        and timeout_seconds = 1200 and b = "''a2''" and lb = 1500000000]
    by (simp add: timedelta_seconds_def)
  have a2: "registry_entry (fst (idle_cleanup_tick 1200 2000000000 ?m)) ''a2'' = registry_entry ?m ''a2''"
    using C7_idle_reaper_tick [where m = ?m and a = "''a1''" and la = 0 and now = 2000000000
        and timeout_seconds = 1200 and b = "''a2''" and lb = 1500000000]
    by (simp add: timedelta_seconds_def)
  have "registry_entry ?m ''a2'' = (Some ?c, None, Some True, Some 1500000000)"
    by (simp add: registry_entry_def)
  with a1 a2 a3 show ?thesis by simp
qed

text \<open>
  Claim C9, as the code has it. \<open>ensure_client_connected\<close> returns \<open>False\<close> and changes
  nothing when the agent is not registered. When it is registered, \<open>connect()\<close> is called
  exactly when the connected flag is not set; the call returns \<open>True\<close> exactly when the flag
  was set or \<open>connect()\<close> returned, and then the flag is set and the last-active time is the
  current time, whether or not the session was connected before. When \<open>connect()\<close> raises,
  the call returns \<open>False\<close> and every registry entry, the last-active time included, is
  what it was. Other sessions are never touched.
\<close>

theorem C9_ensure_client_connected:
  "(map_of (clients m) a = None \<longrightarrow> ensure_client_connected now m a = (False, m))
   \<and> (map_of (clients m) a = Some c \<longrightarrow>
        (fst (ensure_client_connected now m a) \<longleftrightarrow> is_connected m a \<or> connect c = Returns) \<and>
        calls_on (snd (ensure_client_connected now m a)) a =
          calls_on m a @ (if is_connected m a then [] else [CallConnect]) \<and>
        (fst (ensure_client_connected now m a) \<longrightarrow>
           is_connected (snd (ensure_client_connected now m a)) a \<and>
           map_of (agent_last_active (snd (ensure_client_connected now m a))) a = Some now) \<and>
        (\<not> fst (ensure_client_connected now m a) \<longrightarrow>
           registry_entry (snd (ensure_client_connected now m a)) a = registry_entry m a))
   \<and> (x \<noteq> a \<longrightarrow>
        registry_entry (snd (ensure_client_connected now m a)) x = registry_entry m x \<and>
        calls_on (snd (ensure_client_connected now m a)) x = calls_on m x)"
proof -
  have unregistered: "ensure_client_connected now m a = (False, m)" if "map_of (clients m) a = None"
    using that by (simp add: ensure_client_connected_def)
  have registered:
    "(fst (ensure_client_connected now m a) \<longleftrightarrow> is_connected m a \<or> connect c = Returns) \<and>
     calls_on (snd (ensure_client_connected now m a)) a =
       calls_on m a @ (if is_connected m a then [] else [CallConnect]) \<and>
     (fst (ensure_client_connected now m a) \<longrightarrow>
        is_connected (snd (ensure_client_connected now m a)) a \<and>
        map_of (agent_last_active (snd (ensure_client_connected now m a))) a = Some now) \<and>
     (\<not> fst (ensure_client_connected now m a) \<longrightarrow>
        registry_entry (snd (ensure_client_connected now m a)) a = registry_entry m a)"
    if c: "map_of (clients m) a = Some c"
  proof (cases "is_connected m a")
    case True
    with c show ?thesis
      by (simp add: ensure_client_connected_def is_connected_def update_conv' calls_on_def)
  next
    case False
    with c show ?thesis
      by (cases "connect c")
         (simp_all add: ensure_client_connected_def is_connected_def update_conv' calls_on_def
           log_call_def registry_entry_def)
  qed
  have others: "registry_entry (snd (ensure_client_connected now m a)) x = registry_entry m x \<and>
      calls_on (snd (ensure_client_connected now m a)) x = calls_on m x" if "x \<noteq> a"
    using that
    by (simp add: ensure_client_connected_def registry_entry_def update_conv' calls_on_def
        log_call_def split: option.splits outcome.splits)
  from unregistered registered others show ?thesis by blast
qed

text \<open>
  The theorem on a registry with one session that is registered but not connected and
  whose \<open>connect()\<close> returns: the call at time 500 returns \<open>True\<close>, sets the flag and the
  last-active time; for an unknown id it returns \<open>False\<close>.
\<close>

theorem C9_ensure_client_connected_witness:
  "fst (ensure_client_connected 500
      \<lparr>clients = [(''a1'', \<lparr>connect = Returns, disconnect = Returns, close = None, process = None,
                             query = Returns, receive_response = ([], Returns)\<rparr>)],
       client_options = [], client_connected = [(''a1'', False)],
       agent_last_active = [(''a1'', 100)], calls = []\<rparr> ''a1'')
   \<and> map_of (agent_last_active (snd (ensure_client_connected 500
      \<lparr>clients = [(''a1'', \<lparr>connect = Returns, disconnect = Returns, close = None, process = None,
                             query = Returns, receive_response = ([], Returns)\<rparr>)],
       client_options = [], client_connected = [(''a1'', False)],
       agent_last_active = [(''a1'', 100)], calls = []\<rparr> ''a1''))) ''a1'' = Some 500
   \<and> \<not> fst (ensure_client_connected 500
      \<lparr>clients = [(''a1'', \<lparr>connect = Returns, disconnect = Returns, close = None, process = None,
                             query = Returns, receive_response = ([], Returns)\<rparr>)],
       client_options = [], client_connected = [(''a1'', False)],
       agent_last_active = [(''a1'', 100)], calls = []\<rparr> ''zz'')"
proof -
  let ?c = "\<lparr>connect = Returns, disconnect = Returns, close = None, process = None,
             query = Returns, receive_response = ([], Returns)\<rparr>"
  let ?m = "\<lparr>clients = [(''a1'', ?c)], client_options = [], client_connected = [(''a1'', False)],
       agent_last_active = [(''a1'', 100)], calls = []\<rparr>"
  have reg: "map_of (clients ?m) ''a1'' = Some ?c" by simp
  have unreg: "map_of (clients ?m) ''zz'' = None" by simp
  from C9_ensure_client_connected [where m = ?m and a = "''a1''" and now = 500 and c = ?c and x = "''zz''"] reg
  have "fst (ensure_client_connected 500 ?m ''a1'')"
    and "map_of (agent_last_active (snd (ensure_client_connected 500 ?m ''a1''))) ''a1'' = Some 500"
    by simp_all
  moreover from C9_ensure_client_connected [where m = ?m and a = "''zz''" and now = 500 and c = ?c and x = "''a1''"] unreg
  have "\<not> fst (ensure_client_connected 500 ?m ''zz'')" by simp
  ultimately show ?thesis by blast
qed

text \<open>
  The claim as the specification words it (the last-active time is always bumped when the
  handle exists) fails where \<open>connect()\<close> raises: the session \<open>a1\<close> is registered, the call
  at time 500 returns \<open>False\<close>, and its last-active time is still 100.
\<close>

theorem C9_last_active_not_always_bumped:
  "map_of (clients
      \<lparr>clients = [(''a1'', \<lparr>connect = Raises ''spawn failed'', disconnect = Returns, close = None,
                             process = None, query = Returns, receive_response = ([], Returns)\<rparr>)],
       client_options = [], client_connected = [(''a1'', False)],
       agent_last_active = [(''a1'', 100)], calls = []\<rparr>) ''a1'' \<noteq> None
   \<and> \<not> fst (ensure_client_connected 500
      \<lparr>clients = [(''a1'', \<lparr>connect = Raises ''spawn failed'', disconnect = Returns, close = None,
                             process = None, query = Returns, receive_response = ([], Returns)\<rparr>)],
       client_options = [], client_connected = [(''a1'', False)],
       agent_last_active = [(''a1'', 100)], calls = []\<rparr> ''a1'')
   \<and> map_of (agent_last_active (snd (ensure_client_connected 500
      \<lparr>clients = [(''a1'', \<lparr>connect = Raises ''spawn failed'', disconnect = Returns, close = None,
                             process = None, query = Returns, receive_response = ([], Returns)\<rparr>)],
       client_options = [], client_connected = [(''a1'', False)],
       agent_last_active = [(''a1'', 100)], calls = []\<rparr> ''a1''))) ''a1'' = Some 100"
  by (simp add: ensure_client_connected_def is_connected_def log_call_def)

section \<open>The permission handler: lemmas and theorems\<close>

subsection \<open>The user id of a working directory\<close>

lemma extract_user_id_found:
  "id_char c \<Longrightarrow> extract_user_id (pre @ ''userid_'' @ c # post) \<noteq> None"
proof (induction pre)
  case Nil
  then show ?case by simp
next
  case (Cons p pre)
  then show ?case by (simp del: extract_user_id.simps(2) add: extract_user_id.simps(2) [of p])
qed

lemma extract_user_id_occurs:
  "extract_user_id wd \<noteq> None \<Longrightarrow> \<exists>pre c post. wd = pre @ ''userid_'' @ c # post \<and> id_char c"
proof (induction wd)
  case Nil
  then show ?case by simp
next
  case (Cons a wd)
  show ?case
  proof (cases "prefix ''userid_'' (a # wd) \<and> takeWhile id_char (drop 7 (a # wd)) \<noteq> []")
    case True
    then obtain rest where rest: "a # wd = ''userid_'' @ rest"
      by (auto simp: prefix_def)
    with True have "takeWhile id_char rest \<noteq> []" by simp
    then obtain c post where "rest = c # post" "id_char c"
      by (cases rest) (auto split: if_splits)
    with rest have "a # wd = [] @ ''userid_'' @ c # post \<and> id_char c" by simp
    then show ?thesis by blast
  next
    case False
    with Cons.prems have "extract_user_id wd \<noteq> None" by (simp split: if_splits)
    then obtain pre c post where "wd = pre @ ''userid_'' @ c # post" "id_char c"
      using Cons.IH by blast
    then have "a # wd = (a # pre) @ ''userid_'' @ c # post \<and> id_char c" by simp
    then show ?thesis by blast
  qed
qed

lemma extract_user_id_None_iff:
  "extract_user_id wd = None \<longleftrightarrow>
     \<not> (\<exists>pre c post. wd = pre @ ''userid_'' @ c # post \<and> c \<noteq> CHR ''/'' \<and> c \<noteq> CHR 0x5C)"
  using extract_user_id_found extract_user_id_occurs unfolding id_char_def by blast

text \<open>
  Whatever the SDK is, \<open>_allow_permission_result\<close> gives an allowing answer, and an answer
  that hands on an input hands on the one it was given.
\<close>

lemma try_allow_class_cases:
  "try_allow_class allow_cls d = None \<or> try_allow_class allow_cls d = Some (ByUpdatedInput d) \<or>
   try_allow_class allow_cls d = Some (ByPosition d) \<or> try_allow_class allow_cls d = Some NoArguments"
  by (simp add: try_allow_class_def Let_def split: option.splits)

lemma allow_from_modules_hands_on:
  "is_allow (allow_from_modules h names d) \<and>
   updated_input_of (allow_from_modules h names d) \<in> {None, Some d}"
proof (induction names)
  case Nil
  show ?case by simp
next
  case (Cons name names)
  show ?case
  proof (cases "import_module h name")
    case None
    with Cons show ?thesis by simp
  next
    case (Some sdk)
    note sdk = this
    show ?thesis
    proof (cases "PermissionResultAllow sdk")
      case None
      with sdk Cons show ?thesis by simp
    next
      case (Some allow_cls)
      from try_allow_class_cases [of allow_cls d] sdk Some Cons show ?thesis
        by (elim disjE) simp_all
    qed
  qed
qed

lemma allow_permission_result_hands_on:
  "is_allow (allow_permission_result h d) \<and>
   updated_input_of (allow_permission_result h d) \<in> {None, Some d}"
  unfolding allow_permission_result_def by (rule allow_from_modules_hands_on)

subsection \<open>Claim on working directories without a user id\<close>

text \<open>
  Claim C10. With the firewall enabled, when the working directory has no place where
  \<open>userid_\<close> is followed by a character other than slash and backslash (so that
  \<open>_extract_user_id\<close> finds no user id and there is no Linux user), the handler allows every
  tool call with its input as it was: its answer is what \<open>_allow_permission_result\<close> makes
  of the given input, it is never a denial, and it hands on either no input or the given
  one. No path is checked for Read, Grep or Glob and no Bash command is wrapped.
\<close>

theorem C10_no_user_id_allows_everything:
  assumes "FIREWALL_ENABLED h"
    and "\<not> (\<exists>pre c post. work_dir = pre @ ''userid_'' @ c # post \<and> c \<noteq> CHR ''/'' \<and> c \<noteq> CHR 0x5C)"
  shows "build_tool_permission_handler h work_dir now_ms uuid_hex tool_name input_data =
           allow_permission_result h input_data
       \<and> is_allow (build_tool_permission_handler h work_dir now_ms uuid_hex tool_name input_data)
       \<and> updated_input_of (build_tool_permission_handler h work_dir now_ms uuid_hex tool_name input_data)
           \<in> {None, Some input_data}"
proof -
  from assms(2) have "extract_user_id work_dir = None"
    by (rule iffD2 [OF extract_user_id_None_iff])
  then have "build_tool_permission_handler h work_dir now_ms uuid_hex tool_name input_data =
      allow_permission_result h input_data"
    by (simp add: build_tool_permission_handler_def truthy_def)
  with allow_permission_result_hands_on [of h input_data] show ?thesis by simp
qed

text \<open>
  The theorem for the working directory \<open>/tmp/work\<close>. On a host without the SDK's modules
  a Read of \<open>/etc/passwd\<close> and a Bash command both come back allowed in the dictionary,
  unchanged. On a host whose class takes \<open>updated_input\<close> the Bash command comes back as
  an instance made without arguments, which hands on no input.
\<close>

theorem C10_no_user_id_witness:
  "build_tool_permission_handler
     \<lparr>FIREWALL_ENABLED = True, LINUX_USER_PREFIX = ''queen'', os_name = ''posix'',
      work_base_dir = ''/home/queen'', getcwd = ''/srv/app'', import_module = (\<lambda>name. None)\<rparr>
     ''/tmp/work'' 17 ''abcdef0123'' ''Read'' [(''file_path'', ''/etc/passwd'')]
    = AllowDict [(''file_path'', ''/etc/passwd'')]
   \<and> build_tool_permission_handler
     \<lparr>FIREWALL_ENABLED = True, LINUX_USER_PREFIX = ''queen'', os_name = ''posix'',
      work_base_dir = ''/home/queen'', getcwd = ''/srv/app'', import_module = (\<lambda>name. None)\<rparr>
     ''/tmp/work'' 17 ''abcdef0123'' ''Bash'' [(''command'', ''rm -rf /'')]
    = AllowDict [(''command'', ''rm -rf /'')]
   \<and> build_tool_permission_handler
     \<lparr>FIREWALL_ENABLED = True, LINUX_USER_PREFIX = ''queen'', os_name = ''posix'',
      work_base_dir = ''/home/queen'', getcwd = ''/srv/app'',
      import_module = (\<lambda>name. if name = ''claude_agent_sdk''
         then Some \<lparr>PermissionResultAllow = Some
                \<lparr>signature_parameters = Some [''behavior'', ''updated_input'', ''updated_permissions''],
                 constructs = (\<lambda>call. True)\<rparr>\<rparr>
         else None)\<rparr>
     ''/tmp/work'' 17 ''abcdef0123'' ''Bash'' [(''command'', ''rm -rf /'')]
    = AllowInstance ''claude_agent_sdk'' NoArguments"
proof -
  let ?h = "\<lparr>FIREWALL_ENABLED = True, LINUX_USER_PREFIX = ''queen'', os_name = ''posix'',
      work_base_dir = ''/home/queen'', getcwd = ''/srv/app'', import_module = (\<lambda>name. None)\<rparr>"
  let ?g = "\<lparr>FIREWALL_ENABLED = True, LINUX_USER_PREFIX = ''queen'', os_name = ''posix'',
      work_base_dir = ''/home/queen'', getcwd = ''/srv/app'',
      import_module = (\<lambda>name. if name = ''claude_agent_sdk''
         then Some \<lparr>PermissionResultAllow = Some
                \<lparr>signature_parameters = Some [''behavior'', ''updated_input'', ''updated_permissions''],
                 constructs = (\<lambda>call. True)\<rparr>\<rparr>
         else None)\<rparr>"
  have on: "FIREWALL_ENABLED ?h" "FIREWALL_ENABLED ?g" by simp_all
  have "extract_user_id ''/tmp/work'' = None" by simp
  then have none: "\<not> (\<exists>pre c post. ''/tmp/work'' = pre @ ''userid_'' @ c # post \<and>
      c \<noteq> CHR ''/'' \<and> c \<noteq> CHR 0x5C)"
    by (rule iffD1 [OF extract_user_id_None_iff])
  have dict: "allow_permission_result ?h d = AllowDict d" for d
    by (simp add: allow_permission_result_def)
  have inst: "allow_permission_result ?g d = AllowInstance ''claude_agent_sdk'' NoArguments" for d
    by (simp add: allow_permission_result_def try_allow_class_def)
  from C10_no_user_id_allows_everything [OF on(1) none, THEN conjunct1]
       C10_no_user_id_allows_everything [OF on(2) none, THEN conjunct1]
  show ?thesis by (simp only: dict inst simp_thms)
qed

subsection \<open>Splitting and joining paths\<close>

lemma split_sep_not_Nil [simp]: "split_sep s xs \<noteq> []"
  by (induction xs) (auto split: list.splits)

lemma split_sep_no_sep: "c \<in> set (split_sep s xs) \<Longrightarrow> s \<notin> set c"
proof (induction xs arbitrary: c)
  case Nil
  then show ?case by simp
next
  case (Cons x xs)
  show ?case
  proof (cases "x = s")
    case True
    with Cons show ?thesis by auto
  next
    case False
    obtain w ws where w: "split_sep s xs = w # ws"
      by (cases "split_sep s xs") simp_all
    with False Cons.prems have "c = x # w \<or> c \<in> set ws" by simp
    moreover have "s \<notin> set w" "\<forall>d \<in> set ws. s \<notin> set d"
      using Cons.IH w by simp_all
    ultimately show ?thesis using False by auto
  qed
qed

lemma split_sep_plain: "s \<notin> set w \<Longrightarrow> split_sep s w = [w]"
  by (induction w) auto

lemma split_sep_append: "s \<notin> set w \<Longrightarrow> split_sep s (w @ s # rest) = w # split_sep s rest"
  by (induction w) auto

lemma split_sep_join_sep:
  "cs \<noteq> [] \<Longrightarrow> \<forall>c \<in> set cs. s \<notin> set c \<Longrightarrow> split_sep s (join_sep s cs) = cs"
proof (induction s cs rule: join_sep.induct)
  case (1 sep)
  then show ?case by simp
next
  case (2 sep w)
  then show ?case by (simp add: split_sep_plain)
next
  case (3 sep w v ws)
  then show ?case by (simp add: split_sep_append)
qed

text \<open>Components as \<open>normpath\<close> leaves them: not empty, not \<open>.\<close>, without a slash.\<close>

lemma path_components_join_sep:
  assumes "\<forall>c \<in> set cs. c \<noteq> [] \<and> c \<noteq> ''.'' \<and> CHR ''/'' \<notin> set c"
  shows "path_components (join_sep CHR ''/'' cs) = cs"
proof (cases "cs = []")
  case True
  then show ?thesis by (simp add: path_components_def)
next
  case False
  with assms have "split_sep CHR ''/'' (join_sep CHR ''/'' cs) = cs"
    by (intro split_sep_join_sep) auto
  moreover from assms have "filter (\<lambda>c. c \<noteq> [] \<and> c \<noteq> ''.'') cs = cs"
    by (intro filter_True) auto
  ultimately show ?thesis by (simp add: path_components_def)
qed

lemma path_components_slash: "path_components (CHR ''/'' # p) = path_components p"
  by (simp add: path_components_def)

lemma join_sep_no_leading_slash:
  assumes "\<forall>c \<in> set cs. c \<noteq> [] \<and> c \<noteq> ''.'' \<and> CHR ''/'' \<notin> set c"
  shows "\<not> prefix ''/'' (join_sep CHR ''/'' cs)"
proof (cases cs)
  case Nil
  then show ?thesis by simp
next
  case (Cons c cs')
  with assms obtain x xs where c: "c = x # xs" "x \<noteq> CHR ''/''"
    by (cases c) auto
  have "join_sep CHR ''/'' (c # cs') = c \<or> (\<exists>r. join_sep CHR ''/'' (c # cs') = c @ r)"
    by (cases cs') simp_all
  with c Cons show ?thesis by auto
qed

lemma norm_step_clean:
  assumes "\<forall>c \<in> set acc. c \<noteq> [] \<and> c \<noteq> ''.'' \<and> CHR ''/'' \<notin> set c" and "CHR ''/'' \<notin> set part"
  shows "\<forall>c \<in> set (norm_step i acc part). c \<noteq> [] \<and> c \<noteq> ''.'' \<and> CHR ''/'' \<notin> set c"
proof -
  have "set (butlast acc) \<subseteq> set acc" by (auto dest: in_set_butlastD)
  with assms show ?thesis unfolding norm_step_def by (auto split: if_splits)
qed

lemma foldl_norm_step_clean:
  "\<forall>c \<in> set acc. c \<noteq> [] \<and> c \<noteq> ''.'' \<and> CHR ''/'' \<notin> set c \<Longrightarrow>
   \<forall>p \<in> set parts. CHR ''/'' \<notin> set p \<Longrightarrow>
   \<forall>c \<in> set (foldl (norm_step i) acc parts). c \<noteq> [] \<and> c \<noteq> ''.'' \<and> CHR ''/'' \<notin> set c"
proof (induction parts arbitrary: acc)
  case Nil
  then show ?case by simp
next
  case (Cons p parts)
  from Cons.prems(2) have p: "CHR ''/'' \<notin> set p" by simp
  from Cons.prems(2) have rest: "\<forall>q \<in> set parts. CHR ''/'' \<notin> set q" by simp
  from Cons.prems(1) p
  have "\<forall>c \<in> set (norm_step i acc p). c \<noteq> [] \<and> c \<noteq> ''.'' \<and> CHR ''/'' \<notin> set c"
    by (rule norm_step_clean)
  then have "\<forall>c \<in> set (foldl (norm_step i) (norm_step i acc p) parts).
      c \<noteq> [] \<and> c \<noteq> ''.'' \<and> CHR ''/'' \<notin> set c"
    using rest by (rule Cons.IH)
  then show ?case by (simp only: foldl_Cons)
qed

text \<open>The shape of a normalized absolute path.\<close>

lemma normpath_absolute:
  assumes "prefix ''/'' path"
  obtains cs where "normpath path = replicate (initial_slashes path) CHR ''/'' @ join_sep CHR ''/'' cs"
    and "\<forall>c \<in> set cs. c \<noteq> [] \<and> c \<noteq> ''.'' \<and> CHR ''/'' \<notin> set c"
    and "initial_slashes path = 1 \<or> initial_slashes path = 2"
proof -
  let ?cs = "foldl (norm_step (initial_slashes path)) [] (split_sep CHR ''/'' path)"
  from assms have ne: "path \<noteq> []" by auto
  from assms have i: "initial_slashes path = 1 \<or> initial_slashes path = 2"
    by (simp add: initial_slashes_def)
  with ne have "normpath path = replicate (initial_slashes path) CHR ''/'' @ join_sep CHR ''/'' ?cs"
    by (auto simp: normpath_def Let_def)
  moreover have "\<forall>c \<in> set ?cs. c \<noteq> [] \<and> c \<noteq> ''.'' \<and> CHR ''/'' \<notin> set c"
    by (intro foldl_norm_step_clean) (auto dest: split_sep_no_sep)
  ultimately show ?thesis using i that by blast
qed

lemma abspath_argument_absolute:
  "prefix ''/'' curdir \<Longrightarrow> prefix ''/'' (if prefix ''/'' p then p else path_join curdir p)"
  by (auto simp: path_join_def prefix_def)

lemma abspath_absolute:
  assumes "prefix ''/'' curdir"
  shows "prefix ''/'' (abspath curdir p)"
proof -
  let ?q = "if prefix ''/'' p then p else path_join curdir p"
  from assms have q: "prefix ''/'' ?q" by (rule abspath_argument_absolute)
  from q obtain cs where "normpath ?q = replicate (initial_slashes ?q) CHR ''/'' @ join_sep CHR ''/'' cs"
    and "initial_slashes ?q = 1 \<or> initial_slashes ?q = 2"
    by (rule normpath_absolute)
  then show ?thesis unfolding abspath_def by (auto simp: numeral_2_eq_2)
qed

lemma abspath_single_slash:
  assumes "prefix ''/'' curdir" and "\<not> prefix ''//'' (abspath curdir p)"
  obtains cs where "abspath curdir p = CHR ''/'' # join_sep CHR ''/'' cs"
    and "\<forall>c \<in> set cs. c \<noteq> [] \<and> c \<noteq> ''.'' \<and> CHR ''/'' \<notin> set c"
proof -
  let ?q = "if prefix ''/'' p then p else path_join curdir p"
  from assms(1) have q: "prefix ''/'' ?q" by (rule abspath_argument_absolute)
  from q obtain cs where n: "normpath ?q = replicate (initial_slashes ?q) CHR ''/'' @ join_sep CHR ''/'' cs"
    and clean: "\<forall>c \<in> set cs. c \<noteq> [] \<and> c \<noteq> ''.'' \<and> CHR ''/'' \<notin> set c"
    and i: "initial_slashes ?q = 1 \<or> initial_slashes ?q = 2"
    by (rule normpath_absolute)
  have "initial_slashes ?q \<noteq> 2"
  proof
    assume "initial_slashes ?q = 2"
    with n have "prefix ''//'' (abspath curdir p)"
      unfolding abspath_def by (simp add: numeral_2_eq_2)
    with assms(2) show False by simp
  qed
  with i have "initial_slashes ?q = 1" by simp
  with n have "abspath curdir p = CHR ''/'' # join_sep CHR ''/'' cs"
    unfolding abspath_def by simp
  with clean show ?thesis using that by blast
qed

lemma common_prefix_is_prefix: "prefix (common_prefix xs ys) ys"
  by (induction xs ys rule: common_prefix.induct) auto

lemma common_prefix_eq_iff: "common_prefix xs ys = ys \<longleftrightarrow> prefix ys xs"
  by (induction xs ys rule: common_prefix.induct) auto

text \<open>
  The test of \<open>_is_path_allowed\<close>, in terms of components: the components of the
  normalized root begin the components of the normalized path.
\<close>

lemma commonpath_eq_root_iff:
  assumes ap: "prefix ''/'' ap"
    and clean: "\<forall>c \<in> set cs. c \<noteq> [] \<and> c \<noteq> ''.'' \<and> CHR ''/'' \<notin> set c"
  shows "commonpath ap (CHR ''/'' # join_sep CHR ''/'' cs) = Some (CHR ''/'' # join_sep CHR ''/'' cs)
         \<longleftrightarrow> prefix cs (path_components ap)"
proof -
  let ?aa = "CHR ''/'' # join_sep CHR ''/'' cs"
  let ?common = "common_prefix (path_components ap) cs"
  have pc: "path_components ?aa = cs"
    using clean by (simp add: path_components_slash path_components_join_sep)
  have cp: "commonpath ap ?aa = Some (CHR ''/'' # join_sep CHR ''/'' ?common)"
    using ap by (simp add: commonpath_def pc)
  have "prefix ?common cs" by (rule common_prefix_is_prefix)
  then have "set ?common \<subseteq> set cs" by (rule set_mono_prefix)
  with clean have clean': "\<forall>c \<in> set ?common. c \<noteq> [] \<and> c \<noteq> ''.'' \<and> CHR ''/'' \<notin> set c"
    by blast
  have "join_sep CHR ''/'' ?common = join_sep CHR ''/'' cs \<longleftrightarrow> ?common = cs"
  proof
    assume "join_sep CHR ''/'' ?common = join_sep CHR ''/'' cs"
    then have "path_components (join_sep CHR ''/'' ?common) = path_components (join_sep CHR ''/'' cs)"
      by simp
    with clean clean' show "?common = cs" by (simp add: path_components_join_sep)
  qed simp
  with cp show ?thesis by (simp add: common_prefix_eq_iff)
qed

lemma is_path_allowed_iff:
  assumes curdir: "prefix ''/'' (getcwd h)"
    and root: "\<not> prefix ''//'' (abspath (getcwd h) allowed_dir)"
    and p: "path \<noteq> []"
  shows "is_path_allowed h path allowed_dir \<longleftrightarrow>
           prefix (path_components (abspath (getcwd h) allowed_dir))
                  (path_components (abspath (getcwd h) path))"
proof -
  from curdir root obtain cs where aa: "abspath (getcwd h) allowed_dir = CHR ''/'' # join_sep CHR ''/'' cs"
    and clean: "\<forall>c \<in> set cs. c \<noteq> [] \<and> c \<noteq> ''.'' \<and> CHR ''/'' \<notin> set c"
    by (rule abspath_single_slash)
  from curdir have ap: "prefix ''/'' (abspath (getcwd h) path)" by (rule abspath_absolute)
  have pc: "path_components (abspath (getcwd h) allowed_dir) = cs"
    using clean by (simp add: aa path_components_slash path_components_join_sep)
  have "is_path_allowed h path allowed_dir \<longleftrightarrow>
      commonpath (abspath (getcwd h) path) (CHR ''/'' # join_sep CHR ''/'' cs)
        = Some (CHR ''/'' # join_sep CHR ''/'' cs)"
    using p by (simp add: is_path_allowed_def aa split: option.splits)
  also have "\<dots> \<longleftrightarrow> prefix cs (path_components (abspath (getcwd h) path))"
    using ap clean by (rule commonpath_eq_root_iff)
  finally show ?thesis by (simp add: pc)
qed

subsection \<open>The path restriction of the read tools\<close>

lemma requested_path_not_empty: "requested_path d = Some p \<Longrightarrow> p \<noteq> []"
  by (auto simp: requested_path_def truthy_def split: option.splits if_splits)

text \<open>
  The decision of the handler on a Read, Grep or Glob call for a tenant workspace (the
  working directory carries a user id, so there is a Linux user and the workspace root is
  the user's directory under the work base directory) on a POSIX host. The path it checks
  is the first non-empty of \<open>file_path\<close>, \<open>path\<close> and \<open>pattern\<close>, made absolute against the
  current directory of the server process and normalized, as \<open>os.path.abspath\<close> does. The
  call is denied, with the denial that names the workspace, exactly when the components
  of that path do not begin with the components of the normalized workspace root;
  otherwise it is allowed with its input. The root is assumed not to begin with two
  slashes.
\<close>

lemma read_tools_path_check:
  assumes "FIREWALL_ENABLED h" and "os_name h = ''posix''"
    and "extract_user_id work_dir = Some uid" and "to_linux_user h uid \<noteq> []"
    and "tool_name \<in> {''Read'', ''Grep'', ''Glob''}"
    and "requested_path input_data = Some path"
    and "prefix ''/'' (getcwd h)"
    and "\<not> prefix ''//'' (abspath (getcwd h) (resolve_user_workspace h work_dir (Some uid)))"
  shows "build_tool_permission_handler h work_dir now_ms uuid_hex tool_name input_data =
           (if prefix (path_components (abspath (getcwd h) (resolve_user_workspace h work_dir (Some uid))))
                      (path_components (abspath (getcwd h) path))
            then allow_permission_result h input_data
            else Deny (OutsideWorkspace (resolve_user_workspace h work_dir (Some uid))))"
proof -
  let ?ws = "resolve_user_workspace h work_dir (Some uid)"
  from assms(6) have ne: "path \<noteq> []" by (rule requested_path_not_empty)
  from assms(7,8) ne have allowed: "is_path_allowed h path ?ws \<longleftrightarrow>
      prefix (path_components (abspath (getcwd h) ?ws)) (path_components (abspath (getcwd h) path))"
    by (rule is_path_allowed_iff)
  from assms(5) have tool: "tool_name \<noteq> []" "tool_name \<noteq> ''Bash''" by auto
  from assms(4) have user: "truthy (Some (to_linux_user h uid)) \<noteq> None"
    by (simp add: truthy_def)
  show ?thesis
  proof (cases "is_path_allowed h path ?ws")
    case True
    with assms(1,3,5,6) tool user allowed show ?thesis
      by (simp add: build_tool_permission_handler_def Let_def)
  next
    case False
    with assms(1,3,5,6) tool user allowed show ?thesis
      by (simp add: build_tool_permission_handler_def Let_def)
  qed
qed

subsection \<open>Claim on the path restriction of the read tools\<close>

text \<open>
  Claim C2. The claim has a request for a path under the tenant's root, such as
  \<open>subdir/file.txt\<close>, allowed, and a request for a path outside the root denied. The agent
  runtime works in the agent's directory (\<open>cwd=work_dir\<close> in the client's options), here
  \<open>/base/userid_X/agent1\<close> in the workspace \<open>/base/userid_X\<close>, while \<open>_is_path_allowed\<close>
  resolves a relative path against the current directory of the server process, here
  \<open>/srv/app\<close>. So the handler denies the Read of \<open>subdir/file.txt\<close> and of \<open>notes.txt\<close>,
  files of the agent's own directory, and it denies a Glob and a Grep that give only a
  pattern, because the pattern is then taken for the path. And since the path checked is
  the first non-empty of \<open>file_path\<close>, \<open>path\<close> and \<open>pattern\<close>, a Grep of \<open>/etc\<close> that also
  carries a \<open>file_path\<close> inside the workspace is allowed.
\<close>

theorem C2_relative_path_resolved_against_server:
  "build_tool_permission_handler
     \<lparr>FIREWALL_ENABLED = True, LINUX_USER_PREFIX = ''queen'', os_name = ''posix'',
      work_base_dir = ''/base'', getcwd = ''/srv/app'',
      import_module = (\<lambda>name. if name = ''claude_agent_sdk''
         then Some \<lparr>PermissionResultAllow = Some
                \<lparr>signature_parameters = Some [''behavior'', ''updated_input'', ''updated_permissions''],
                 constructs = (\<lambda>call. True)\<rparr>\<rparr>
         else None)\<rparr>
     ''/base/userid_X/agent1'' 17 ''abcdef0123'' ''Read'' [(''file_path'', ''subdir/file.txt'')]
    = Deny (OutsideWorkspace ''/base/userid_X'')
   \<and> build_tool_permission_handler
     \<lparr>FIREWALL_ENABLED = True, LINUX_USER_PREFIX = ''queen'', os_name = ''posix'',
      work_base_dir = ''/base'', getcwd = ''/srv/app'',
      import_module = (\<lambda>name. if name = ''claude_agent_sdk''
         then Some \<lparr>PermissionResultAllow = Some
                \<lparr>signature_parameters = Some [''behavior'', ''updated_input'', ''updated_permissions''],
                 constructs = (\<lambda>call. True)\<rparr>\<rparr>
         else None)\<rparr>
     ''/base/userid_X/agent1'' 17 ''abcdef0123'' ''Read'' [(''file_path'', ''notes.txt'')]
    = Deny (OutsideWorkspace ''/base/userid_X'')
   \<and> build_tool_permission_handler
     \<lparr>FIREWALL_ENABLED = True, LINUX_USER_PREFIX = ''queen'', os_name = ''posix'',
      work_base_dir = ''/base'', getcwd = ''/srv/app'',
      import_module = (\<lambda>name. if name = ''claude_agent_sdk''
         then Some \<lparr>PermissionResultAllow = Some
                \<lparr>signature_parameters = Some [''behavior'', ''updated_input'', ''updated_permissions''],
                 constructs = (\<lambda>call. True)\<rparr>\<rparr>
         else None)\<rparr>
     ''/base/userid_X/agent1'' 17 ''abcdef0123'' ''Glob'' [(''pattern'', ''**/*.py'')]
    = Deny (OutsideWorkspace ''/base/userid_X'')
   \<and> build_tool_permission_handler
     \<lparr>FIREWALL_ENABLED = True, LINUX_USER_PREFIX = ''queen'', os_name = ''posix'',
      work_base_dir = ''/base'', getcwd = ''/srv/app'',
      import_module = (\<lambda>name. if name = ''claude_agent_sdk''
         then Some \<lparr>PermissionResultAllow = Some
                \<lparr>signature_parameters = Some [''behavior'', ''updated_input'', ''updated_permissions''],
                 constructs = (\<lambda>call. True)\<rparr>\<rparr>
         else None)\<rparr>
     ''/base/userid_X/agent1'' 17 ''abcdef0123'' ''Grep'' [(''pattern'', ''TODO'')]
    = Deny (OutsideWorkspace ''/base/userid_X'')
   \<and> is_allow
    (build_tool_permission_handler
     \<lparr>FIREWALL_ENABLED = True, LINUX_USER_PREFIX = ''queen'', os_name = ''posix'',
      work_base_dir = ''/base'', getcwd = ''/srv/app'',
      import_module = (\<lambda>name. if name = ''claude_agent_sdk''
         then Some \<lparr>PermissionResultAllow = Some
                \<lparr>signature_parameters = Some [''behavior'', ''updated_input'', ''updated_permissions''],
                 constructs = (\<lambda>call. True)\<rparr>\<rparr>
         else None)\<rparr>
     ''/base/userid_X/agent1'' 17 ''abcdef0123'' ''Grep'' [(''pattern'', ''root''), (''path'', ''/etc''), (''file_path'', ''/base/userid_X/agent1/x'')])"
  by code_simp

section \<open>The command wrapper: lemmas and theorems\<close>

subsection \<open>Lexing what \<open>shlex.quote\<close> wrote\<close>

lemma shlex_safe_plain:
  "shlex_safe c \<Longrightarrow> \<not> shlex_whitespace c \<and> \<not> shlex_quotes c \<and> c \<noteq> CHR 0x5C"
  unfolding shlex_safe_def shlex_whitespace_def shlex_quotes_def Let_def by auto

lemma lex_safe_run:
  "list_all shlex_safe s \<Longrightarrow>
   lex InWord esc token quoted (s @ rest) = lex InWord esc (token @ s) quoted rest"
proof (induction s arbitrary: token)
  case Nil
  then show ?case by simp
next
  case (Cons c s)
  then have "\<not> shlex_whitespace c \<and> \<not> shlex_quotes c \<and> c \<noteq> CHR 0x5C"
    by (simp add: shlex_safe_plain)
  moreover from Cons have "lex InWord esc (token @ [c]) quoted (s @ rest) =
      lex InWord esc ((token @ [c]) @ s) quoted rest"
    by simp
  ultimately show ?case by simp
qed

lemma lex_quote_body:
  "lex (InQuote CHR 0x27) esc token quoted (quote_body s @ CHR 0x27 # rest) =
     lex InWord esc (token @ s) True rest"
proof (induction s arbitrary: token quoted)
  case Nil
  show ?case by (simp add: quote_body_def)
next
  case (Cons c s)
  have body: "quote_body (c # s) =
      (if c = CHR 0x27 then [CHR 0x27, CHR 0x22, CHR 0x27, CHR 0x22, CHR 0x27] else [c]) @ quote_body s"
    by (simp add: quote_body_def)
  show ?case
  proof (cases "c = CHR 0x27")
    case True
    have "lex (InQuote CHR 0x27) esc token quoted (quote_body (c # s) @ CHR 0x27 # rest) =
        lex (InQuote CHR 0x27) esc (token @ [CHR 0x27]) True (quote_body s @ CHR 0x27 # rest)"
      unfolding body using True by (simp add: shlex_quotes_def shlex_whitespace_def)
    also have "\<dots> = lex InWord esc ((token @ [CHR 0x27]) @ s) True rest"
      by (rule Cons.IH)
    finally show ?thesis using True by simp
  next
    case False
    have "lex (InQuote CHR 0x27) esc token quoted (quote_body (c # s) @ CHR 0x27 # rest) =
        lex (InQuote CHR 0x27) esc (token @ [c]) True (quote_body s @ CHR 0x27 # rest)"
      unfolding body using False by simp
    also have "\<dots> = lex InWord esc ((token @ [c]) @ s) True rest"
      by (rule Cons.IH)
    finally show ?thesis by simp
  qed
qed

text \<open>
  A quoted string inside a word, and at the start of a word: the lexer reads back the
  string that was quoted.
\<close>

lemma lex_word_quote:
  "lex InWord esc token quoted (shlex_quote s @ rest) =
     lex InWord esc (token @ s) (quoted \<or> s = [] \<or> \<not> list_all shlex_safe s) rest"
proof (cases "s = []")
  case True
  then show ?thesis
    by (simp add: shlex_quote_def shlex_quotes_def shlex_whitespace_def)
next
  case False
  show ?thesis
  proof (cases "list_all shlex_safe s")
    case True
    with False show ?thesis by (simp add: shlex_quote_def lex_safe_run)
  next
    case unsafe: False
    have "lex InWord esc token quoted (shlex_quote s @ rest) =
        lex (InQuote CHR 0x27) esc token quoted (quote_body s @ CHR 0x27 # rest)"
      using False unsafe by (simp add: shlex_quote_def shlex_quotes_def shlex_whitespace_def)
    with unsafe show ?thesis by (simp add: lex_quote_body)
  qed
qed

lemma lex_space_quote:
  "lex InSpace esc [] False (shlex_quote s @ rest) =
     lex InWord esc s (s = [] \<or> \<not> list_all shlex_safe s) rest"
proof (cases "s = []")
  case True
  then show ?thesis
    by (simp add: shlex_quote_def shlex_quotes_def shlex_whitespace_def)
next
  case False
  then obtain c s' where s: "s = c # s'" by (cases s) auto
  show ?thesis
  proof (cases "list_all shlex_safe s")
    case True
    with s have c: "\<not> shlex_whitespace c \<and> \<not> shlex_quotes c \<and> c \<noteq> CHR 0x5C"
      and rest: "list_all shlex_safe s'"
      by (simp_all add: shlex_safe_plain)
    from True s have "lex InSpace esc [] False (shlex_quote s @ rest) =
        lex InWord esc [c] False (s' @ rest)"
      using c by (simp add: shlex_quote_def)
    also have "\<dots> = lex InWord esc ([c] @ s') False rest"
      using rest by (rule lex_safe_run)
    finally show ?thesis using True s by simp
  next
    case unsafe: False
    have "lex InSpace esc [] False (shlex_quote s @ rest) =
        lex (InQuote CHR 0x27) esc [] False (quote_body s @ CHR 0x27 # rest)"
      using False unsafe by (simp add: shlex_quote_def shlex_quotes_def shlex_whitespace_def)
    with unsafe show ?thesis by (simp add: lex_quote_body)
  qed
qed

lemma lex_word_end:
  "token \<noteq> [] \<or> quoted \<Longrightarrow> lex InWord esc token quoted [] = Some [token]"
  by simp

lemma lex_word_blank:
  "token \<noteq> [] \<or> quoted \<Longrightarrow>
   lex InWord esc token quoted (CHR '' '' # rest) =
     map_option (Cons token) (lex InSpace InSpace [] False rest)"
  by (simp add: shlex_whitespace_def emit_def)

lemma quoted_or_not_empty: "(s \<noteq> [] \<or> s = [] \<or> P) = True"
  by auto

lemma lex_space_quote_end:
  "lex InSpace esc [] False (shlex_quote s) = Some [s]"
  using lex_space_quote [of esc s "[]"] by (simp add: quoted_or_not_empty)

lemma shlex_split_wrap_bash_command:
  "shlex_split (wrap_bash_command now_ms uuid_hex command linux_user work_dir) =
     Some [''sudo'', ''chown'', ''-R'', linux_user @ '':'' @ linux_user, work_dir, ''&&'',
           ''sudo'', ''systemd-run'', ''--scope'', ''--slice=user-'' @ linux_user @ ''.slice'',
           ''--unit='' @ job_unit now_ms uuid_hex linux_user,
           ''--working-directory='' @ work_dir, ''--uid='' @ linux_user, ''--gid='' @ linux_user,
           ''--quiet'', ''bash'', ''-lc'', command]"
  unfolding wrap_bash_command_def shlex_split_def
  by (simp add: lex_space_quote lex_word_quote lex_space_quote_end shlex_whitespace_def
      shlex_quotes_def emit_def quoted_or_not_empty)

subsection \<open>Unit names\<close>

lemma show_nat_not_Nil: "show_nat n \<noteq> []"
  by (subst show_nat.simps) simp

lemma digit_nth_inject:
  assumes "i < 10" and "j < 10" and "''0123456789'' ! i = ''0123456789'' ! j"
  shows "i = j"
proof -
  have "distinct ''0123456789''" by simp
  moreover have "i < length ''0123456789''" "j < length ''0123456789''"
    using assms by simp_all
  ultimately show ?thesis using assms(3) by (simp only: nth_eq_iff_index_eq)
qed

lemma show_nat_digits: "c \<in> set (show_nat n) \<Longrightarrow> c \<in> set ''0123456789''"
proof (induction n arbitrary: c rule: show_nat.induct)
  case (1 n)
  have nth: "''0123456789'' ! k \<in> set ''0123456789''" if "k < 10" for k
    using that by (intro nth_mem) simp
  show ?case
  proof (cases "n < 10")
    case True
    with "1.prems" have "c = ''0123456789'' ! n" by (subst (asm) show_nat.simps) simp
    with nth [OF True] show ?thesis by simp
  next
    case False
    with "1.prems" have "c \<in> set (show_nat (n div 10)) \<or> c = ''0123456789'' ! (n mod 10)"
      by (subst (asm) show_nat.simps) auto
    moreover have "n mod 10 < 10" by simp
    ultimately show ?thesis using "1.IH" [OF False] nth by blast
  qed
qed

lemma show_nat_inject: "show_nat n = show_nat m \<Longrightarrow> n = m"
proof (induction n arbitrary: m rule: show_nat.induct)
  case (1 n)
  have small: "show_nat k = [''0123456789'' ! k]" if "k < 10" for k
    using that by (subst show_nat.simps) simp
  have big: "show_nat k = show_nat (k div 10) @ [''0123456789'' ! (k mod 10)]" if "\<not> k < 10" for k
    using that by (subst show_nat.simps) simp
  show ?case
  proof (cases "n < 10")
    case n: True
    show ?thesis
    proof (cases "m < 10")
      case True
      with n "1.prems" show ?thesis by (simp add: small digit_nth_inject)
    next
      case False
      with n "1.prems" have "show_nat (m div 10) = []" by (simp add: small big)
      then show ?thesis by (simp add: show_nat_not_Nil)
    qed
  next
    case n: False
    show ?thesis
    proof (cases "m < 10")
      case True
      with n "1.prems" have "show_nat (n div 10) = []" by (simp add: small big)
      then show ?thesis by (simp add: show_nat_not_Nil)
    next
      case False
      with n "1.prems" have eq: "show_nat (n div 10) = show_nat (m div 10)"
        and d: "''0123456789'' ! (n mod 10) = ''0123456789'' ! (m mod 10)"
        by (simp_all add: big)
      from eq have "n div 10 = m div 10" using "1.IH" [OF n] by blast
      moreover from d have "n mod 10 = m mod 10" by (intro digit_nth_inject) simp_all
      ultimately show ?thesis by (metis div_mult_mod_eq)
    qed
  qed
qed

lemma show_int_inject: "show_int i = show_int j \<Longrightarrow> i = j"
proof -
  assume eq: "show_int i = show_int j"
  have minus: "CHR ''-'' # show_nat a \<noteq> show_nat b" for a b
  proof
    assume "CHR ''-'' # show_nat a = show_nat b"
    then have "CHR ''-'' \<in> set (show_nat b)" by (metis list.set_intros(1))
    then have "CHR ''-'' \<in> set ''0123456789''" by (rule show_nat_digits)
    then show False by simp
  qed
  show ?thesis
  proof (cases "i < 0")
    case i: True
    show ?thesis
    proof (cases "j < 0")
      case True
      with i eq have "nat (- i) = nat (- j)" by (simp add: show_int_def show_nat_inject)
      with i True show ?thesis by simp
    next
      case False
      with i eq minus show ?thesis by (simp add: show_int_def)
    qed
  next
    case i: False
    show ?thesis
    proof (cases "j < 0")
      case True
      with i eq minus [of "nat (- j)" "nat i"] show ?thesis by (simp add: show_int_def)
    next
      case False
      with i eq have "nat i = nat j" by (simp add: show_int_def show_nat_inject)
      with i False show ?thesis by simp
    qed
  qed
qed

lemma job_unit_inject:
  assumes "length h1 \<ge> 6" and "length h2 \<ge> 6"
    and "job_unit n1 h1 linux_user = job_unit n2 h2 linux_user"
  shows "n1 = n2 \<and> take 6 h1 = take 6 h2"
proof -
  from assms(3) have "show_int n1 @ (CHR ''-'' # take 6 h1) = show_int n2 @ (CHR ''-'' # take 6 h2)"
    by (simp add: job_unit_def)
  moreover from assms(1,2) have "length (CHR ''-'' # take 6 h1) = length (CHR ''-'' # take 6 h2)"
    by simp
  ultimately have "show_int n1 = show_int n2 \<and> CHR ''-'' # take 6 h1 = CHR ''-'' # take 6 h2"
    by (metis append_eq_append_conv)
  then show ?thesis using show_int_inject by blast
qed

subsection \<open>Claim on the wrapper\<close>

text \<open>
  Claim C4. \<open>_wrap_bash_command\<close> computes a string from the command, the identity, the
  working directory and its two readings of the clock and of a random uuid, and does
  nothing else. Read back as a shell reads words (\<open>shlex.split\<close>), the string is, for every
  command, identity and directory: (a) \<open>sudo chown -R\<close> of the working directory to the
  identity as owner and group, then \<open>&&\<close>, then (b) \<open>sudo systemd-run --scope\<close> in the slice
  \<open>user-<identity>.slice\<close>, with the unit \<open>job-<identity>-<milliseconds>-<six hex digits>\<close>,
  the working directory, the identity as uid and gid, and \<open>bash -lc\<close> with the raw command
  as one single word, whatever characters it has. Two calls for the same identity give
  the same unit name only if they read the same millisecond and the same six hex digits.
\<close>

theorem C4_wrap_bash_command:
  "shlex_split (wrap_bash_command now_ms uuid_hex command linux_user work_dir) =
     Some [''sudo'', ''chown'', ''-R'', linux_user @ '':'' @ linux_user, work_dir, ''&&'',
           ''sudo'', ''systemd-run'', ''--scope'', ''--slice=user-'' @ linux_user @ ''.slice'',
           ''--unit='' @ job_unit now_ms uuid_hex linux_user,
           ''--working-directory='' @ work_dir, ''--uid='' @ linux_user, ''--gid='' @ linux_user,
           ''--quiet'', ''bash'', ''-lc'', command]
   \<and> (length uuid_hex \<ge> 6 \<and> length uuid_hex' \<ge> 6 \<and>
        job_unit now_ms uuid_hex linux_user = job_unit now_ms' uuid_hex' linux_user \<longrightarrow>
        now_ms = now_ms' \<and> take 6 uuid_hex = take 6 uuid_hex')"
  using shlex_split_wrap_bash_command [of now_ms uuid_hex command linux_user work_dir]
    job_unit_inject [of uuid_hex uuid_hex' now_ms linux_user now_ms']
  by blast

text \<open>
  The theorem for a command with blanks, quotes and a dollar sign, and for two calls in
  the same millisecond with different uuids.
\<close>

theorem C4_wrap_bash_command_witness:
  "shlex_split (wrap_bash_command 17 ''abcdef0123'' ''echo 'a b' $HOME'' ''queenab'' ''/home/queen/userid_ab/x'') =
     Some [''sudo'', ''chown'', ''-R'', ''queenab:queenab'', ''/home/queen/userid_ab/x'', ''&&'',
           ''sudo'', ''systemd-run'', ''--scope'', ''--slice=user-queenab.slice'',
           ''--unit=job-queenab-17-abcdef'',
           ''--working-directory=/home/queen/userid_ab/x'', ''--uid=queenab'', ''--gid=queenab'',
           ''--quiet'', ''bash'', ''-lc'', ''echo 'a b' $HOME'']
   \<and> job_unit 17 ''abcdef0123'' ''queenab'' \<noteq> job_unit 17 ''abcde10123'' ''queenab''"
proof -
  have six: "length ''abcdef0123'' \<ge> 6 \<and> length ''abcde10123'' \<ge> 6" by simp
  have differ: "take 6 ''abcdef0123'' \<noteq> take 6 ''abcde10123''" by simp
  have unit: "job_unit 17 ''abcdef0123'' ''queenab'' = ''job-queenab-17-abcdef''"
    by (simp add: job_unit_def show_int_def show_nat.simps)
  from C4_wrap_bash_command [of 17 "''abcdef0123''" "''echo 'a b' $HOME''" "''queenab''"
      "''/home/queen/userid_ab/x''" "''abcde10123''" 17] six differ
  show ?thesis by (auto simp: unit)
qed

subsection \<open>Claim on commands that are already wrapped\<close>

lemma length_quote_body: "length s \<le> length (quote_body s)"
  by (induction s) (simp_all add: quote_body_def)

lemma length_shlex_quote: "length s \<le> length (shlex_quote s)"
  using length_quote_body [of s] by (simp add: shlex_quote_def)

lemma wrap_bash_command_longer:
  "length command < length (wrap_bash_command now_ms uuid_hex command linux_user work_dir)"
  using length_shlex_quote [of command] by (simp add: wrap_bash_command_def)

lemma wrap_bash_command_not_empty:
  "wrap_bash_command now_ms uuid_hex command linux_user work_dir \<noteq> []"
  by (simp add: wrap_bash_command_def)

lemma handler_wraps_bash:
  assumes "FIREWALL_ENABLED h" and "os_name h \<noteq> ''nt''"
    and "extract_user_id work_dir = Some uid" and "to_linux_user h uid \<noteq> []"
    and "map_of input_data ''command'' = Some command" and "command \<noteq> []"
  shows "build_tool_permission_handler h work_dir now_ms uuid_hex ''Bash'' input_data =
           allow_permission_result h
             (AList.update ''command''
                (wrap_bash_command now_ms uuid_hex command (to_linux_user h uid) work_dir)
                input_data)"
  using assms by (simp add: build_tool_permission_handler_def Let_def truthy_def)

text \<open>
  Claim C3, as the code has it. On a host other than Windows, with the firewall enabled
  and a Linux user for the working directory, the Bash permission path makes no
  difference between commands: the handler never consults \<open>_is_allowed_wrapped_command\<close>.
  For every non-empty command it builds its allowing answer from the input with the
  command replaced by the wrapped command, which differs from the command given, so that
  every input the answer hands on holds the wrapped command. No command is treated as
  already isolated, whatever marker text for whatever identity or directory it embeds,
  and for a command that is itself the output of the wrapper the answer is built from
  that command wrapped a second time.
\<close>

theorem C3_bash_always_wrapped:
  assumes "FIREWALL_ENABLED h" and "os_name h \<noteq> ''nt''"
    and "extract_user_id work_dir = Some uid" and "to_linux_user h uid \<noteq> []"
    and "map_of input_data ''command'' = Some command" and "command \<noteq> []"
  shows "build_tool_permission_handler h work_dir now_ms uuid_hex ''Bash'' input_data =
           allow_permission_result h
             (AList.update ''command''
                (wrap_bash_command now_ms uuid_hex command (to_linux_user h uid) work_dir)
                input_data)
         \<and> updated_input_of (build_tool_permission_handler h work_dir now_ms uuid_hex ''Bash'' input_data)
             \<in> {None,
                 Some (AList.update ''command''
                         (wrap_bash_command now_ms uuid_hex command (to_linux_user h uid) work_dir)
                         input_data)}
         \<and> wrap_bash_command now_ms uuid_hex command (to_linux_user h uid) work_dir \<noteq> command
         \<and> build_tool_permission_handler h work_dir now_ms' uuid_hex' ''Bash''
              [(''command'', wrap_bash_command now_ms uuid_hex command (to_linux_user h uid) work_dir)]
            = allow_permission_result h
                [(''command'',
                  wrap_bash_command now_ms' uuid_hex'
                    (wrap_bash_command now_ms uuid_hex command (to_linux_user h uid) work_dir)
                    (to_linux_user h uid) work_dir)]
         \<and> updated_input_of (build_tool_permission_handler h work_dir now_ms' uuid_hex' ''Bash''
              [(''command'', wrap_bash_command now_ms uuid_hex command (to_linux_user h uid) work_dir)])
             \<in> {None,
                 Some [(''command'',
                   wrap_bash_command now_ms' uuid_hex'
                     (wrap_bash_command now_ms uuid_hex command (to_linux_user h uid) work_dir)
                     (to_linux_user h uid) work_dir)]}"
proof -
  let ?wrapped = "wrap_bash_command now_ms uuid_hex command (to_linux_user h uid) work_dir"
  let ?again = "wrap_bash_command now_ms' uuid_hex' ?wrapped (to_linux_user h uid) work_dir"
  have once: "build_tool_permission_handler h work_dir now_ms uuid_hex ''Bash'' input_data =
      allow_permission_result h (AList.update ''command'' ?wrapped input_data)"
    using assms by (rule handler_wraps_bash)
  have once_in: "updated_input_of (build_tool_permission_handler h work_dir now_ms uuid_hex ''Bash'' input_data)
      \<in> {None, Some (AList.update ''command'' ?wrapped input_data)}"
    unfolding once using allow_permission_result_hands_on by (rule conjunct2)
  have differs: "?wrapped \<noteq> command"
    using wrap_bash_command_longer [of command now_ms uuid_hex "to_linux_user h uid" work_dir]
    by auto
  have "map_of [(''command'', ?wrapped)] ''command'' = Some ?wrapped" by simp
  with assms(1-4) have "build_tool_permission_handler h work_dir now_ms' uuid_hex' ''Bash''
      [(''command'', ?wrapped)] =
      allow_permission_result h (AList.update ''command'' ?again [(''command'', ?wrapped)])"
    using wrap_bash_command_not_empty by (rule handler_wraps_bash)
  then have twice: "build_tool_permission_handler h work_dir now_ms' uuid_hex' ''Bash''
      [(''command'', ?wrapped)] = allow_permission_result h [(''command'', ?again)]"
    by simp
  have twice_in: "updated_input_of (build_tool_permission_handler h work_dir now_ms' uuid_hex' ''Bash''
      [(''command'', ?wrapped)]) \<in> {None, Some [(''command'', ?again)]}"
    unfolding twice using allow_permission_result_hands_on by (rule conjunct2)
  from once once_in differs twice twice_in show ?thesis by blast
qed

text \<open>
  The theorem for the working directory \<open>/home/queen/userid_ab/agent1\<close> and a raw command
  that embeds the wrapper's marker text for another identity. On a host without the
  SDK's modules the answer is the dictionary with the command wrapped like any other; on
  a host whose class takes \<open>updated_input\<close> the answer is the instance made without
  arguments, as for any other command.
\<close>

theorem C3_bash_always_wrapped_witness:
  "build_tool_permission_handler
     \<lparr>FIREWALL_ENABLED = True, LINUX_USER_PREFIX = ''queen'', os_name = ''posix'',
      work_base_dir = ''/home/queen'', getcwd = ''/srv/app'', import_module = (\<lambda>name. None)\<rparr>
     ''/home/queen/userid_ab/agent1'' 17 ''abcdef0123'' ''Bash''
     [(''command'', ''sudo systemd-run --scope --slice=user-queencd.slice bash -lc id'')]
   = AllowDict [(''command'',
       wrap_bash_command 17 ''abcdef0123''
         ''sudo systemd-run --scope --slice=user-queencd.slice bash -lc id''
         ''queenab'' ''/home/queen/userid_ab/agent1'')]
   \<and> build_tool_permission_handler
     \<lparr>FIREWALL_ENABLED = True, LINUX_USER_PREFIX = ''queen'', os_name = ''posix'',
      work_base_dir = ''/home/queen'', getcwd = ''/srv/app'',
      import_module = (\<lambda>name. if name = ''claude_agent_sdk''
         then Some \<lparr>PermissionResultAllow = Some
                \<lparr>signature_parameters = Some [''behavior'', ''updated_input'', ''updated_permissions''],
                 constructs = (\<lambda>call. True)\<rparr>\<rparr>
         else None)\<rparr>
     ''/home/queen/userid_ab/agent1'' 17 ''abcdef0123'' ''Bash''
     [(''command'', ''sudo systemd-run --scope --slice=user-queencd.slice bash -lc id'')]
   = AllowInstance ''claude_agent_sdk'' NoArguments"
proof -
  let ?h = "\<lparr>FIREWALL_ENABLED = True, LINUX_USER_PREFIX = ''queen'', os_name = ''posix'',
      work_base_dir = ''/home/queen'', getcwd = ''/srv/app'', import_module = (\<lambda>name. None)\<rparr>"
  let ?g = "\<lparr>FIREWALL_ENABLED = True, LINUX_USER_PREFIX = ''queen'', os_name = ''posix'',
      work_base_dir = ''/home/queen'', getcwd = ''/srv/app'',
      import_module = (\<lambda>name. if name = ''claude_agent_sdk''
         then Some \<lparr>PermissionResultAllow = Some
                \<lparr>signature_parameters = Some [''behavior'', ''updated_input'', ''updated_permissions''],
                 constructs = (\<lambda>call. True)\<rparr>\<rparr>
         else None)\<rparr>"
  let ?wd = "''/home/queen/userid_ab/agent1''"
  let ?cmd = "''sudo systemd-run --scope --slice=user-queencd.slice bash -lc id''"
  have on: "FIREWALL_ENABLED ?h" "FIREWALL_ENABLED ?g"
    and os: "os_name ?h \<noteq> ''nt''" "os_name ?g \<noteq> ''nt''" by simp_all
  have uid: "extract_user_id ?wd = Some ''ab''" by code_simp
  have user: "to_linux_user ?h ''ab'' = ''queenab''" "to_linux_user ?g ''ab'' = ''queenab''"
    by (simp_all add: to_linux_user_def py_lower_def py_lower_char_def py_isalnum_def)
  then have user_ne: "to_linux_user ?h ''ab'' \<noteq> []" "to_linux_user ?g ''ab'' \<noteq> []" by simp_all
  have cmd: "map_of [(''command'', ?cmd)] ''command'' = Some ?cmd" by simp
  have ne: "?cmd \<noteq> []" by simp
  have dict: "allow_permission_result ?h d = AllowDict d" for d
    by (simp add: allow_permission_result_def)
  have inst: "allow_permission_result ?g d = AllowInstance ''claude_agent_sdk'' NoArguments" for d
    by (simp add: allow_permission_result_def try_allow_class_def)
  from C3_bash_always_wrapped [OF on(1) os(1) uid user_ne(1) cmd ne, where now_ms = 17 and uuid_hex = "''abcdef0123''"]
  have "build_tool_permission_handler ?h ?wd 17 ''abcdef0123'' ''Bash'' [(''command'', ?cmd)] =
      allow_permission_result ?h (AList.update ''command''
        (wrap_bash_command 17 ''abcdef0123'' ?cmd (to_linux_user ?h ''ab'') ?wd) [(''command'', ?cmd)])"
    by (rule conjunct1)
  then have first: "build_tool_permission_handler ?h ?wd 17 ''abcdef0123'' ''Bash'' [(''command'', ?cmd)] =
      AllowDict [(''command'', wrap_bash_command 17 ''abcdef0123'' ?cmd ''queenab'' ?wd)]"
    by (simp only: dict user(1)) simp
  from C3_bash_always_wrapped [OF on(2) os(2) uid user_ne(2) cmd ne, where now_ms = 17 and uuid_hex = "''abcdef0123''"]
  have "build_tool_permission_handler ?g ?wd 17 ''abcdef0123'' ''Bash'' [(''command'', ?cmd)] =
      allow_permission_result ?g (AList.update ''command''
        (wrap_bash_command 17 ''abcdef0123'' ?cmd (to_linux_user ?g ''ab'') ?wd) [(''command'', ?cmd)])"
    by (rule conjunct1)
  then have second: "build_tool_permission_handler ?g ?wd 17 ''abcdef0123'' ''Bash'' [(''command'', ?cmd)] =
      AllowInstance ''claude_agent_sdk'' NoArguments"
    by (simp only: inst)
  from first second show ?thesis by (rule conjI)
qed

text \<open>
  The claim as the specification words it fails on the wrapper's own output. The command
  \<open>ls\<close>, wrapped for the identity \<open>queenab\<close> and the working directory, is given to the
  handler for the same identity and directory. The marker check does not recognize it:
  \<open>_is_allowed_wrapped_command\<close> is false on it, since it looks for a \<open>cd <directory>\<close> that the
  wrapper does not write. On a host without the SDK's modules the command comes back in
  the dictionary wrapped a second time, a string different from the one given. On a host
  whose class takes \<open>updated_input\<close> the answer is the one that the raw command \<open>ls\<close> gets
  too, the instance made without arguments.
\<close>

theorem C3_wrapped_command_wrapped_again:
  "\<not> is_allowed_wrapped_command
         (wrap_bash_command 17 ''abcdef0123'' ''ls'' ''queenab'' ''/home/queen/userid_ab/agent1'')
         ''queenab'' ''/home/queen/userid_ab/agent1''
   \<and> build_tool_permission_handler
     \<lparr>FIREWALL_ENABLED = True, LINUX_USER_PREFIX = ''queen'', os_name = ''posix'',
      work_base_dir = ''/home/queen'', getcwd = ''/srv/app'', import_module = (\<lambda>name. None)\<rparr>
     ''/home/queen/userid_ab/agent1'' 18 ''0123456789'' ''Bash''
     [(''command'',
       wrap_bash_command 17 ''abcdef0123'' ''ls'' ''queenab'' ''/home/queen/userid_ab/agent1'')]
   = AllowDict [(''command'',
       wrap_bash_command 18 ''0123456789''
         (wrap_bash_command 17 ''abcdef0123'' ''ls'' ''queenab'' ''/home/queen/userid_ab/agent1'')
         ''queenab'' ''/home/queen/userid_ab/agent1'')]
   \<and> wrap_bash_command 18 ''0123456789''
         (wrap_bash_command 17 ''abcdef0123'' ''ls'' ''queenab'' ''/home/queen/userid_ab/agent1'')
         ''queenab'' ''/home/queen/userid_ab/agent1''
       \<noteq> wrap_bash_command 17 ''abcdef0123'' ''ls'' ''queenab'' ''/home/queen/userid_ab/agent1''
   \<and> build_tool_permission_handler
     \<lparr>FIREWALL_ENABLED = True, LINUX_USER_PREFIX = ''queen'', os_name = ''posix'',
      work_base_dir = ''/home/queen'', getcwd = ''/srv/app'',
      import_module = (\<lambda>name. if name = ''claude_agent_sdk''
         then Some \<lparr>PermissionResultAllow = Some
                \<lparr>signature_parameters = Some [''behavior'', ''updated_input'', ''updated_permissions''],
                 constructs = (\<lambda>call. True)\<rparr>\<rparr>
         else None)\<rparr>
     ''/home/queen/userid_ab/agent1'' 18 ''0123456789'' ''Bash''
     [(''command'',
       wrap_bash_command 17 ''abcdef0123'' ''ls'' ''queenab'' ''/home/queen/userid_ab/agent1'')]
   = build_tool_permission_handler
     \<lparr>FIREWALL_ENABLED = True, LINUX_USER_PREFIX = ''queen'', os_name = ''posix'',
      work_base_dir = ''/home/queen'', getcwd = ''/srv/app'',
      import_module = (\<lambda>name. if name = ''claude_agent_sdk''
         then Some \<lparr>PermissionResultAllow = Some
                \<lparr>signature_parameters = Some [''behavior'', ''updated_input'', ''updated_permissions''],
                 constructs = (\<lambda>call. True)\<rparr>\<rparr>
         else None)\<rparr>
     ''/home/queen/userid_ab/agent1'' 18 ''0123456789'' ''Bash'' [(''command'', ''ls'')]"
  by code_simp

section \<open>The command exchange: lemmas and theorems\<close>

subsection \<open>What the steps of an exchange leave unchanged\<close>

lemma query_texts_append: "query_texts (xs @ ys) = query_texts xs @ query_texts ys"
  by (induction xs rule: query_texts.induct) simp_all

lemma query_texts_log_call:
  "query_texts (calls_on (log_call a c m) x) =
     query_texts (calls_on m x) @ (if x = a then query_texts [c] else [])"
  by (simp add: calls_on_log_call query_texts_append)

lemma query_texts_force_kill:
  "query_texts (calls_on (force_kill_cli_process client a m) x) = query_texts (calls_on m x)"
  by (simp add: force_kill_cli_process_def Let_def query_texts_log_call
      split: option.splits outcome.splits)

lemma query_texts_close_agent_client:
  "query_texts (calls_on (snd (close_agent_client m a)) x) = query_texts (calls_on m x)"
proof (cases "map_of (clients m) a")
  case None
  then show ?thesis by (simp add: close_agent_client_unregistered)
next
  case (Some client)
  let ?m2 = "case close client of None \<Rightarrow> log_call a CallDisconnect m
       | Some r \<Rightarrow> log_call a CallClose (log_call a CallDisconnect m)"
  have "calls_on (snd (close_agent_client m a)) x = calls_on (force_kill_cli_process client a ?m2) x"
    unfolding close_agent_client_registered [OF Some] by (rule calls_on_cong) simp
  moreover have "query_texts (calls_on ?m2 x) = query_texts (calls_on m x)"
    by (cases "close client") (simp_all add: query_texts_log_call)
  ultimately show ?thesis by (simp add: query_texts_force_kill)
qed

lemma query_texts_ensure_client_connected:
  "query_texts (calls_on (snd (ensure_client_connected now m a)) x) = query_texts (calls_on m x)"
proof -
  have upd: "calls_on (m'\<lparr>client_connected := cc, agent_last_active := la\<rparr>) x = calls_on m' x"
    for m' cc la
    by (rule calls_on_cong) simp
  have upd1: "calls_on (m\<lparr>agent_last_active := la\<rparr>) x = calls_on m x" for la
    by (rule calls_on_cong) simp
  show ?thesis
    by (simp add: ensure_client_connected_def upd upd1 query_texts_log_call
        split: option.splits outcome.splits)
qed

lemma queries_sent_manager:
  "query_texts (calls_on m' a) = query_texts (calls_on (manager w) a) \<Longrightarrow>
   queries_sent (w\<lparr>manager := m'\<rparr>) a = queries_sent w a"
  by (simp add: queries_sent_def)

lemma save_message_fields [simp]:
  "manager (save_message w sid sender kind body mtype meta) = manager w"
  "chat_sessions (save_message w sid sender kind body mtype meta) = chat_sessions w"
  "client_factory (save_message w sid sender kind body mtype meta) = client_factory w"
  by (simp_all add: save_message_def)

lemma log_progress_fields [simp]:
  "manager (log_progress w sid a body subtype) = manager w"
  "chat_sessions (log_progress w sid a body subtype) = chat_sessions w"
  "client_factory (log_progress w sid a body subtype) = client_factory w"
  by (simp_all add: log_progress_def)

lemma update_session_claude_id_fields [simp]:
  "manager (update_session_claude_id w sid token) = manager w"
  "chat_messages (update_session_claude_id w sid token) = chat_messages w"
  "client_factory (update_session_claude_id w sid token) = client_factory w"
  by (simp_all add: update_session_claude_id_def)

lemma error_messages_log_progress [simp]:
  "error_messages (log_progress w sid a body subtype) = error_messages w"
  by (simp add: error_messages_def log_progress_def save_message_def)

lemma error_messages_update_session [simp]:
  "error_messages (update_session_claude_id w sid token) = error_messages w"
  by (simp add: error_messages_def)

lemma error_messages_cong: "chat_messages w' = chat_messages w \<Longrightarrow> error_messages w' = error_messages w"
  by (simp add: error_messages_def)

lemma map_of_update_session:
  "map_of (chat_sessions (update_session_claude_id w sid token)) k =
     (if k = sid then map_option (\<lambda>s. s\<lparr>session_claude_id := token\<rparr>) (map_of (chat_sessions w) k)
      else map_of (chat_sessions w) k)"
proof -
  have h: "map_of (map (\<lambda>(k, s). if k = sid then (k, s\<lparr>session_claude_id := token\<rparr>) else (k, s)) xs) k =
      (if k = sid then map_option (\<lambda>s. s\<lparr>session_claude_id := token\<rparr>) (map_of xs k)
       else map_of xs k)" for xs
    by (induction xs) auto
  have "chat_sessions (update_session_claude_id w sid token) =
      map (\<lambda>(k, s). if k = sid then (k, s\<lparr>session_claude_id := token\<rparr>) else (k, s))
        (chat_sessions w)"
    by (simp add: update_session_claude_id_def)
  then show ?thesis by (simp only: h)
qed

lemma session_user_update_session:
  "map_option session_user_id (map_of (chat_sessions (update_session_claude_id w sid token)) k) =
     map_option session_user_id (map_of (chat_sessions w) k)"
  by (simp add: map_of_update_session option.map_comp comp_def)

text \<open>The response loop touches neither the registry nor the saved error messages.\<close>

lemma handle_blocks_keeps:
  "manager (fst (handle_blocks sid a bs (w, ai, logged))) = manager w \<and>
   chat_sessions (fst (handle_blocks sid a bs (w, ai, logged))) = chat_sessions w \<and>
   client_factory (fst (handle_blocks sid a bs (w, ai, logged))) = client_factory w \<and>
   error_messages (fst (handle_blocks sid a bs (w, ai, logged))) = error_messages w"
proof (induction bs arbitrary: w ai logged)
  case Nil
  show ?case by simp
next
  case (Cons b bs)
  show ?case by (cases b) (simp_all add: Cons.IH)
qed

lemma receive_loop_keeps:
  "manager (fst (snd (receive_loop sid a msgs (w, token, ai, logged)))) = manager w \<and>
   client_factory (fst (snd (receive_loop sid a msgs (w, token, ai, logged)))) = client_factory w \<and>
   error_messages (fst (snd (receive_loop sid a msgs (w, token, ai, logged)))) = error_messages w \<and>
   map_option session_user_id
     (map_of (chat_sessions (fst (snd (receive_loop sid a msgs (w, token, ai, logged))))) k) =
   map_option session_user_id (map_of (chat_sessions w) k)"
proof (induction msgs arbitrary: w token ai logged)
  case Nil
  show ?case by simp
next
  case (Cons msg msgs)
  let ?reported = "truthy (message_session_id msg)"
  let ?changed = "?reported \<noteq> None \<and> ?reported \<noteq> token"
  let ?w1 = "if ?changed then update_session_claude_id w sid ?reported else w"
  let ?token1 = "if ?changed then ?reported else token"
  have w1: "manager ?w1 = manager w \<and> client_factory ?w1 = client_factory w \<and>
      error_messages ?w1 = error_messages w \<and>
      map_option session_user_id (map_of (chat_sessions ?w1) k) =
        map_option session_user_id (map_of (chat_sessions w) k)"
    by (simp add: session_user_update_session)
  show ?case
  proof (cases msg)
    case (AssistantMessage s blocks)
    obtain w2 ai2 logged2 where hb: "handle_blocks sid a blocks (?w1, ai, logged) = (w2, ai2, logged2)"
      by (cases "handle_blocks sid a blocks (?w1, ai, logged)") auto
    from handle_blocks_keeps [of sid a blocks ?w1 ai logged] hb
    have w2: "manager w2 = manager ?w1 \<and> chat_sessions w2 = chat_sessions ?w1 \<and>
        client_factory w2 = client_factory ?w1 \<and> error_messages w2 = error_messages ?w1"
      by simp
    have step: "receive_loop sid a (msg # msgs) (w, token, ai, logged) =
        receive_loop sid a msgs (w2, ?token1, ai2, logged2)"
      using hb unfolding AssistantMessage
      by (simp only: receive_loop.simps Let_def sdk_message.case prod.case)
    from Cons.IH [of w2 ?token1 ai2 logged2] w1 w2 show ?thesis
      unfolding step by simp
  next
    case (ResultMessage s subtype result)
    have "fst (snd (receive_loop sid a (msg # msgs) (w, token, ai, logged))) =
        (if (case truthy subtype of None \<Rightarrow> ''success'' | Some t \<Rightarrow> t) = ''error''
         then log_progress ?w1 sid a (TaskFailed result) ''error'' else ?w1)"
      unfolding ResultMessage
      by (simp only: receive_loop.simps Let_def sdk_message.case prod.case fst_conv snd_conv)
    with w1 show ?thesis by simp
  next
    case (OtherMessage s)
    have step: "receive_loop sid a (msg # msgs) (w, token, ai, logged) =
        receive_loop sid a msgs (?w1, ?token1, ai, logged)"
      unfolding OtherMessage
      by (simp only: receive_loop.simps Let_def sdk_message.case prod.case)
    from Cons.IH [of ?w1 ?token1 ai logged] w1 show ?thesis
      unfolding step by simp
  qed
qed

lemma clients_ensure_client_connected [simp]:
  "clients (snd (ensure_client_connected now m a)) = clients m"
  by (simp add: ensure_client_connected_def split: option.splits outcome.splits)

lemma exchange_keeps:
  "queries_sent (snd (exchange env w sid a client message token)) a = queries_sent w a @ [message] \<and>
   error_messages (snd (exchange env w sid a client message token)) = error_messages w \<and>
   clients (manager (snd (exchange env w sid a client message token))) = clients (manager w) \<and>
   client_factory (snd (exchange env w sid a client message token)) = client_factory w \<and>
   map_option session_user_id (map_of (chat_sessions (snd (exchange env w sid a client message token))) k) =
     map_option session_user_id (map_of (chat_sessions w) k)"
proof -
  let ?m1 = "snd (ensure_client_connected (clock env) (manager w) a)"
  let ?w2 = "w\<lparr>manager := log_call a (CallQuery message) ?m1\<rparr>"
  have q2: "queries_sent ?w2 a = queries_sent w a @ [message]"
    by (simp add: queries_sent_def query_texts_log_call query_texts_ensure_client_connected)
  have e2: "error_messages ?w2 = error_messages w" by (rule error_messages_cong) simp
  have c2: "clients (manager ?w2) = clients (manager w)" by simp
  have f2: "client_factory ?w2 = client_factory w" by simp
  have s2: "chat_sessions ?w2 = chat_sessions w" by simp
  show ?thesis
  proof (cases "query client")
    case (Raises e)
    then have "snd (exchange env w sid a client message token) = ?w2"
      by (simp add: exchange_def Let_def)
    with q2 e2 c2 f2 s2 show ?thesis by simp
  next
    case Returns
    let ?w3 = "log_progress ?w2 sid a DeepThinking ''thinking''"
    obtain broke w4 token' ai logged where
      loop: "receive_loop sid a (fst (receive_response client)) (?w3, token, [], False) =
        (broke, w4, token', ai, logged)"
      by (cases "receive_loop sid a (fst (receive_response client)) (?w3, token, [], False)") auto
    from receive_loop_keeps [of sid a "fst (receive_response client)" ?w3 token "[]" False k] loop
    have w4: "manager w4 = manager ?w2" "client_factory w4 = client_factory w"
      "error_messages w4 = error_messages w"
      "map_option session_user_id (map_of (chat_sessions w4) k) =
        map_option session_user_id (map_of (chat_sessions w) k)"
      using e2 by simp_all
    have "snd (exchange env w sid a client message token) = w4 \<or>
        snd (exchange env w sid a client message token) =
          save_message w4 sid a ''ai'' (Text ai) ''text'' None"
      using Returns loop by (simp add: exchange_def Let_def)
    moreover have "queries_sent w4 a = queries_sent w a @ [message]"
      using w4(1) q2 by (simp add: queries_sent_def)
    moreover have "queries_sent (save_message w4 sid a ''ai'' (Text ai) ''text'' None) a =
        queries_sent w4 a"
      by (simp add: queries_sent_def)
    moreover have "error_messages (save_message w4 sid a ''ai'' (Text ai) ''text'' None) =
        error_messages w4"
      by (simp add: error_messages_def save_message_def)
    ultimately show ?thesis using w4 by auto
  qed
qed

lemma create_agent_client_keeps:
  "queries_sent (snd (create_agent_client env w a work_dir token)) x = queries_sent w x \<and>
   chat_sessions (snd (create_agent_client env w a work_dir token)) = chat_sessions w \<and>
   chat_messages (snd (create_agent_client env w a work_dir token)) = chat_messages w"
proof -
  let ?m1 = "if map_of (clients (manager w)) a \<noteq> None
             then snd (close_agent_client (manager w) a) else manager w"
  have m1: "query_texts (calls_on ?m1 x) = query_texts (calls_on (manager w) x)"
    by (simp add: query_texts_close_agent_client)
  have upd: "calls_on (m\<lparr>clients := c, client_options := opt, client_connected := cc,
      agent_last_active := la\<rparr>) x = calls_on m x" for m c opt cc la
    by (rule calls_on_cong) simp
  show ?thesis
  proof (cases "client_factory w")
    case Nil
    then show ?thesis
      by (simp add: create_agent_client_def Let_def queries_sent_def query_texts_close_agent_client)
  next
    case (Cons made later)
    then show ?thesis
      by (cases made)
         (simp_all add: create_agent_client_def Let_def queries_sent_def upd
           query_texts_close_agent_client)
  qed
qed

lemma ensure_agent_client_keeps:
  "queries_sent (snd (ensure_agent_client env w a user token)) x = queries_sent w x \<and>
   chat_sessions (snd (ensure_agent_client env w a user token)) = chat_sessions w \<and>
   chat_messages (snd (ensure_agent_client env w a user token)) = chat_messages w"
proof -
  let ?options = "map_of (client_options (manager w)) a"
  let ?adopted = "w\<lparr>manager := (manager w)\<lparr>client_options :=
      AList.update a ((the ?options)\<lparr>resume := token\<rparr>) (client_options (manager w))\<rparr>\<rparr>"
  have adopted: "queries_sent ?adopted x = queries_sent w x \<and> chat_sessions ?adopted = chat_sessions w \<and>
      chat_messages ?adopted = chat_messages w"
    by (simp add: queries_sent_def calls_on_def)
  have closed: "queries_sent (v\<lparr>manager := snd (close_agent_client (manager v) a)\<rparr>) x = queries_sent v x \<and>
      chat_sessions (v\<lparr>manager := snd (close_agent_client (manager v) a)\<rparr>) = chat_sessions v \<and>
      chat_messages (v\<lparr>manager := snd (close_agent_client (manager v) a)\<rparr>) = chat_messages v" for v
    by (simp add: queries_sent_def query_texts_close_agent_client)
  note created = create_agent_client_keeps
  show ?thesis
    unfolding ensure_agent_client_def Let_def
    using adopted closed [of w] closed [of ?adopted] created
    by (auto split: option.splits)
qed

lemma ensure_agent_client_registered:
  "ensure_agent_client env w a user token = (Some client, w') \<Longrightarrow>
   map_of (clients (manager w')) a = Some client"
  unfolding ensure_agent_client_def Let_def
  by (auto split: option.splits if_splits)

text \<open>Creating a client where none is registered, and finding it again.\<close>

lemma ensure_agent_client_fresh:
  assumes "map_of (clients (manager w)) a = None" and "client_factory w = Some client # later"
  shows "ensure_agent_client env w a user None =
    (Some client,
     w\<lparr>manager := (manager w)
         \<lparr>clients := AList.update a client (clients (manager w)),
          client_options := AList.update a
             \<lparr>resume = None,
              cwd = (case truthy (agent_settings_work_dir env a) of
                       Some custom \<Rightarrow> custom | None \<Rightarrow> default_agent_work_dir env user a)\<rparr>
             (client_options (manager w)),
          client_connected := AList.update a False (client_connected (manager w)),
          agent_last_active := AList.update a (clock env) (agent_last_active (manager w))\<rparr>,
       client_factory := later\<rparr>)"
  using assms
  by (cases "truthy (agent_settings_work_dir env a)")
     (simp_all add: ensure_agent_client_def create_agent_client_def Let_def update_conv')

lemma ensure_agent_client_reuse:
  assumes "map_of (clients (manager w)) a = Some client"
    and "map_of (client_options (manager w)) a = Some opts"
    and "cwd opts = (case truthy (agent_settings_work_dir env a) of
                       Some custom \<Rightarrow> custom | None \<Rightarrow> fallback)"
  shows "ensure_agent_client env w a user None = (Some client, w)"
  using assms
  by (cases "truthy (agent_settings_work_dir env a)")
     (simp_all add: ensure_agent_client_def Let_def truthy_def)

lemma close_in_world_keeps:
  "queries_sent (v\<lparr>manager := snd (close_agent_client (manager v) a)\<rparr>) x = queries_sent v x"
  by (simp add: queries_sent_def query_texts_close_agent_client)

lemma reinitialize_agent_keeps:
  "queries_sent (reinitialize_agent env w sid a user) x = queries_sent w x \<and>
   chat_messages (reinitialize_agent env w sid a user) = chat_messages w"
proof -
  let ?w1 = "w\<lparr>manager := snd (close_agent_client (manager w) a)\<rparr>"
  let ?w2 = "update_session_claude_id ?w1 sid None"
  have "queries_sent ?w2 x = queries_sent w x"
    using close_in_world_keeps [of w a x] by (simp add: queries_sent_def)
  moreover have "chat_messages ?w2 = chat_messages w" by simp
  ultimately show ?thesis
    using ensure_agent_client_keeps [of env ?w2 a user None x]
    by (simp add: reinitialize_agent_def Let_def)
qed

text \<open>
  \<open>_ensure_agent_client\<close> without a resume token for an agent that has no registered
  client: it takes the next client of the constructor, if there is one.
\<close>

lemma ensure_agent_client_absent:
  assumes "map_of (clients (manager v)) a = None"
  shows "ensure_agent_client env v a user None =
    (case client_factory v of
       [] \<Rightarrow> (None, v)
     | None # later \<Rightarrow> (None, v\<lparr>client_factory := later\<rparr>)
     | Some client # later \<Rightarrow>
         (Some client,
          v\<lparr>manager := (manager v)
              \<lparr>clients := AList.update a client (clients (manager v)),
               client_options := AList.update a
                  \<lparr>resume = None,
                   cwd = (case truthy (agent_settings_work_dir env a) of
                            Some custom \<Rightarrow> custom | None \<Rightarrow> default_agent_work_dir env user a)\<rparr>
                  (client_options (manager v)),
               client_connected := AList.update a False (client_connected (manager v)),
               agent_last_active := AList.update a (clock env) (agent_last_active (manager v))\<rparr>,
             client_factory := later\<rparr>))"
proof (cases "client_factory v")
  case Nil
  with assms show ?thesis
    by (simp add: ensure_agent_client_def create_agent_client_def Let_def)
next
  case (Cons first later)
  show ?thesis
  proof (cases first)
    case None
    with Cons assms show ?thesis
      by (simp add: ensure_agent_client_def create_agent_client_def Let_def)
  next
    case (Some client)
    with Cons have "client_factory v = Some client # later" by simp
    with assms have "ensure_agent_client env v a user None =
      (Some client,
       v\<lparr>manager := (manager v)
           \<lparr>clients := AList.update a client (clients (manager v)),
            client_options := AList.update a
               \<lparr>resume = None,
                cwd = (case truthy (agent_settings_work_dir env a) of
                         Some custom \<Rightarrow> custom | None \<Rightarrow> default_agent_work_dir env user a)\<rparr>
               (client_options (manager v)),
            client_connected := AList.update a False (client_connected (manager v)),
            agent_last_active := AList.update a (clock env) (agent_last_active (manager v))\<rparr>,
          client_factory := later\<rparr>)"
      by (rule ensure_agent_client_fresh)
    with Cons Some show ?thesis by simp
  qed
qed

text \<open>
  What that call leaves: the client it returns is the first of the constructor, the agent
  is registered afresh exactly when there is one, and no call is made on any client.
\<close>

lemma ensure_agent_client_absent_facts:
  assumes "map_of (clients (manager v)) a = None"
  shows "fst (ensure_agent_client env v a user None) =
           (case client_factory v of [] \<Rightarrow> None | first # later \<Rightarrow> first)"
    and "client_factory (snd (ensure_agent_client env v a user None)) = tl (client_factory v)"
    and "calls_on (manager (snd (ensure_agent_client env v a user None))) x = calls_on (manager v) x"
    and "registry_entry (manager (snd (ensure_agent_client env v a user None))) a =
           (case fst (ensure_agent_client env v a user None) of
              None \<Rightarrow> registry_entry (manager v) a
            | Some client \<Rightarrow>
                (Some client,
                 Some \<lparr>resume = None,
                       cwd = (case truthy (agent_settings_work_dir env a) of
                                Some custom \<Rightarrow> custom | None \<Rightarrow> default_agent_work_dir env user a)\<rparr>,
                 Some False, Some (clock env)))"
proof -
  note eq = ensure_agent_client_absent [OF assms, of env user]
  show "fst (ensure_agent_client env v a user None) =
      (case client_factory v of [] \<Rightarrow> None | first # later \<Rightarrow> first)"
    unfolding eq by (simp split: list.splits option.splits)
  show "client_factory (snd (ensure_agent_client env v a user None)) = tl (client_factory v)"
    unfolding eq by (simp split: list.splits option.splits)
  show "calls_on (manager (snd (ensure_agent_client env v a user None))) x = calls_on (manager v) x"
    unfolding eq by (simp add: calls_on_def split: list.splits option.splits)
  show "registry_entry (manager (snd (ensure_agent_client env v a user None))) a =
      (case fst (ensure_agent_client env v a user None) of
         None \<Rightarrow> registry_entry (manager v) a
       | Some client \<Rightarrow>
           (Some client,
            Some \<lparr>resume = None,
                  cwd = (case truthy (agent_settings_work_dir env a) of
                           Some custom \<Rightarrow> custom | None \<Rightarrow> default_agent_work_dir env user a)\<rparr>,
            Some False, Some (clock env)))"
    unfolding eq by (simp add: registry_entry_def update_conv' split: list.splits option.splits)
qed

text \<open>A client registered by that call is found again by the next one.\<close>

lemma ensure_agent_client_again:
  assumes "registry_entry (manager v) a =
      (Some client,
       Some \<lparr>resume = None,
             cwd = (case truthy (agent_settings_work_dir env a) of
                      Some custom \<Rightarrow> custom | None \<Rightarrow> default_agent_work_dir env user a)\<rparr>,
       Some False, Some (clock env))"
  shows "ensure_agent_client env v a user None = (Some client, v)"
proof -
  let ?opts = "\<lparr>resume = None,
      cwd = (case truthy (agent_settings_work_dir env a) of
               Some custom \<Rightarrow> custom | None \<Rightarrow> default_agent_work_dir env user a)\<rparr>"
  from assms have reg: "map_of (clients (manager v)) a = Some client"
    and opt: "map_of (client_options (manager v)) a = Some ?opts"
    by (simp_all add: registry_entry_def)
  have "cwd ?opts = (case truthy (agent_settings_work_dir env a) of
      Some custom \<Rightarrow> custom | None \<Rightarrow> default_agent_work_dir env user a)"
    by simp
  with reg opt show ?thesis by (rule ensure_agent_client_reuse)
qed

text \<open>A run with \<open>_retry=True\<close>: it returns as it is when no client can be had.\<close>

lemma process_ai_response_retry:
  assumes "map_of (chat_sessions w) sid = Some info"
    and "ensure_agent_client env w a (session_user_id info) (session_claude_id info) = (found, w1)"
  shows "process_ai_response env w sid a message True =
           (case found of
              None \<Rightarrow> w1
            | Some client \<Rightarrow>
                (case fst (exchange env w1 sid a client
                            (with_kb_context env (session_user_id info) message) (session_claude_id info)) of
                   Returns \<Rightarrow>
                     snd (exchange env w1 sid a client
                            (with_kb_context env (session_user_id info) message) (session_claude_id info))
                 | Raises e \<Rightarrow>
                     save_message
                       (snd (exchange env w1 sid a client
                              (with_kb_context env (session_user_id info) message) (session_claude_id info)))
                       sid a ''ai'' Apology ''text'' (Some ErrorFlag)))"
  using assms
  by (subst process_ai_response.simps) (simp add: Let_def split: option.splits outcome.splits)

lemma process_ai_response_first:
  assumes "map_of (chat_sessions w) sid = Some info"
    and "ensure_agent_client env w a (session_user_id info) (session_claude_id info) = (Some client, w1)"
    and "exchange env w1 sid a client (with_kb_context env (session_user_id info) message)
           (session_claude_id info) = (Raises err, w2)"
    and "is_fatal_cli_error err"
  shows "process_ai_response env w sid a message False =
           process_ai_response env (reinitialize_agent env w2 sid a (session_user_id info)) sid a
             (with_kb_context env (session_user_id info) message) True"
  using assms
  by (subst process_ai_response.simps) (simp add: Let_def)

text \<open>
  The recovery: the client is closed, the persisted token is cleared, and the constructor
  is asked for a client once, and once more by the retry when that gave none.
\<close>

lemma recovery_state:
  assumes reg: "map_of (clients (manager w2)) a = Some c1"
    and sess: "map_of (chat_sessions w2) sid = Some info2"
    and again: "ensure_agent_client env (reinitialize_agent env w2 sid a user) a user None = (found, w3)"
  shows "\<exists>new. calls_on (manager (reinitialize_agent env w2 sid a user)) a =
           calls_on (manager w2) a @ CallDisconnect # new"
    and "map_of (chat_sessions (reinitialize_agent env w2 sid a user)) sid =
           Some (info2\<lparr>session_claude_id := None\<rparr>)"
    and "found = (case client_factory w2 of
                    [] \<Rightarrow> None
                  | Some client # later \<Rightarrow> Some client
                  | None # later \<Rightarrow> (case later of [] \<Rightarrow> None | second # others \<Rightarrow> second))"
    and "registry_entry (manager w3) a =
           (case found of
              None \<Rightarrow> (None, None, None, None)
            | Some client \<Rightarrow>
                (Some client,
                 Some \<lparr>resume = None,
                       cwd = (case truthy (agent_settings_work_dir env a) of
                                Some custom \<Rightarrow> custom | None \<Rightarrow> default_agent_work_dir env user a)\<rparr>,
                 Some False, Some (clock env)))"
proof -
  let ?m1 = "snd (close_agent_client (manager w2) a)"
  let ?v = "update_session_claude_id (w2\<lparr>manager := ?m1\<rparr>) sid None"
  let ?wr = "reinitialize_agent env w2 sid a user"
  let ?fresh = "\<lambda>client. (Some client,
      Some \<lparr>resume = None,
            cwd = (case truthy (agent_settings_work_dir env a) of
                     Some custom \<Rightarrow> custom | None \<Rightarrow> default_agent_work_dir env user a)\<rparr>,
      Some False, Some (clock env))"
  have wr: "?wr = snd (ensure_agent_client env ?v a user None)"
    by (simp add: reinitialize_agent_def Let_def)
  from reg have entry_v: "registry_entry (manager ?v) a = (None, None, None, None)"
    by (simp add: close_agent_client_entry)
  then have absent_v: "map_of (clients (manager ?v)) a = None"
    by (simp add: registry_entry_def)
  have factory_v: "client_factory ?v = client_factory w2" by simp
  from reg obtain new where calls_v: "calls_on (manager ?v) a = calls_on (manager w2) a @ CallDisconnect # new"
    using close_agent_client_calls_same [of "manager w2" a] by auto
  have "map_of (chat_sessions ?v) sid =
      map_option (\<lambda>s. s\<lparr>session_claude_id := None\<rparr>) (map_of (chat_sessions (w2\<lparr>manager := ?m1\<rparr>)) sid)"
    by (simp only: map_of_update_session refl if_True)
  with sess have sess_v: "map_of (chat_sessions ?v) sid = Some (info2\<lparr>session_claude_id := None\<rparr>)"
    by simp
  note first = ensure_agent_client_absent_facts [OF absent_v, of env user]
  from first(3) [of a] calls_v show "\<exists>new. calls_on (manager ?wr) a =
      calls_on (manager w2) a @ CallDisconnect # new"
    unfolding wr by simp
  from ensure_agent_client_keeps [of env ?v a user None a] sess_v
  show "map_of (chat_sessions ?wr) sid = Some (info2\<lparr>session_claude_id := None\<rparr>)"
    unfolding wr by simp
  show "found = (case client_factory w2 of
                    [] \<Rightarrow> None
                  | Some client # later \<Rightarrow> Some client
                  | None # later \<Rightarrow> (case later of [] \<Rightarrow> None | second # others \<Rightarrow> second))"
    and "registry_entry (manager w3) a = (case found of None \<Rightarrow> (None, None, None, None)
           | Some client \<Rightarrow> ?fresh client)"
  proof -
    show "found = (case client_factory w2 of
                    [] \<Rightarrow> None
                  | Some client # later \<Rightarrow> Some client
                  | None # later \<Rightarrow> (case later of [] \<Rightarrow> None | second # others \<Rightarrow> second))"
      and "registry_entry (manager w3) a = (case found of None \<Rightarrow> (None, None, None, None)
           | Some client \<Rightarrow> ?fresh client)"
    proof (atomize (full), cases "fst (ensure_agent_client env ?v a user None)")
      case (Some client)
      with first(1) factory_v have fac: "(case client_factory w2 of [] \<Rightarrow> None | x # later \<Rightarrow> x) = Some client"
        by simp
      from first(4) Some have "registry_entry (manager ?wr) a = ?fresh client"
        unfolding wr by simp
      then have "ensure_agent_client env ?wr a user None = (Some client, ?wr)"
        by (rule ensure_agent_client_again)
      with again have fw: "found = Some client" "w3 = ?wr" by simp_all
      from first(4) Some have e: "registry_entry (manager ?wr) a = ?fresh client"
        unfolding wr by simp
      from fac fw e show "found = (case client_factory w2 of
                    [] \<Rightarrow> None
                  | Some client # later \<Rightarrow> Some client
                  | None # later \<Rightarrow> (case later of [] \<Rightarrow> None | second # others \<Rightarrow> second)) \<and>
          registry_entry (manager w3) a = (case found of None \<Rightarrow> (None, None, None, None)
           | Some client \<Rightarrow> ?fresh client)"
        by (simp split: list.splits option.splits)
    next
      case None
      with first(1) factory_v have fac: "(case client_factory w2 of [] \<Rightarrow> None | x # later \<Rightarrow> x) = None"
        by simp
      from first(4) None entry_v have e: "registry_entry (manager ?wr) a = (None, None, None, None)"
        unfolding wr by simp
      then have absent_r: "map_of (clients (manager ?wr)) a = None"
        by (simp add: registry_entry_def)
      from first(2) factory_v have fac_r: "client_factory ?wr = tl (client_factory w2)"
        unfolding wr by simp
      note second = ensure_agent_client_absent_facts [OF absent_r, of env user]
      from again have fw: "fst (ensure_agent_client env ?wr a user None) = found"
        "snd (ensure_agent_client env ?wr a user None) = w3"
        by simp_all
      from second(1) fw(1) fac_r have f2: "found = (case tl (client_factory w2) of [] \<Rightarrow> None | x # later \<Rightarrow> x)"
        by simp
      from second(4) fw e have e3: "registry_entry (manager w3) a =
          (case found of None \<Rightarrow> (None, None, None, None) | Some client \<Rightarrow> ?fresh client)"
        by (simp split: option.splits)
      from fac f2 e3 show "found = (case client_factory w2 of
                    [] \<Rightarrow> None
                  | Some client # later \<Rightarrow> Some client
                  | None # later \<Rightarrow> (case later of [] \<Rightarrow> None | second # others \<Rightarrow> second)) \<and>
          registry_entry (manager w3) a = (case found of None \<Rightarrow> (None, None, None, None)
           | Some client \<Rightarrow> ?fresh client)"
        by (simp split: list.splits option.splits)
    qed
  qed
qed

subsection \<open>Claim on the recovery from a fatal transport error\<close>

text \<open>
  Claim C8, as the code has it. A command exchange of a known session is made with a
  client \<open>c1\<close> and fails with an error text that matches the patterns of a dead CLI
  process. Then the run closes the session's client (\<open>disconnect()\<close> is called), clears the
  persisted resume token, and asks the constructor for a new client, and once more when
  that gave none; \<open>found\<close> is what it then has. When it has a client \<open>c2\<close>, that client is
  registered afresh, with no resume token and not connected, and exactly one more
  exchange is made, with \<open>c2\<close>: if it returns, its state is the result and no error message
  is saved; if it fails too, with whatever error, there is no further attempt and the
  result is its state with the one apology saved as an error message. When it has no
  client, the agent is left unregistered, nothing more is sent and no error message is
  saved. The message of the second exchange is the message of the first put through the
  knowledge-base step again; both are the original message when the knowledge base
  gives no fragments for it.
\<close>

theorem C8_fatal_error_retried_once:
  assumes session: "map_of (chat_sessions w) sid = Some info"
    and client1: "ensure_agent_client env w a (session_user_id info) (session_claude_id info) = (Some c1, w1)"
    and fails: "exchange env w1 sid a c1 (with_kb_context env (session_user_id info) message)
                  (session_claude_id info) = (Raises err, w2)"
    and fatal: "is_fatal_cli_error err"
    and again: "ensure_agent_client env (reinitialize_agent env w2 sid a (session_user_id info)) a
                  (session_user_id info) None = (found, w3)"
  shows "(\<exists>new. calls_on (manager (reinitialize_agent env w2 sid a (session_user_id info))) a =
            calls_on (manager w2) a @ CallDisconnect # new)
       \<and> map_option session_claude_id
           (map_of (chat_sessions (reinitialize_agent env w2 sid a (session_user_id info))) sid) = Some None
       \<and> found = (case client_factory w2 of
                     [] \<Rightarrow> None
                   | Some client # later \<Rightarrow> Some client
                   | None # later \<Rightarrow> (case later of [] \<Rightarrow> None | second # others \<Rightarrow> second))
       \<and> (case found of
             None \<Rightarrow>
               registry_entry (manager w3) a = (None, None, None, None)
               \<and> process_ai_response env w sid a message False = w3
               \<and> queries_sent (process_ai_response env w sid a message False) a =
                   queries_sent w a @ [with_kb_context env (session_user_id info) message]
               \<and> error_messages (process_ai_response env w sid a message False) = error_messages w
           | Some c2 \<Rightarrow>
               registry_entry (manager w3) a =
                 (Some c2,
                  Some \<lparr>resume = None,
                        cwd = (case truthy (agent_settings_work_dir env a) of
                                 Some custom \<Rightarrow> custom
                               | None \<Rightarrow> default_agent_work_dir env (session_user_id info) a)\<rparr>,
                  Some False, Some (clock env))
               \<and> process_ai_response env w sid a message False =
                   (case fst (exchange env w3 sid a c2
                               (with_kb_context env (session_user_id info)
                                  (with_kb_context env (session_user_id info) message)) None) of
                      Returns \<Rightarrow>
                        snd (exchange env w3 sid a c2
                               (with_kb_context env (session_user_id info)
                                  (with_kb_context env (session_user_id info) message)) None)
                    | Raises e \<Rightarrow>
                        save_message
                          (snd (exchange env w3 sid a c2
                                 (with_kb_context env (session_user_id info)
                                    (with_kb_context env (session_user_id info) message)) None))
                          sid a ''ai'' Apology ''text'' (Some ErrorFlag))
               \<and> queries_sent (process_ai_response env w sid a message False) a =
                   queries_sent w a @
                     [with_kb_context env (session_user_id info) message,
                      with_kb_context env (session_user_id info)
                        (with_kb_context env (session_user_id info) message)]
               \<and> error_messages (process_ai_response env w sid a message False) =
                   error_messages w @
                     (case fst (exchange env w3 sid a c2
                                 (with_kb_context env (session_user_id info)
                                    (with_kb_context env (session_user_id info) message)) None) of
                        Returns \<Rightarrow> []
                      | Raises e \<Rightarrow>
                          [\<lparr>message_session = sid, sender_id = a, sender_type = ''ai'',
                            message_content = Apology, message_type = ''text'',
                            message_metadata = Some ErrorFlag\<rparr>]))
       \<and> (truthy (kb_context env (session_user_id info) message) = None \<longrightarrow>
            with_kb_context env (session_user_id info) message = message \<and>
            with_kb_context env (session_user_id info)
              (with_kb_context env (session_user_id info) message) = message)"
proof -
  let ?user = "session_user_id info"
  let ?msg1 = "with_kb_context env ?user message"
  let ?msg2 = "with_kb_context env ?user ?msg1"
  let ?wr = "reinitialize_agent env w2 sid a ?user"
  let ?fresh = "\<lambda>client. (Some client,
      Some \<lparr>resume = None,
            cwd = (case truthy (agent_settings_work_dir env a) of
                     Some custom \<Rightarrow> custom | None \<Rightarrow> default_agent_work_dir env ?user a)\<rparr>,
      Some False, Some (clock env))"
  let ?apology = "\<lparr>message_session = sid, sender_id = a, sender_type = ''ai'',
      message_content = Apology, message_type = ''text'', message_metadata = Some ErrorFlag\<rparr>"
  let ?run = "process_ai_response env w sid a message False"
  txt \<open>The first attempt.\<close>
  from client1 have reg1: "map_of (clients (manager w1)) a = Some c1"
    by (rule ensure_agent_client_registered)
  from ensure_agent_client_keeps [of env w a ?user "session_claude_id info" a] client1
  have w1: "queries_sent w1 a = queries_sent w a" "chat_sessions w1 = chat_sessions w"
    "chat_messages w1 = chat_messages w"
    by simp_all
  from exchange_keeps [of env w1 sid a c1 ?msg1 "session_claude_id info" sid] fails
  have w2: "queries_sent w2 a = queries_sent w1 a @ [?msg1]" "error_messages w2 = error_messages w1"
    "clients (manager w2) = clients (manager w1)"
    "map_option session_user_id (map_of (chat_sessions w2) sid) =
       map_option session_user_id (map_of (chat_sessions w1) sid)"
    by simp_all
  from w2(3) reg1 have reg2: "map_of (clients (manager w2)) a = Some c1" by simp
  from w2(4) w1(2) session obtain info2 where
    info2: "map_of (chat_sessions w2) sid = Some info2" "session_user_id info2 = ?user"
    by (cases "map_of (chat_sessions w2) sid") auto
  txt \<open>The recovery.\<close>
  note state = recovery_state [OF reg2 info2(1) again]
  from state(1) have closed: "\<exists>new. calls_on (manager ?wr) a =
      calls_on (manager w2) a @ CallDisconnect # new" .
  from state(2) have sess_r: "map_of (chat_sessions ?wr) sid = Some (info2\<lparr>session_claude_id := None\<rparr>)" .
  then have cleared: "map_option session_claude_id (map_of (chat_sessions ?wr) sid) = Some None"
    by simp
  note which = state(3)
  note entry = state(4)
  from reinitialize_agent_keeps [of env w2 sid a ?user a]
  have wr: "queries_sent ?wr a = queries_sent w2 a" "chat_messages ?wr = chat_messages w2"
    by simp_all
  from ensure_agent_client_keeps [of env ?wr a ?user None a] again
  have w3: "queries_sent w3 a = queries_sent ?wr a" "chat_messages w3 = chat_messages ?wr"
    by simp_all
  have sent3: "queries_sent w3 a = queries_sent w a @ [?msg1]"
    using w3(1) wr(1) w2(1) w1(1) by simp
  have err3: "error_messages w3 = error_messages w"
    using w3(2) wr(2) w2(2) w1(3) by (simp add: error_messages_def)
  txt \<open>The retry.\<close>
  have first: "?run = process_ai_response env ?wr sid a ?msg1 True"
    using session client1 fails fatal by (rule process_ai_response_first)
  have again': "ensure_agent_client env ?wr a (session_user_id (info2\<lparr>session_claude_id := None\<rparr>))
      (session_claude_id (info2\<lparr>session_claude_id := None\<rparr>)) = (found, w3)"
    using again info2(2) by simp
  have token_r: "session_claude_id (info2\<lparr>session_claude_id := None\<rparr>) = None"
    and user_r: "session_user_id (info2\<lparr>session_claude_id := None\<rparr>) = ?user"
    using info2(2) by simp_all
  note second = process_ai_response_retry [OF sess_r again', of ?msg1, unfolded token_r user_r]
  have outcome: "(case found of
       None \<Rightarrow>
         registry_entry (manager w3) a = (None, None, None, None) \<and> ?run = w3 \<and>
         queries_sent ?run a = queries_sent w a @ [?msg1] \<and> error_messages ?run = error_messages w
     | Some c2 \<Rightarrow>
         registry_entry (manager w3) a = ?fresh c2 \<and>
         ?run = (case fst (exchange env w3 sid a c2 ?msg2 None) of
                   Returns \<Rightarrow> snd (exchange env w3 sid a c2 ?msg2 None)
                 | Raises e \<Rightarrow>
                     save_message (snd (exchange env w3 sid a c2 ?msg2 None))
                       sid a ''ai'' Apology ''text'' (Some ErrorFlag)) \<and>
         queries_sent ?run a = queries_sent w a @ [?msg1, ?msg2] \<and>
         error_messages ?run = error_messages w @
           (case fst (exchange env w3 sid a c2 ?msg2 None) of Returns \<Rightarrow> [] | Raises e \<Rightarrow> [?apology]))"
  proof (cases found)
    case None
    from entry None have e: "registry_entry (manager w3) a = (None, None, None, None)" by simp
    from first second None have r: "?run = w3" by simp
    from None e r sent3 err3 show ?thesis by simp
  next
    case (Some c2)
    let ?x = "exchange env w3 sid a c2 ?msg2 None"
    from entry Some have e: "registry_entry (manager w3) a = ?fresh c2" by simp
    from first second Some info2(2) have r: "?run =
        (case fst ?x of
           Returns \<Rightarrow> snd ?x
         | Raises e \<Rightarrow> save_message (snd ?x) sid a ''ai'' Apology ''text'' (Some ErrorFlag))"
      by simp
    from exchange_keeps [of env w3 sid a c2 ?msg2 None sid]
    have x: "queries_sent (snd ?x) a = queries_sent w3 a @ [?msg2]" "error_messages (snd ?x) = error_messages w3"
      by simp_all
    have sent: "queries_sent ?run a = queries_sent w a @ [?msg1, ?msg2]"
      unfolding r using x(1) sent3 by (cases "fst ?x") (simp_all add: queries_sent_def)
    have saved: "error_messages ?run = error_messages w @
        (case fst ?x of Returns \<Rightarrow> [] | Raises e \<Rightarrow> [?apology])"
      unfolding r using x(2) err3
      by (cases "fst ?x") (simp_all add: error_messages_def save_message_def)
    from Some e r sent saved show ?thesis by simp
  qed
  have plain: "truthy (kb_context env ?user message) = None \<longrightarrow> ?msg1 = message \<and> ?msg2 = message"
    by (simp add: with_kb_context_def)
  from closed cleared which outcome plain show ?thesis by blast
qed

text \<open>
  The theorem for a session \<open>s1\<close> of user \<open>u1\<close> with agent \<open>a1\<close>, whose registered client
  accepts the query and whose stream then dies with the text of a terminated process. In
  the first run, without knowledge base, the client built next refuses the query: the
  message was sent twice and one error message was saved. In the second run no client
  can be built: the message was sent once and no error message was saved. In the third
  run the knowledge base gives the fragment \<open>F\<close> and the client built next answers: two
  queries were sent, the second with the fragment twice, and no error message was saved.
\<close>

theorem C8_fatal_error_retried_once_witness:
  "queries_sent
     (process_ai_response
        \<lparr>kb_context = (\<lambda>user message. None), kb_header = ''|KB:'',
         agent_settings_work_dir = (\<lambda>agent. None),
         default_agent_work_dir = (\<lambda>user agent. ''/home/queen/userid_u1/a1''), clock = 5\<rparr>
        \<lparr>manager =
           \<lparr>clients = [(''a1'',
               \<lparr>connect = Returns, disconnect = Returns, close = None, process = None, query = Returns,
                receive_response = ([], Raises ''Cannot write to terminated process (exit code: 1)'')\<rparr>)],
            client_options = [(''a1'', \<lparr>resume = Some ''tok1'', cwd = ''/home/queen/userid_u1/a1''\<rparr>)],
            client_connected = [(''a1'', True)], agent_last_active = [(''a1'', 0)], calls = []\<rparr>,
         chat_sessions = [(''s1'', \<lparr>session_user_id = ''u1'', session_claude_id = Some ''tok1''\<rparr>)],
         chat_messages = [],
         client_factory = [Some
           \<lparr>connect = Returns, disconnect = Returns, close = None, process = None,
                  query = Raises ''ProcessTransport is not ready for writing'',
                  receive_response = ([], Returns)\<rparr>]\<rparr>
        ''s1'' ''a1'' ''hello'' False) ''a1''
   = [''hello'', ''hello'']
   \<and> error_messages
     (process_ai_response
        \<lparr>kb_context = (\<lambda>user message. None), kb_header = ''|KB:'',
         agent_settings_work_dir = (\<lambda>agent. None),
         default_agent_work_dir = (\<lambda>user agent. ''/home/queen/userid_u1/a1''), clock = 5\<rparr>
        \<lparr>manager =
           \<lparr>clients = [(''a1'',
               \<lparr>connect = Returns, disconnect = Returns, close = None, process = None, query = Returns,
                receive_response = ([], Raises ''Cannot write to terminated process (exit code: 1)'')\<rparr>)],
            client_options = [(''a1'', \<lparr>resume = Some ''tok1'', cwd = ''/home/queen/userid_u1/a1''\<rparr>)],
            client_connected = [(''a1'', True)], agent_last_active = [(''a1'', 0)], calls = []\<rparr>,
         chat_sessions = [(''s1'', \<lparr>session_user_id = ''u1'', session_claude_id = Some ''tok1''\<rparr>)],
         chat_messages = [],
         client_factory = [Some
           \<lparr>connect = Returns, disconnect = Returns, close = None, process = None,
                  query = Raises ''ProcessTransport is not ready for writing'',
                  receive_response = ([], Returns)\<rparr>]\<rparr>
        ''s1'' ''a1'' ''hello'' False)
   = [\<lparr>message_session = ''s1'', sender_id = ''a1'', sender_type = ''ai'',
        message_content = Apology, message_type = ''text'', message_metadata = Some ErrorFlag\<rparr>]
   \<and> queries_sent
     (process_ai_response
        \<lparr>kb_context = (\<lambda>user message. None), kb_header = ''|KB:'',
         agent_settings_work_dir = (\<lambda>agent. None),
         default_agent_work_dir = (\<lambda>user agent. ''/home/queen/userid_u1/a1''), clock = 5\<rparr>
        \<lparr>manager =
           \<lparr>clients = [(''a1'',
               \<lparr>connect = Returns, disconnect = Returns, close = None, process = None, query = Returns,
                receive_response = ([], Raises ''Cannot write to terminated process (exit code: 1)'')\<rparr>)],
            client_options = [(''a1'', \<lparr>resume = Some ''tok1'', cwd = ''/home/queen/userid_u1/a1''\<rparr>)],
            client_connected = [(''a1'', True)], agent_last_active = [(''a1'', 0)], calls = []\<rparr>,
         chat_sessions = [(''s1'', \<lparr>session_user_id = ''u1'', session_claude_id = Some ''tok1''\<rparr>)],
         chat_messages = [],
         client_factory = []\<rparr>
        ''s1'' ''a1'' ''hello'' False) ''a1''
   = [''hello'']
   \<and> error_messages
     (process_ai_response
        \<lparr>kb_context = (\<lambda>user message. None), kb_header = ''|KB:'',
         agent_settings_work_dir = (\<lambda>agent. None),
         default_agent_work_dir = (\<lambda>user agent. ''/home/queen/userid_u1/a1''), clock = 5\<rparr>
        \<lparr>manager =
           \<lparr>clients = [(''a1'',
               \<lparr>connect = Returns, disconnect = Returns, close = None, process = None, query = Returns,
                receive_response = ([], Raises ''Cannot write to terminated process (exit code: 1)'')\<rparr>)],
            client_options = [(''a1'', \<lparr>resume = Some ''tok1'', cwd = ''/home/queen/userid_u1/a1''\<rparr>)],
            client_connected = [(''a1'', True)], agent_last_active = [(''a1'', 0)], calls = []\<rparr>,
         chat_sessions = [(''s1'', \<lparr>session_user_id = ''u1'', session_claude_id = Some ''tok1''\<rparr>)],
         chat_messages = [],
         client_factory = []\<rparr>
        ''s1'' ''a1'' ''hello'' False)
   = []
   \<and> queries_sent
     (process_ai_response
        \<lparr>kb_context = (\<lambda>user message. Some ''F''), kb_header = ''|KB:'',
         agent_settings_work_dir = (\<lambda>agent. None),
         default_agent_work_dir = (\<lambda>user agent. ''/home/queen/userid_u1/a1''), clock = 5\<rparr>
        \<lparr>manager =
           \<lparr>clients = [(''a1'',
               \<lparr>connect = Returns, disconnect = Returns, close = None, process = None, query = Returns,
                receive_response = ([], Raises ''Cannot write to terminated process (exit code: 1)'')\<rparr>)],
            client_options = [(''a1'', \<lparr>resume = Some ''tok1'', cwd = ''/home/queen/userid_u1/a1''\<rparr>)],
            client_connected = [(''a1'', True)], agent_last_active = [(''a1'', 0)], calls = []\<rparr>,
         chat_sessions = [(''s1'', \<lparr>session_user_id = ''u1'', session_claude_id = Some ''tok1''\<rparr>)],
         chat_messages = [],
         client_factory = [Some
           \<lparr>connect = Returns, disconnect = Returns, close = None, process = None,
                  query = Returns, receive_response = ([], Returns)\<rparr>]\<rparr>
        ''s1'' ''a1'' ''hello'' False) ''a1''
   = [''hello|KB:F'', ''hello|KB:F|KB:F'']
   \<and> error_messages
     (process_ai_response
        \<lparr>kb_context = (\<lambda>user message. Some ''F''), kb_header = ''|KB:'',
         agent_settings_work_dir = (\<lambda>agent. None),
         default_agent_work_dir = (\<lambda>user agent. ''/home/queen/userid_u1/a1''), clock = 5\<rparr>
        \<lparr>manager =
           \<lparr>clients = [(''a1'',
               \<lparr>connect = Returns, disconnect = Returns, close = None, process = None, query = Returns,
                receive_response = ([], Raises ''Cannot write to terminated process (exit code: 1)'')\<rparr>)],
            client_options = [(''a1'', \<lparr>resume = Some ''tok1'', cwd = ''/home/queen/userid_u1/a1''\<rparr>)],
            client_connected = [(''a1'', True)], agent_last_active = [(''a1'', 0)], calls = []\<rparr>,
         chat_sessions = [(''s1'', \<lparr>session_user_id = ''u1'', session_claude_id = Some ''tok1''\<rparr>)],
         chat_messages = [],
         client_factory = [Some
           \<lparr>connect = Returns, disconnect = Returns, close = None, process = None,
                  query = Returns, receive_response = ([], Returns)\<rparr>]\<rparr>
        ''s1'' ''a1'' ''hello'' False)
   = []"
proof -
  let ?e0 = "\<lparr>kb_context = (\<lambda>user message. None), kb_header = ''|KB:'',
         agent_settings_work_dir = (\<lambda>agent. None),
         default_agent_work_dir = (\<lambda>user agent. ''/home/queen/userid_u1/a1''), clock = 5\<rparr>"
  let ?e1 = "\<lparr>kb_context = (\<lambda>user message. Some ''F''), kb_header = ''|KB:'',
         agent_settings_work_dir = (\<lambda>agent. None),
         default_agent_work_dir = (\<lambda>user agent. ''/home/queen/userid_u1/a1''), clock = 5\<rparr>"
  let ?c1 = "\<lparr>connect = Returns, disconnect = Returns, close = None, process = None, query = Returns,
                receive_response = ([], Raises ''Cannot write to terminated process (exit code: 1)'')\<rparr>"
  let ?bad = "\<lparr>connect = Returns, disconnect = Returns, close = None, process = None,
                  query = Raises ''ProcessTransport is not ready for writing'',
                  receive_response = ([], Returns)\<rparr>"
  let ?ok = "\<lparr>connect = Returns, disconnect = Returns, close = None, process = None,
                  query = Returns, receive_response = ([], Returns)\<rparr>"
  let ?info = "\<lparr>session_user_id = ''u1'', session_claude_id = Some ''tok1''\<rparr>"
  let ?W = "\<lambda>factory. \<lparr>manager =
           \<lparr>clients = [(''a1'', ?c1)],
            client_options = [(''a1'', \<lparr>resume = Some ''tok1'', cwd = ''/home/queen/userid_u1/a1''\<rparr>)],
            client_connected = [(''a1'', True)], agent_last_active = [(''a1'', 0)], calls = []\<rparr>,
         chat_sessions = [(''s1'', ?info)], chat_messages = [], client_factory = factory\<rparr>"
  let ?err = "''Cannot write to terminated process (exit code: 1)''"
  have fatal: "is_fatal_cli_error ?err" by code_simp
  have kb0: "with_kb_context ?e0 ''u1'' m = m" for m
    by (simp add: with_kb_context_def truthy_def)
  have kb1: "with_kb_context ?e1 ''u1'' m = m @ ''|KB:F''" for m
    by (simp add: with_kb_context_def truthy_def)
  have session: "map_of (chat_sessions (?W f)) ''s1'' = Some ?info" for f by simp
  have client1: "ensure_agent_client env (?W f) ''a1'' (session_user_id ?info) (session_claude_id ?info)
      = (Some ?c1, ?W f)" if "agent_settings_work_dir env = (\<lambda>agent. None)" for env f
    using that by (simp add: ensure_agent_client_def Let_def truthy_def)
  have fails: "exchange env (?W f) ''s1'' ''a1'' ?c1 m (session_claude_id ?info) =
      (Raises ?err, snd (exchange env (?W f) ''s1'' ''a1'' ?c1 m (Some ''tok1'')))" for env f m
    by (simp add: exchange_def Let_def prod_eq_iff)
  have factory: "client_factory (snd (exchange env (?W f) ''s1'' ''a1'' ?c1 m (Some ''tok1''))) = f" for env f m
    using exchange_keeps [of env "?W f" "''s1''" "''a1''" ?c1 m "Some ''tok1''"] by simp
  have again: "ensure_agent_client env v ''a1'' (session_user_id ?info) None =
      (fst (ensure_agent_client env v ''a1'' ''u1'' None), snd (ensure_agent_client env v ''a1'' ''u1'' None))"
    for env v
    by simp
  have q0: "queries_sent (?W f) ''a1'' = []" for f by (simp add: queries_sent_def calls_on_def)
  have e0: "error_messages (?W f) = []" for f by (simp add: error_messages_def)
  have bad: "fst (exchange env v ''s1'' ''a1'' ?bad m None) = Raises ''ProcessTransport is not ready for writing''"
    for env v m
    by (simp add: exchange_def Let_def)
  have ok: "fst (exchange env v ''s1'' ''a1'' ?ok m None) = Returns" for env v m
    by (simp add: exchange_def Let_def split: prod.splits)
  txt \<open>The first run.\<close>
  note s_a = session [where f = "[Some ?bad]"]
  have set_a: "agent_settings_work_dir ?e0 = (\<lambda>agent. None)" by simp
  note c_a = client1 [where env = ?e0 and f = "[Some ?bad]", OF set_a]
  note f_a = fails [where env = ?e0 and f = "[Some ?bad]"
      and m = "with_kb_context ?e0 (session_user_id ?info) ''hello''"]
  note g_a = again [where env = ?e0
      and v = "reinitialize_agent ?e0 (snd (exchange ?e0 (?W [Some ?bad]) ''s1'' ''a1'' ?c1
         (with_kb_context ?e0 (session_user_id ?info) ''hello'') (Some ''tok1''))) ''s1'' ''a1''
         (session_user_id ?info)"]
  note run_a = C8_fatal_error_retried_once [OF s_a c_a f_a fatal g_a]
  from run_a [THEN conjunct2, THEN conjunct2, THEN conjunct1]
  have found_a: "fst (ensure_agent_client ?e0
      (reinitialize_agent ?e0 (snd (exchange ?e0 (?W [Some ?bad]) ''s1'' ''a1'' ?c1
         (with_kb_context ?e0 (session_user_id ?info) ''hello'') (Some ''tok1''))) ''s1'' ''a1''
         (session_user_id ?info))
      ''a1'' ''u1'' None) = Some ?bad"
    by (simp only: factory list.case option.case)
  note out_a = run_a [THEN conjunct2, THEN conjunct2, THEN conjunct2, THEN conjunct1,
      unfolded found_a option.case]
  from out_a [THEN conjunct2, THEN conjunct2, THEN conjunct1]
  have sent_a: "queries_sent (process_ai_response ?e0 (?W [Some ?bad]) ''s1'' ''a1'' ''hello'' False) ''a1'' =
      [''hello'', ''hello'']"
    by (simp add: kb0 q0)
  from out_a [THEN conjunct2, THEN conjunct2, THEN conjunct2]
  have saved_a: "error_messages (process_ai_response ?e0 (?W [Some ?bad]) ''s1'' ''a1'' ''hello'' False) =
      [\<lparr>message_session = ''s1'', sender_id = ''a1'', sender_type = ''ai'',
        message_content = Apology, message_type = ''text'', message_metadata = Some ErrorFlag\<rparr>]"
    by (simp add: bad e0)
  txt \<open>The second run.\<close>
  note s_b = session [where f = "[]"]
  have set_b: "agent_settings_work_dir ?e0 = (\<lambda>agent. None)" by simp
  note c_b = client1 [where env = ?e0 and f = "[]", OF set_b]
  note f_b = fails [where env = ?e0 and f = "[]"
      and m = "with_kb_context ?e0 (session_user_id ?info) ''hello''"]
  note g_b = again [where env = ?e0
      and v = "reinitialize_agent ?e0 (snd (exchange ?e0 (?W []) ''s1'' ''a1'' ?c1
         (with_kb_context ?e0 (session_user_id ?info) ''hello'') (Some ''tok1''))) ''s1'' ''a1''
         (session_user_id ?info)"]
  note run_b = C8_fatal_error_retried_once [OF s_b c_b f_b fatal g_b]
  from run_b [THEN conjunct2, THEN conjunct2, THEN conjunct1]
  have found_b: "fst (ensure_agent_client ?e0
      (reinitialize_agent ?e0 (snd (exchange ?e0 (?W []) ''s1'' ''a1'' ?c1
         (with_kb_context ?e0 (session_user_id ?info) ''hello'') (Some ''tok1''))) ''s1'' ''a1''
         (session_user_id ?info))
      ''a1'' ''u1'' None) = None"
    by (simp only: factory list.case)
  note out_b = run_b [THEN conjunct2, THEN conjunct2, THEN conjunct2, THEN conjunct1,
      unfolded found_b option.case]
  from out_b [THEN conjunct2, THEN conjunct2, THEN conjunct1]
  have sent_b: "queries_sent (process_ai_response ?e0 (?W []) ''s1'' ''a1'' ''hello'' False) ''a1'' =
      [''hello'']"
    by (simp add: kb0 q0)
  from out_b [THEN conjunct2, THEN conjunct2, THEN conjunct2]
  have saved_b: "error_messages (process_ai_response ?e0 (?W []) ''s1'' ''a1'' ''hello'' False) = []"
    by (simp add: e0)
  txt \<open>The third run.\<close>
  note s_c = session [where f = "[Some ?ok]"]
  have set_c: "agent_settings_work_dir ?e1 = (\<lambda>agent. None)" by simp
  note c_c = client1 [where env = ?e1 and f = "[Some ?ok]", OF set_c]
  note f_c = fails [where env = ?e1 and f = "[Some ?ok]"
      and m = "with_kb_context ?e1 (session_user_id ?info) ''hello''"]
  note g_c = again [where env = ?e1
      and v = "reinitialize_agent ?e1 (snd (exchange ?e1 (?W [Some ?ok]) ''s1'' ''a1'' ?c1
         (with_kb_context ?e1 (session_user_id ?info) ''hello'') (Some ''tok1''))) ''s1'' ''a1''
         (session_user_id ?info)"]
  note run_c = C8_fatal_error_retried_once [OF s_c c_c f_c fatal g_c]
  from run_c [THEN conjunct2, THEN conjunct2, THEN conjunct1]
  have found_c: "fst (ensure_agent_client ?e1
      (reinitialize_agent ?e1 (snd (exchange ?e1 (?W [Some ?ok]) ''s1'' ''a1'' ?c1
         (with_kb_context ?e1 (session_user_id ?info) ''hello'') (Some ''tok1''))) ''s1'' ''a1''
         (session_user_id ?info))
      ''a1'' ''u1'' None) = Some ?ok"
    by (simp only: factory list.case option.case)
  note out_c = run_c [THEN conjunct2, THEN conjunct2, THEN conjunct2, THEN conjunct1,
      unfolded found_c option.case]
  from out_c [THEN conjunct2, THEN conjunct2, THEN conjunct1]
  have sent_c: "queries_sent (process_ai_response ?e1 (?W [Some ?ok]) ''s1'' ''a1'' ''hello'' False) ''a1'' =
      [''hello|KB:F'', ''hello|KB:F|KB:F'']"
    by (simp add: kb1 q0)
  from out_c [THEN conjunct2, THEN conjunct2, THEN conjunct2]
  have saved_c: "error_messages (process_ai_response ?e1 (?W [Some ?ok]) ''s1'' ''a1'' ''hello'' False) = []"
    by (simp add: ok e0)
  from sent_a saved_a sent_b saved_b sent_c saved_c show ?thesis by (intro conjI)
qed

text \<open>
  The claim as the specification words it fails in two places. In the first run the
  registered client accepts the query and its stream then dies with the text of a
  terminated process, and no new client can be built: the client was queried once, the
  agent is left without a client, and no error message is saved. In the second run a
  new client can be built and the knowledge base gives the fragment \<open>F\<close> for every
  message: the retry sends neither the original message nor the message as first sent,
  but the latter with the fragment appended once more.
\<close>

theorem C8_retry_not_always_made:
  "is_fatal_cli_error ''Cannot write to terminated process (exit code: 1)''
   \<and> queries_sent
     (process_ai_response
        \<lparr>kb_context = (\<lambda>user message. None), kb_header = ''|KB:'',
         agent_settings_work_dir = (\<lambda>agent. None),
         default_agent_work_dir = (\<lambda>user agent. ''/home/queen/userid_u1/a1''), clock = 5\<rparr>
        \<lparr>manager =
           \<lparr>clients = [(''a1'',
               \<lparr>connect = Returns, disconnect = Returns, close = None, process = None, query = Returns,
                receive_response = ([], Raises ''Cannot write to terminated process (exit code: 1)'')\<rparr>)],
            client_options = [(''a1'', \<lparr>resume = Some ''tok1'', cwd = ''/home/queen/userid_u1/a1''\<rparr>)],
            client_connected = [(''a1'', True)], agent_last_active = [(''a1'', 0)], calls = []\<rparr>,
         chat_sessions = [(''s1'', \<lparr>session_user_id = ''u1'', session_claude_id = Some ''tok1''\<rparr>)],
         chat_messages = [],
         client_factory = []\<rparr>
        ''s1'' ''a1'' ''hello'' False) ''a1''
   = [''hello'']
   \<and> error_messages
     (process_ai_response
        \<lparr>kb_context = (\<lambda>user message. None), kb_header = ''|KB:'',
         agent_settings_work_dir = (\<lambda>agent. None),
         default_agent_work_dir = (\<lambda>user agent. ''/home/queen/userid_u1/a1''), clock = 5\<rparr>
        \<lparr>manager =
           \<lparr>clients = [(''a1'',
               \<lparr>connect = Returns, disconnect = Returns, close = None, process = None, query = Returns,
                receive_response = ([], Raises ''Cannot write to terminated process (exit code: 1)'')\<rparr>)],
            client_options = [(''a1'', \<lparr>resume = Some ''tok1'', cwd = ''/home/queen/userid_u1/a1''\<rparr>)],
            client_connected = [(''a1'', True)], agent_last_active = [(''a1'', 0)], calls = []\<rparr>,
         chat_sessions = [(''s1'', \<lparr>session_user_id = ''u1'', session_claude_id = Some ''tok1''\<rparr>)],
         chat_messages = [],
         client_factory = []\<rparr>
        ''s1'' ''a1'' ''hello'' False)
   = []
   \<and> registry_entry (manager
     (process_ai_response
        \<lparr>kb_context = (\<lambda>user message. None), kb_header = ''|KB:'',
         agent_settings_work_dir = (\<lambda>agent. None),
         default_agent_work_dir = (\<lambda>user agent. ''/home/queen/userid_u1/a1''), clock = 5\<rparr>
        \<lparr>manager =
           \<lparr>clients = [(''a1'',
               \<lparr>connect = Returns, disconnect = Returns, close = None, process = None, query = Returns,
                receive_response = ([], Raises ''Cannot write to terminated process (exit code: 1)'')\<rparr>)],
            client_options = [(''a1'', \<lparr>resume = Some ''tok1'', cwd = ''/home/queen/userid_u1/a1''\<rparr>)],
            client_connected = [(''a1'', True)], agent_last_active = [(''a1'', 0)], calls = []\<rparr>,
         chat_sessions = [(''s1'', \<lparr>session_user_id = ''u1'', session_claude_id = Some ''tok1''\<rparr>)],
         chat_messages = [],
         client_factory = []\<rparr>
        ''s1'' ''a1'' ''hello'' False)) ''a1''
   = (None, None, None, None)
   \<and> queries_sent
     (process_ai_response
        \<lparr>kb_context = (\<lambda>user message. Some ''F''), kb_header = ''|KB:'',
         agent_settings_work_dir = (\<lambda>agent. None),
         default_agent_work_dir = (\<lambda>user agent. ''/home/queen/userid_u1/a1''), clock = 5\<rparr>
        \<lparr>manager =
           \<lparr>clients = [(''a1'',
               \<lparr>connect = Returns, disconnect = Returns, close = None, process = None, query = Returns,
                receive_response = ([], Raises ''Cannot write to terminated process (exit code: 1)'')\<rparr>)],
            client_options = [(''a1'', \<lparr>resume = Some ''tok1'', cwd = ''/home/queen/userid_u1/a1''\<rparr>)],
            client_connected = [(''a1'', True)], agent_last_active = [(''a1'', 0)], calls = []\<rparr>,
         chat_sessions = [(''s1'', \<lparr>session_user_id = ''u1'', session_claude_id = Some ''tok1''\<rparr>)],
         chat_messages = [],
         client_factory = [Some
           \<lparr>connect = Returns, disconnect = Returns, close = None, process = None,
                  query = Returns, receive_response = ([], Returns)\<rparr>]\<rparr>
        ''s1'' ''a1'' ''hello'' False) ''a1''
   = [''hello|KB:F'', ''hello|KB:F|KB:F'']"
  by code_simp

end
